(* ===== verification/Prelude.thy ===== *)
theory Prelude
  imports Main "HOL-Library.Word" "HOL-Library.Char_ord" "HOL-Library.List_Lexorder"
    "HOL-Library.Product_Lexorder"
begin

text \<open>
  The vocabulary the component theories share.

  A Go function that may fail and that changes shared state is an operation: it takes the
  state and returns the error or the value, with the state it leaves. \<open>ok\<close> is
  \<open>return x, nil\<close>, \<open>throw\<close> is \<open>return nil, err\<close>, and \<open>and_then m f\<close> is the idiom
  \<open>x, err := m(); if err != nil { return err }; f(x)\<close>.

  \<open>wp m Q E s\<close> says what running \<open>m\<close> from \<open>s\<close> gives: \<open>Q\<close> of the value and the state
  when it succeeds, \<open>E\<close> of the error and the state when it fails. The rules in the
  collection \<open>wp_rules\<close> compute it through the code, one statement at a time.

  The last sections hold the integer, list and sorting facts the components use: Go's
  \<open>int64\<close> is a 64-bit word read with \<open>sint\<close>, Go's strings are lists of bytes compared
  lexicographically.
\<close>

named_theorems wp_rules "equations computing wp through an operation"
named_theorems frame_rules "what an operation leaves unchanged"

section \<open>Operations with an error result\<close>

type_synonym ('s, 'e, 'a) operation = "'s \<Rightarrow> ('e + 'a) \<times> 's"

definition ok :: "'a \<Rightarrow> ('s, 'e, 'a) operation" where
  "ok x s = (Inr x, s)"

definition throw :: "'e \<Rightarrow> ('s, 'e, 'a) operation" where
  "throw e s = (Inl e, s)"

definition and_then ::
  "('s, 'e, 'a) operation \<Rightarrow> ('a \<Rightarrow> ('s, 'e, 'b) operation) \<Rightarrow> ('s, 'e, 'b) operation" where
  "and_then m f s = (case m s of (Inl e, s') \<Rightarrow> (Inl e, s') | (Inr x, s') \<Rightarrow> f x s')"

definition modify_state :: "('s \<Rightarrow> 's) \<Rightarrow> ('s, 'e, unit) operation" where
  "modify_state f s = (Inr (), f s)"

definition wp ::
  "('s, 'e, 'a) operation \<Rightarrow> ('a \<Rightarrow> 's \<Rightarrow> bool) \<Rightarrow> ('e \<Rightarrow> 's \<Rightarrow> bool) \<Rightarrow> 's \<Rightarrow> bool" where
  "wp m Q E s \<longleftrightarrow> (case m s of (Inl e, s') \<Rightarrow> E e s' | (Inr x, s') \<Rightarrow> Q x s')"

lemma wp_ok [wp_rules]: "wp (ok x) Q E s \<longleftrightarrow> Q x s"
  by (simp add: wp_def ok_def)

lemma wp_throw [wp_rules]: "wp (throw e) Q E s \<longleftrightarrow> E e s"
  by (simp add: wp_def throw_def)

lemma wp_and_then [wp_rules]:
  "wp (and_then m f) Q E s \<longleftrightarrow> wp m (\<lambda>x. wp (f x) Q E) E s"
  by (auto simp: wp_def and_then_def split: prod.splits sum.splits)

lemma wp_modify_state [wp_rules]: "wp (modify_state f) Q E s \<longleftrightarrow> Q () (f s)"
  by (simp add: wp_def modify_state_def)

lemma wp_if [wp_rules]:
  "wp (if b then m else m') Q E s \<longleftrightarrow> (b \<longrightarrow> wp m Q E s) \<and> (\<not> b \<longrightarrow> wp m' Q E s)"
  by simp

lemma wp_case_option [wp_rules]:
  "wp (case x of None \<Rightarrow> m | Some y \<Rightarrow> f y) Q E s \<longleftrightarrow>
     (x = None \<longrightarrow> wp m Q E s) \<and> (\<forall>y. x = Some y \<longrightarrow> wp (f y) Q E s)"
  by (simp split: option.split)

lemma wp_Inr: "wp m Q E s \<Longrightarrow> m s = (Inr x, s') \<Longrightarrow> Q x s'"
  by (simp add: wp_def)

lemma wp_Inl: "wp m Q E s \<Longrightarrow> m s = (Inl e, s') \<Longrightarrow> E e s'"
  by (simp add: wp_def)

lemma wp_mono:
  "wp m Q E s \<Longrightarrow> (\<And>x s'. Q x s' \<Longrightarrow> Q' x s') \<Longrightarrow> (\<And>e s'. E e s' \<Longrightarrow> E' e s') \<Longrightarrow> wp m Q' E' s"
  by (auto simp: wp_def split: prod.splits sum.splits)

lemma wp_total:
  assumes "wp m Q (\<lambda>_ _. False) s"
  obtains x s' where "m s = (Inr x, s')" and "Q x s'"
  using assms by (auto simp: wp_def split: prod.splits sum.splits)

lemma wpI:
  "(\<And>x s'. m s = (Inr x, s') \<Longrightarrow> Q x s') \<Longrightarrow> (\<And>e s'. m s = (Inl e, s') \<Longrightarrow> E e s') \<Longrightarrow> wp m Q E s"
  by (auto simp: wp_def split: prod.splits sum.splits)

lemma and_then_Inr:
  "and_then m f s = (Inr y, s'') \<longleftrightarrow> (\<exists>x s'. m s = (Inr x, s') \<and> f x s' = (Inr y, s''))"
  by (auto simp: and_then_def split: prod.splits sum.splits)

text \<open>An operation preserves \<open>P\<close> when \<open>P\<close> survives success and failure alike.\<close>

definition preserves :: "('s \<Rightarrow> bool) \<Rightarrow> ('s, 'e, 'a) operation \<Rightarrow> bool" where
  "preserves P m \<longleftrightarrow> (\<forall>s. P s \<longrightarrow> P (snd (m s)))"

named_theorems preserves_intros "an operation keeps a predicate of the state"

lemma preservesI: "(\<And>s r s'. P s \<Longrightarrow> m s = (r, s') \<Longrightarrow> P s') \<Longrightarrow> preserves P m"
  by (metis preserves_def prod.collapse)

lemma preserves_ok [preserves_intros]: "preserves P (ok x)"
  by (simp add: preserves_def ok_def)

lemma preserves_throw [preserves_intros]: "preserves P (throw e)"
  by (simp add: preserves_def throw_def)

lemma preserves_and_then [preserves_intros]:
  "preserves P m \<Longrightarrow> (\<And>x. preserves P (f x)) \<Longrightarrow> preserves P (and_then m f)"
  unfolding preserves_def and_then_def
  by (auto split: prod.split sum.split)

lemma preserves_if [preserves_intros]:
  "preserves P m \<Longrightarrow> preserves P m' \<Longrightarrow> preserves P (if b then m else m')"
  by simp

lemma preserves_case_option [preserves_intros]:
  "preserves P m \<Longrightarrow> (\<And>y. preserves P (f y)) \<Longrightarrow> preserves P (case x of None \<Rightarrow> m | Some y \<Rightarrow> f y)"
  by (simp split: option.split)

lemma preserves_case_prod [preserves_intros]:
  "(\<And>a b. preserves P (f a b)) \<Longrightarrow> preserves P (case x of (a, b) \<Rightarrow> f a b)"
  by (simp split: prod.split)

lemma preserves_cases:
  assumes "preserves P m" and "\<And>e. preserves P (f e)" and "\<And>x. preserves P (g x)"
  shows "preserves P (\<lambda>w. case m w of (Inl e, w') \<Rightarrow> f e w' | (Inr x, w') \<Rightarrow> g x w')"
  using assms unfolding preserves_def by (auto split: prod.split sum.split)

lemma preserves_answer: "preserves P (\<lambda>w. (r, w))"
  by (simp add: preserves_def)

lemma preserves_case_sum [preserves_intros]:
  "(\<And>a. preserves P (f a)) \<Longrightarrow> (\<And>b. preserves P (g b)) \<Longrightarrow>
   preserves P (case x of Inl a \<Rightarrow> f a | Inr b \<Rightarrow> g b)"
  by (simp split: sum.split)

lemma preserves_case_list [preserves_intros]:
  "preserves P f \<Longrightarrow> (\<And>a b. preserves P (g a b)) \<Longrightarrow>
   preserves P (case x of [] \<Rightarrow> f | a # b \<Rightarrow> g a b)"
  by (simp split: list.split)

lemma preserves_applied_prod:
  "(\<And>a b. preserves P (f a b)) \<Longrightarrow> preserves P (\<lambda>w. case x of (a, b) \<Rightarrow> f a b w)"
  by (cases x) simp

lemma preserves_applied_if:
  "preserves P m \<Longrightarrow> preserves P m' \<Longrightarrow> preserves P (\<lambda>w. if b then m w else m' w)"
  by (cases b) simp_all

lemmas preserves_answers =
  preserves_cases preserves_answer preserves_applied_prod preserves_applied_if

lemma preserves_snd: "preserves P m \<Longrightarrow> P s \<Longrightarrow> m s = (r, s') \<Longrightarrow> P s'"
  by (auto simp: preserves_def dest!: spec [of _ s])

lemma preserves_wp: "preserves P m \<Longrightarrow> P s \<Longrightarrow> wp m (\<lambda>_. P) (\<lambda>_. P) s"
  by (auto simp: wp_def preserves_def split: prod.splits sum.splits dest!: spec [of _ s])

section \<open>Go's signed 64-bit integers\<close>

text \<open>
  \<open>+\<close> and \<open>-\<close> on \<open>int64\<close> wrap around, as in Go; \<open><s\<close> and \<open>\<le>s\<close> are Go's \<open><\<close>
  and \<open><=\<close>.
\<close>

type_synonym int64 = "64 word"

lemma sint64_bounds: "- (2 ^ 63) \<le> sint (a :: int64)" "sint (a :: int64) < 2 ^ 63"
  using sint_ge [of a] sint_lt [of a] by simp_all

lemma sint64_of_int:
  "- (2 ^ 63) \<le> i \<Longrightarrow> i < 2 ^ 63 \<Longrightarrow> sint (word_of_int i :: int64) = i"
  by (simp add: sint_sbintrunc' signed_take_bit_int_eq_self)

lemma sint64_add:
  "- (2 ^ 63) \<le> sint a + sint b \<Longrightarrow> sint a + sint b < 2 ^ 63 \<Longrightarrow>
   sint (a + b :: int64) = sint a + sint b"
  using sint64_of_int [of "sint a + sint b"] by simp

lemma sint64_sub:
  "- (2 ^ 63) \<le> sint a - sint b \<Longrightarrow> sint a - sint b < 2 ^ 63 \<Longrightarrow>
   sint (a - b :: int64) = sint a - sint b"
  using sint64_of_int [of "sint a - sint b"] by simp

text \<open>
  Adding two numbers that are not negative either gives their sum or, past the largest
  \<open>int64\<close>, a negative number: the sign of the result tells whether it wrapped.
\<close>

lemma sint64_add_overflow:
  assumes "0 \<le> sint a" and "0 \<le> sint b" and "2 ^ 63 \<le> sint a + sint b"
  shows "sint (a + b :: int64) = sint a + sint b - 2 ^ 64"
proof -
  have eq: "word_of_int (sint a + sint b - 2 ^ 64) = (a + b :: int64)"
    by simp
  have "sint (word_of_int (sint a + sint b - 2 ^ 64) :: int64) = sint a + sint b - 2 ^ 64"
    using assms sint64_bounds [of a] sint64_bounds [of b] by (intro sint64_of_int) simp_all
  then show ?thesis
    by (simp only: eq)
qed

text \<open>What the ledger relies on: a credit whose result is not negative did not wrap, a debit never does.\<close>

lemma credit_exact:
  "0 \<le>s a \<Longrightarrow> 0 <s b \<Longrightarrow> 0 \<le>s a + b \<Longrightarrow> sint (a + b :: int64) = sint a + sint b"
  using sint64_add [of a b] sint64_add_overflow [of a b] sint64_bounds [of a] sint64_bounds [of b]
  by (cases "sint a + sint b < 2 ^ 63") (auto simp: word_sle_eq word_sless_alt)

lemma debit_exact:
  "0 \<le>s a \<Longrightarrow> 0 <s b \<Longrightarrow> sint (a - b :: int64) = sint a - sint b"
  using sint64_sub [of a b] sint64_bounds [of a] sint64_bounds [of b]
  by (auto simp: word_sle_eq word_sless_alt)

text \<open>
  The value an \<open>int64\<close> computation gives whose exact result is \<open>i\<close>. Durations, which are
  \<open>int64\<close> counts of nanoseconds, are kept as integers and wrapped where they are multiplied.
\<close>

definition wrap64 :: "int \<Rightarrow> int" where
  "wrap64 i = (i + 2 ^ 63) mod 2 ^ 64 - 2 ^ 63"

lemma wrap64_id: "- (2 ^ 63) \<le> i \<Longrightarrow> i < 2 ^ 63 \<Longrightarrow> wrap64 i = i"
  by (simp add: wrap64_def)

lemma wrap64_bounds: "- (2 ^ 63) \<le> wrap64 i \<and> wrap64 i < 2 ^ 63"
proof -
  have "0 \<le> (i + 2 ^ 63) mod 2 ^ 64" "(i + 2 ^ 63) mod 2 ^ 64 < 2 ^ 64" by simp_all
  then show ?thesis by (simp add: wrap64_def)
qed

section \<open>Decimal notation\<close>

text \<open>\<open>fmt.Sprintf("%d", n)\<close>.\<close>

fun show_nat :: "nat \<Rightarrow> string" where
  "show_nat n =
     (if n < 10 then [char_of (48 + n)] else show_nat (n div 10) @ [char_of (48 + n mod 10)])"

declare show_nat.simps [simp del]

definition show_int :: "int \<Rightarrow> string" where
  "show_int i = (if i < 0 then CHR ''-'' # show_nat (nat (- i)) else show_nat (nat i))"

end
