(* ===== verification/Entities.thy ===== *)
theory Entities
  imports Prelude
begin

text \<open>
  The data model of \<^verbatim>\<open>internal/entity/models.go\<close>: one record per struct, with the struct's
  fields in their order, each prefixed by the struct's initials.

  A \<open>uuid.UUID\<close> is 16 bytes, a 128-bit word here. A \<open>time.Time\<close> is the number of
  nanoseconds since Go's zero time, so that \<open>IsZero\<close> is equality with 0. An amount or a
  balance is Go's \<open>int64\<close>. A pointer field is an option, \<open>datatypes.JSON\<close> is a JSON value.
  The enum-like string types are datatypes with one constructor per named constant and one
  for any other string, which the Go types admit as well.
\<close>

type_synonym uuid = "128 word"
type_synonym time = int

section \<open>JSON values\<close>

text \<open>
  The values the code hands to \<open>encoding/json\<close>: an object lists its members in the order
  of the rendered text (declaration order for a struct, sorted keys for a map). A
  \<open>time.Time\<close> is rendered as an RFC 3339 string, kept symbolic as \<open>JTime\<close>.
\<close>

datatype json =
    JNull
  | JBool bool
  | JInt int
  | JString string
  | JTime time
  | JArray "json list"
  | JObject "(string \<times> json) list"

section \<open>Enum-like string types\<close>

datatype Role = RoleUser | RoleAdmin | RoleOther string

datatype WalletStatus = WalletStatusActive | WalletStatusOther string

datatype TransactionType =
  TransactionTypeTopUp | TransactionTypeTransfer | TransactionTypeOther string

datatype TransactionStatus =
    TransactionStatusSuccess
  | TransactionStatusFailed
  | TransactionStatusPending
  | TransactionStatusOther string

datatype LedgerEntryType =
  LedgerEntryTypeDebit | LedgerEntryTypeCredit | LedgerEntryTypeOther string

datatype WebhookDeliveryStatus =
    WebhookDeliveryStatusPending
  | WebhookDeliveryStatusSuccess
  | WebhookDeliveryStatusFailed
  | WebhookDeliveryStatusRetrying
  | WebhookDeliveryStatusOther string

section \<open>Entities\<close>

record User =
  u_ID :: uuid
  u_Name :: string
  u_Email :: string
  u_PasswordHash :: string
  u_Role :: Role
  u_CreatedAt :: time
  u_UpdatedAt :: time

record Wallet =
  w_ID :: uuid
  w_UserID :: uuid
  w_Balance :: int64
  w_Status :: WalletStatus
  w_CreatedAt :: time
  w_UpdatedAt :: time

record Transaction =
  t_ID :: uuid
  t_TransactionRef :: string
  t_Type :: TransactionType
  t_Status :: TransactionStatus
  t_SourceWalletID :: "uuid option"
  t_DestinationWalletID :: "uuid option"
  t_Amount :: int64
  t_Currency :: string
  t_IdempotencyKey :: string
  t_InitiatedByUserID :: uuid
  t_Description :: "string option"
  t_CreatedAt :: time
  t_UpdatedAt :: time

record LedgerEntry =
  le_ID :: uuid
  le_TransactionID :: uuid
  le_WalletID :: uuid
  le_EntryType :: LedgerEntryType
  le_Amount :: int64
  le_BalanceBefore :: int64
  le_BalanceAfter :: int64
  le_CreatedAt :: time

record IdempotencyRecord =
  ir_ID :: uuid
  ir_IdempotencyKey :: string
  ir_UserID :: uuid
  ir_RequestHash :: string
  ir_Endpoint :: string
  ir_StatusCode :: int
  ir_ResponseBody :: json
  ir_CreatedAt :: time
  ir_UpdatedAt :: time

record AuditLog =
  al_ID :: uuid
  al_ActorUserID :: "uuid option"
  al_Action :: string
  al_EntityType :: string
  al_EntityID :: "uuid option"
  al_Metadata :: json
  al_CreatedAt :: time

record WebhookDelivery =
  wd_ID :: uuid
  wd_EventType :: string
  wd_TransactionID :: "uuid option"
  wd_TransactionRef :: string
  wd_TargetURL :: string
  wd_Payload :: json
  wd_Secret :: "string option"
  wd_Status :: WebhookDeliveryStatus
  wd_RetryCount :: int
  wd_MaxRetry :: int
  wd_LastError :: "string option"
  wd_LastHTTPStatus :: "int option"
  wd_NextRetryAt :: "time option"
  wd_DeliveredAt :: "time option"
  wd_CreatedAt :: time
  wd_UpdatedAt :: time

end
