(* ===== verification/Apperror.thy ===== *)
theory Apperror
  imports Entities
begin

text \<open>
  Go's \<open>error\<close> values as this program builds and inspects them: the application error of
  \<^verbatim>\<open>internal/pkg/apperror/error.go\<close>, GORM's \<open>ErrRecordNotFound\<close>, the server error
  \<open>pgconn.PgError\<close> with its SQLSTATE code, and any other error. The classification
  functions of \<^verbatim>\<open>internal/repository/errors.go\<close> follow the \<open>Unwrap\<close> chain as
  \<open>errors.Is\<close> and \<open>errors.As\<close> do.
\<close>

section \<open>Error values\<close>

datatype goerror =
    AppError (Status: int) (Code: string) (Message: string)
      (Details: "(string \<times> string) list option") (Err: "goerror option")
  | ErrRecordNotFound
  | PgError string
  | OtherError string

section \<open>Constructors of application errors\<close>

definition New :: "int \<Rightarrow> string \<Rightarrow> string \<Rightarrow> (string \<times> string) list option \<Rightarrow> goerror" where
  "New status code message details = AppError status code message details None"

definition Wrap :: "goerror \<Rightarrow> int \<Rightarrow> string \<Rightarrow> string \<Rightarrow> goerror" where
  "Wrap err status code message = AppError status code message None (Some err)"

definition Validation :: "(string \<times> string) list \<Rightarrow> goerror" where
  "Validation details = New 400 ''INVALID_REQUEST'' ''validation error'' (Some details)"

definition Unauthorized :: "string \<Rightarrow> goerror" where
  "Unauthorized message = New 401 ''UNAUTHORIZED'' message None"

definition Forbidden :: "string \<Rightarrow> goerror" where
  "Forbidden message = New 403 ''FORBIDDEN'' message None"

definition NotFound :: "string \<Rightarrow> goerror" where
  "NotFound message = New 404 ''NOT_FOUND'' message None"

definition Conflict :: "string \<Rightarrow> goerror" where
  "Conflict message = New 409 ''CONFLICT'' message None"

definition BadRequest :: "string \<Rightarrow> goerror" where
  "BadRequest message = New 400 ''BAD_REQUEST'' message None"

definition Internal :: "goerror \<Rightarrow> goerror" where
  "Internal err = Wrap err 500 ''INTERNAL_ERROR'' ''internal server error''"

text \<open>
  \<open>apperror.As\<close>: the first \<open>*apperror.Error\<close> of the chain, or the error wrapped as an
  internal one. Only application errors wrap another error, so the first link decides.
\<close>

fun apperror_As :: "goerror \<Rightarrow> goerror" where
  "apperror_As (AppError s c m d e) = AppError s c m d e"
| "apperror_As err = Internal err"

fun is_app_error :: "goerror \<Rightarrow> bool" where
  "is_app_error (AppError s c m d e) = True"
| "is_app_error _ = False"

section \<open>Classification of repository errors\<close>

fun IsNotFound :: "goerror \<Rightarrow> bool" where
  "IsNotFound ErrRecordNotFound = True"
| "IsNotFound (AppError s c m d (Some e)) = IsNotFound e"
| "IsNotFound _ = False"

fun pg_code :: "goerror \<Rightarrow> string option" where
  "pg_code (PgError c) = Some c"
| "pg_code (AppError s c m d (Some e)) = pg_code e"
| "pg_code _ = None"

definition IsUniqueViolation :: "goerror \<Rightarrow> bool" where
  "IsUniqueViolation err \<longleftrightarrow> pg_code err = Some ''23505''"

definition IsCheckViolation :: "goerror \<Rightarrow> bool" where
  "IsCheckViolation err \<longleftrightarrow> pg_code err = Some ''23514''"

definition IsForeignKeyViolation :: "goerror \<Rightarrow> bool" where
  "IsForeignKeyViolation err \<longleftrightarrow> pg_code err = Some ''23503''"

section \<open>Every error a use case answers with is an application error\<close>

lemmas app_error_defs =
  New_def Wrap_def Validation_def Unauthorized_def Forbidden_def NotFound_def Conflict_def
  BadRequest_def Internal_def

lemma is_app_error_As [simp]: "is_app_error (apperror_As err)"
  by (cases err) (simp_all add: app_error_defs)

lemma apperror_As_id [simp]: "is_app_error err \<Longrightarrow> apperror_As err = err"
  by (cases err) simp_all

lemma is_app_error_constructors [simp]:
  "is_app_error (Validation d)" "is_app_error (Unauthorized m)" "is_app_error (Forbidden m)"
  "is_app_error (NotFound m)" "is_app_error (Conflict m)" "is_app_error (BadRequest m)"
  "is_app_error (Internal e)"
  by (simp_all add: app_error_defs)

lemma classification_through_Internal [simp]:
  "IsNotFound (Internal err) = IsNotFound err"
  "IsUniqueViolation (Internal err) = IsUniqueViolation err"
  "IsCheckViolation (Internal err) = IsCheckViolation err"
  "IsForeignKeyViolation (Internal err) = IsForeignKeyViolation err"
  by (simp_all add: app_error_defs IsUniqueViolation_def IsCheckViolation_def
      IsForeignKeyViolation_def)

end
