(* ===== verification/Runtime.thy ===== *)
theory Runtime
  imports Apperror
begin

text \<open>
  The world the program runs in, and the transaction manager.

  What is not under \<^verbatim>\<open>src/\<close> is the record \<open>env\<close>, an argument of every definition that
  uses it: the uuid package, the clock, the outcome of the \<open>n\<close>-th SQL statement beyond what
  the schema says, bcrypt, the HMAC and JSON rendering, and the receiving end of the
  webhooks. Sources of fresh values (\<open>uuid.New\<close>, \<open>time.Now\<close>, salts) are sequences indexed
  by the number of earlier calls.

  What changes is the record \<open>world\<close>: the seven tables, the state of the SQL session, the
  call counters, the channel of the webhook worker and the webhook requests sent.
\<close>

section \<open>The environment\<close>

text \<open>
  What can go wrong with a statement besides a constraint: the server refuses it with an
  SQLSTATE, the driver fails before it reaches the server, or the reply is lost after the
  server has executed it.
\<close>

datatype fault = ServerError string | DriverError string | LostReply string

record http_request =
  rq_URL :: string
  rq_Headers :: "(string \<times> string) list"
  rq_Body :: json

record env =
  uuid_Parse :: "string \<Rightarrow> uuid option"
  uuid_String :: "uuid \<Rightarrow> string"
  uuid_New :: "nat \<Rightarrow> uuid"
  time_Now :: "nat \<Rightarrow> time"
  sql_fault :: "nat \<Rightarrow> fault option"
  json_Marshal :: "json \<Rightarrow> string"
  bcrypt_Generate :: "nat \<Rightarrow> string \<Rightarrow> goerror + string"
  bcrypt_Compare :: "string \<Rightarrow> string \<Rightarrow> goerror option"
  hmac_SHA256_hex :: "string \<Rightarrow> string \<Rightarrow> string"
  http_NewRequest :: "string \<Rightarrow> string option"
  http_Do :: "nat \<Rightarrow> http_request \<Rightarrow> string + int"
  jwt_Sign :: "string \<Rightarrow> (string \<times> json) list \<Rightarrow> goerror + string"
  unicode_ToLower :: "string \<Rightarrow> string"

section \<open>The world\<close>

record database =
  users :: "User list"
  wallets :: "Wallet list"
  transactions :: "Transaction list"
  ledger_entries :: "LedgerEntry list"
  idempotency_records :: "IdempotencyRecord list"
  audit_logs :: "AuditLog list"
  webhook_deliveries :: "WebhookDelivery list"

datatype session = NoTx | InTx | AbortedTx

record world =
  db :: database
  sql_session :: session
  n_uuid :: nat
  n_time :: nat
  n_sql :: nat
  n_salt :: nat
  webhook_queue :: "uuid list"
  http_sent :: "http_request list"

type_synonym 'a go = "(world, goerror, 'a) operation"

definition empty_database :: database where
  "empty_database = \<lparr>users = [], wallets = [], transactions = [], ledger_entries = [],
     idempotency_records = [], audit_logs = [], webhook_deliveries = []\<rparr>"

definition initial_world :: world where
  "initial_world = \<lparr>db = empty_database, sql_session = NoTx, n_uuid = 0, n_time = 0, n_sql = 0,
     n_salt = 0, webhook_queue = [], http_sent = []\<rparr>"

text \<open>\<open>uuid.New()\<close> and \<open>time.Now()\<close>.\<close>

definition new_uuid :: "env \<Rightarrow> uuid go" where
  "new_uuid env w = (Inr (uuid_New env (n_uuid w)), w\<lparr>n_uuid := Suc (n_uuid w)\<rparr>)"

definition now :: "env \<Rightarrow> time go" where
  "now env w = (Inr (time_Now env (n_time w)), w\<lparr>n_time := Suc (n_time w)\<rparr>)"

section \<open>SQL statements\<close>

text \<open>
  A statement maps the tables to an SQLSTATE or to a result and the tables it leaves. In a
  transaction block a failing statement aborts the block, and an aborted block refuses every
  further statement (\<open>25P02\<close>). Outside a block a statement commits by itself, also when its
  reply is lost.
\<close>

type_synonym 'a sql = "database \<Rightarrow> string + 'a \<times> database"

definition abort_block :: "world \<Rightarrow> world" where
  "abort_block w = (if sql_session w = InTx then w\<lparr>sql_session := AbortedTx\<rparr> else w)"

definition statement :: "env \<Rightarrow> 'a sql \<Rightarrow> 'a go" where
  "statement env q w =
     (let w1 = w\<lparr>n_sql := Suc (n_sql w)\<rparr> in
      if sql_session w = AbortedTx then (Inl (PgError ''25P02''), w1)
      else case sql_fault env (n_sql w) of
        Some (ServerError code) \<Rightarrow> (Inl (PgError code), abort_block w1)
      | Some (DriverError m) \<Rightarrow> (Inl (OtherError m), abort_block w1)
      | Some (LostReply m) \<Rightarrow>
          (Inl (OtherError m),
           (case q (db w) of
              Inl _ \<Rightarrow> abort_block w1
            | Inr (x, d) \<Rightarrow>
                if sql_session w = InTx then abort_block w1 else w1\<lparr>db := d\<rparr>))
      | None \<Rightarrow>
          (case q (db w) of
             Inl code \<Rightarrow> (Inl (PgError code), abort_block w1)
           | Inr (x, d) \<Rightarrow> (Inr x, w1\<lparr>db := d\<rparr>)))"

definition query :: "env \<Rightarrow> (database \<Rightarrow> 'a) \<Rightarrow> 'a go" where
  "query env f = statement env (\<lambda>d. Inr (f d, d))"

text \<open>GORM's \<open>First\<close>: no row is \<open>ErrRecordNotFound\<close>, reported by the client.\<close>

definition first_or_not_found :: "'a option \<Rightarrow> 'a go" where
  "first_or_not_found x = (case x of None \<Rightarrow> throw ErrRecordNotFound | Some r \<Rightarrow> ok r)"

section \<open>GormTransactionManager.WithinTransaction\<close>

text \<open>
  \<open>BEGIN\<close>, the body, then \<open>COMMIT\<close> when the body returned no error and \<open>ROLLBACK\<close> when it
  did. \<open>COMMIT\<close> of an aborted block rolls back and is reported as an error. When the reply
  to \<open>COMMIT\<close> is lost the effects are durable although the caller sees an error.
\<close>

definition sql_commit :: "env \<Rightarrow> database \<Rightarrow> 'a \<Rightarrow> 'a go" where
  "sql_commit env before x w =
     (let w1 = w\<lparr>n_sql := Suc (n_sql w), sql_session := NoTx\<rparr>; undone = w1\<lparr>db := before\<rparr> in
      if sql_session w = AbortedTx
      then (Inl (OtherError ''commit unexpectedly resulted in rollback''), undone)
      else case sql_fault env (n_sql w) of
        None \<Rightarrow> (Inr x, w1)
      | Some (ServerError code) \<Rightarrow> (Inl (PgError code), undone)
      | Some (DriverError m) \<Rightarrow> (Inl (OtherError m), undone)
      | Some (LostReply m) \<Rightarrow> (Inl (OtherError m), w1))"

definition sql_rollback :: "database \<Rightarrow> goerror \<Rightarrow> 'a go" where
  "sql_rollback before e w =
     (Inl e, w\<lparr>n_sql := Suc (n_sql w), sql_session := NoTx, db := before\<rparr>)"

definition WithinTransaction :: "env \<Rightarrow> 'a go \<Rightarrow> 'a go" where
  "WithinTransaction env fn w =
     (let w1 = w\<lparr>n_sql := Suc (n_sql w)\<rparr> in
      case sql_fault env (n_sql w) of
        Some (ServerError code) \<Rightarrow> (Inl (PgError code), w1)
      | Some (DriverError m) \<Rightarrow> (Inl (OtherError m), w1)
      | Some (LostReply m) \<Rightarrow> (Inl (OtherError m), w1)
      | None \<Rightarrow>
          (case fn (w1\<lparr>sql_session := InTx\<rparr>) of
             (Inl e, w2) \<Rightarrow> sql_rollback (db w) e w2
           | (Inr x, w2) \<Rightarrow> sql_commit env (db w) x w2))"

section \<open>Rules for statements\<close>

lemma wp_new_uuid [wp_rules]:
  "wp (new_uuid env) Q E w \<longleftrightarrow> Q (uuid_New env (n_uuid w)) (w\<lparr>n_uuid := Suc (n_uuid w)\<rparr>)"
  by (simp add: wp_def new_uuid_def)

lemma wp_now [wp_rules]:
  "wp (now env) Q E w \<longleftrightarrow> Q (time_Now env (n_time w)) (w\<lparr>n_time := Suc (n_time w)\<rparr>)"
  by (simp add: wp_def now_def)

lemma wp_first_or_not_found [wp_rules]:
  "wp (first_or_not_found x) Q E w \<longleftrightarrow>
     (x = None \<longrightarrow> E ErrRecordNotFound w) \<and> (\<forall>r. x = Some r \<longrightarrow> Q r w)"
  by (simp add: first_or_not_found_def wp_rules)

definition no_faults :: "env \<Rightarrow> bool" where
  "no_faults env \<longleftrightarrow> (\<forall>n. sql_fault env n = None)"

definition live :: "env \<Rightarrow> world \<Rightarrow> bool" where
  "live env w \<longleftrightarrow> sql_session w \<noteq> AbortedTx \<and> sql_fault env (n_sql w) = None"

lemma statement_Inr:
  "statement env q w = (Inr x, w') \<longleftrightarrow>
     live env w \<and> (\<exists>d. q (db w) = Inr (x, d) \<and> w' = w\<lparr>n_sql := Suc (n_sql w), db := d\<rparr>)"
  by (auto simp: statement_def live_def Let_def split: option.splits fault.splits sum.splits
      prod.splits)

lemma statement_db:
  assumes "statement env q w = (r, w')"
  shows "db w' = db w \<or> (\<exists>x d. q (db w) = Inr (x, d) \<and> db w' = d)"
  using assms
  by (auto simp: statement_def Let_def abort_block_def split: if_splits option.splits fault.splits
      sum.splits prod.splits)

text \<open>Partial correctness: what holds when the statement succeeds.\<close>

lemma wp_statement [wp_rules]:
  "wp (statement env q) Q (\<lambda>_ _. True) w \<longleftrightarrow>
     (live env w \<longrightarrow> (\<forall>x d. q (db w) = Inr (x, d) \<longrightarrow> Q x (w\<lparr>n_sql := Suc (n_sql w), db := d\<rparr>)))"
proof -
  have "wp (statement env q) Q (\<lambda>_ _. True) w \<longleftrightarrow>
    (\<forall>x w'. statement env q w = (Inr x, w') \<longrightarrow> Q x w')"
    by (auto simp: wp_def split: prod.splits sum.splits)
  then show ?thesis by (auto simp: statement_Inr)
qed

text \<open>Total correctness: what makes the statement succeed.\<close>

lemma wp_statement_total [wp_rules]:
  "wp (statement env q) Q (\<lambda>_ _. False) w \<longleftrightarrow>
     live env w \<and> (\<exists>x d. q (db w) = Inr (x, d) \<and> Q x (w\<lparr>n_sql := Suc (n_sql w), db := d\<rparr>))"
proof -
  have "wp (statement env q) Q (\<lambda>_ _. False) w \<longleftrightarrow>
    (\<exists>x w'. statement env q w = (Inr x, w') \<and> Q x w')"
    by (auto simp: wp_def split: prod.splits sum.splits)
  then show ?thesis by (auto simp: statement_Inr)
qed

lemma wp_query [wp_rules]:
  "wp (query env f) Q (\<lambda>_ _. True) w \<longleftrightarrow>
     (live env w \<longrightarrow> Q (f (db w)) (w\<lparr>n_sql := Suc (n_sql w)\<rparr>))"
  by (simp add: query_def wp_rules)

lemma wp_query_total [wp_rules]:
  "wp (query env f) Q (\<lambda>_ _. False) w \<longleftrightarrow>
     live env w \<and> Q (f (db w)) (w\<lparr>n_sql := Suc (n_sql w)\<rparr>)"
  by (simp add: query_def wp_rules)

text \<open>A predicate of the tables survives any statement that keeps it, faults included.\<close>

lemma preserves_statement:
  assumes "\<And>d x d'. P d \<Longrightarrow> q d = Inr (x, d') \<Longrightarrow> P d'"
  shows "preserves (\<lambda>w. P (db w)) (statement env q)"
  using assms
  by (auto simp: preserves_def statement_def Let_def abort_block_def
      split: option.split fault.split sum.split)

lemma preserves_query [preserves_intros]: "preserves (\<lambda>w. P (db w)) (query env f)"
  unfolding query_def by (rule preserves_statement) simp

lemma preserves_new_uuid [preserves_intros]: "preserves (\<lambda>w. P (db w)) (new_uuid env)"
  by (simp add: preserves_def new_uuid_def)

lemma preserves_now [preserves_intros]: "preserves (\<lambda>w. P (db w)) (now env)"
  by (simp add: preserves_def now_def)

lemma preserves_first_or_not_found [preserves_intros]:
  "preserves (\<lambda>w. P (db w)) (first_or_not_found x)"
  unfolding first_or_not_found_def by (intro preserves_intros)

text \<open>The clock never runs backwards: no operation lowers the number of readings taken.\<close>

lemma clock_new_uuid [preserves_intros]: "preserves (\<lambda>w. k \<le> n_time w) (new_uuid env)"
  by (simp add: preserves_def new_uuid_def)

lemma clock_now [preserves_intros]: "preserves (\<lambda>w. k \<le> n_time w) (now env)"
  by (simp add: preserves_def now_def)

lemma clock_statement [preserves_intros]: "preserves (\<lambda>w. k \<le> n_time w) (statement env q)"
  by (auto simp: preserves_def statement_def Let_def abort_block_def
      split: option.split fault.split sum.split)

lemma clock_query [preserves_intros]: "preserves (\<lambda>w. k \<le> n_time w) (query env f)"
  unfolding query_def by (rule clock_statement)

lemma clock_first_or_not_found [preserves_intros]:
  "preserves (\<lambda>w. k \<le> n_time w) (first_or_not_found x)"
  unfolding first_or_not_found_def by (intro preserves_intros)

lemma clock_WithinTransaction [preserves_intros]:
  assumes fn: "preserves (\<lambda>w. k \<le> n_time w) fn"
  shows "preserves (\<lambda>w. k \<le> n_time w) (WithinTransaction env fn)"
  unfolding preserves_def
proof (intro allI impI)
  fix w :: world assume k: "k \<le> n_time w"
  obtain r w2 where run: "fn (w\<lparr>n_sql := Suc (n_sql w), sql_session := InTx\<rparr>) = (r, w2)"
    by (cases "fn (w\<lparr>n_sql := Suc (n_sql w), sql_session := InTx\<rparr>)")
  with preserves_snd [OF fn _ run] k have "k \<le> n_time w2" by simp
  with k run show "k \<le> n_time (snd (WithinTransaction env fn w))"
    by (simp add: WithinTransaction_def sql_commit_def sql_rollback_def Let_def
        split: option.split fault.split sum.split)
qed

section \<open>Transactions are atomic\<close>

text \<open>
  The contract of \<open>repository.TransactionManager\<close>: a run that reports an error has left the
  tables as they were, unless the body succeeded and only the confirmation was lost; a run
  that reports success has left what the body left.
\<close>

locale transaction_manager =
  fixes within :: "'a go \<Rightarrow> 'a go"
  assumes within_Inl:
    "within fn w = (Inl e, w') \<Longrightarrow>
       db w' = db w \<or>
       (\<exists>w1 x w2. db w1 = db w \<and> fn w1 = (Inr x, w2) \<and> db w' = db w2)"
    and within_Inr:
    "within fn w = (Inr x, w') \<Longrightarrow>
       \<exists>w1 w2. db w1 = db w \<and> fn w1 = (Inr x, w2) \<and> db w' = db w2"
begin

text \<open>
  All or nothing: a relation between the tables before and after that holds of a run which
  changes nothing, and of every successful run of the body, holds of every run.
\<close>

lemma all_or_nothing:
  fixes w w' :: world
  assumes "within fn w = (r, w')" and "R (db w) (db w)"
    and "\<And>w1 x w2. db w1 = db w \<Longrightarrow> fn w1 = (Inr x, w2) \<Longrightarrow> R (db w) (db w2)"
  shows "R (db w) (db w')"
proof (cases r)
  case (Inl e)
  with assms(1) have "within fn w = (Inl e, w')" by simp
  from within_Inl [OF this] assms(2,3) show ?thesis by auto
next
  case (Inr x)
  with assms(1) have "within fn w = (Inr x, w')" by simp
  from within_Inr [OF this] assms(3) show ?thesis by auto
qed

lemma preserves_within:
  assumes "\<And>w x w'. P (db w) \<Longrightarrow> fn w = (Inr x, w') \<Longrightarrow> P (db w')"
  shows "preserves (\<lambda>w. P (db w)) (within fn)"
  unfolding preserves_def
proof (intro allI impI)
  fix w :: world assume P: "P (db w)"
  obtain r w' where run: "within fn w = (r, w')" by (cases "within fn w")
  have "P (db w')"
    using run P
  proof (rule all_or_nothing [where R = "\<lambda>_. P"])
    fix w1 w2 :: world and x assume "db w1 = db w" and "fn w1 = (Inr x, w2)"
    with P show "P (db w2)" by (intro assms [of w1 x w2]) simp_all
  qed
  with run show "P (db (snd (within fn w)))" by simp
qed

end

lemma sql_commit_cases:
  assumes "sql_commit env before x w = (r, w')"
  shows "(\<exists>e. r = Inl e \<and> db w' = before) \<or>
    ((r = Inr x \<or> (\<exists>m. r = Inl (OtherError m))) \<and> db w' = db w \<and> n_time w' = n_time w)"
  using assms
  by (auto simp: sql_commit_def Let_def split: if_splits option.splits fault.splits)

lemma sql_commit_Inr: "sql_commit env before x w = (Inr y, w') \<Longrightarrow> y = x \<and> db w' = db w"
  by (auto simp: sql_commit_def Let_def split: if_splits option.splits fault.splits)

lemma WithinTransaction_cases:
  assumes "WithinTransaction env fn w = (r, w')"
  obtains (failed) e where "r = Inl e" and "db w' = db w"
    | (ran) x w2 where "fn (w\<lparr>n_sql := Suc (n_sql w), sql_session := InTx\<rparr>) = (Inr x, w2)"
        and "db w' = db w2" and "n_time w' = n_time w2"
        and "r = Inr x \<or> (\<exists>m. r = Inl (OtherError m))"
proof (cases "sql_fault env (n_sql w)")
  case None
  obtain b w2 where b: "fn (w\<lparr>n_sql := Suc (n_sql w), sql_session := InTx\<rparr>) = (b, w2)"
    by (cases "fn (w\<lparr>n_sql := Suc (n_sql w), sql_session := InTx\<rparr>)")
  show ?thesis
  proof (cases b)
    case (Inl e)
    with assms None b have "r = Inl e" and "db w' = db w"
      by (auto simp: WithinTransaction_def sql_rollback_def)
    then show ?thesis by (rule failed)
  next
    case (Inr x)
    with assms None b have "sql_commit env (db w) x w2 = (r, w')"
      by (simp add: WithinTransaction_def)
    from sql_commit_cases [OF this] b Inr show ?thesis
      by (auto intro: failed ran)
  qed
next
  case (Some f)
  with assms have "\<exists>e. r = Inl e" and "db w' = db w"
    by (auto simp: WithinTransaction_def Let_def split: fault.splits)
  then show ?thesis by (auto intro: failed)
qed

interpretation gorm_tx: transaction_manager "WithinTransaction env" for env
proof unfold_locales
  fix fn :: "'a go" and w e w'
  assume "WithinTransaction env fn w = (Inl e, w')"
  then show "db w' = db w \<or>
      (\<exists>w1 x w2. db w1 = db w \<and> fn w1 = (Inr x, w2) \<and> db w' = db w2)"
  proof (cases rule: WithinTransaction_cases)
    case (ran x w2)
    then show ?thesis
      by (intro disjI2 exI [of _ "w\<lparr>n_sql := Suc (n_sql w), sql_session := InTx\<rparr>"]
          exI [of _ x] exI [of _ w2]) auto
  qed simp
next
  fix fn :: "'a go" and w x w'
  assume "WithinTransaction env fn w = (Inr x, w')"
  then show "\<exists>w1 w2. db w1 = db w \<and> fn w1 = (Inr x, w2) \<and> db w' = db w2"
  proof (cases rule: WithinTransaction_cases)
    case (ran y w2)
    then show ?thesis
      by (intro exI [of _ "w\<lparr>n_sql := Suc (n_sql w), sql_session := InTx\<rparr>"] exI [of _ w2]) auto
  qed simp
qed

lemmas preserves_WithinTransaction = gorm_tx.preserves_within

end
