(* ===== verification/Schema.thy ===== *)
theory Schema
  imports Runtime
begin

text \<open>
  The tables of \<^verbatim>\<open>migrations/*.up.sql\<close> and the SQL statements on them.

  For each table: the row as PostgreSQL stores it (\<open>TIMESTAMPTZ\<close> keeps microseconds), its
  \<open>CHECK\<close> constraints, its \<open>PRIMARY KEY\<close> and \<open>UNIQUE\<close> constraints and its foreign keys. An
  \<open>INSERT\<close> or \<open>UPDATE\<close> reports the first violation in the server's order: \<open>CHECK\<close>
  (\<open>23514\<close>), then uniqueness (\<open>23505\<close>), then foreign keys (\<open>23503\<close>). Nothing updates or
  deletes a ledger entry, which the trigger of migration 3 forbids as well.

  \<open>db_ok\<close> collects the constraints; the lemmas show that every statement keeps it.
\<close>

definition timestamptz :: "time \<Rightarrow> time" where
  "timestamptz t = t - t mod 1000"

definition constrained :: "bool \<Rightarrow> bool \<Rightarrow> bool \<Rightarrow> 'a \<Rightarrow> string + 'a" where
  "constrained checks uniques fks x =
     (if \<not> checks then Inl ''23514''
      else if \<not> uniques then Inl ''23505''
      else if \<not> fks then Inl ''23503''
      else Inr x)"

lemma constrained_Inr [simp]:
  "constrained c u f x = Inr y \<longleftrightarrow> c \<and> u \<and> f \<and> y = x"
  by (auto simp: constrained_def)

text \<open>An \<open>UPDATE \<dots> WHERE key = \<dots>\<close> of all columns.\<close>

definition replace_row :: "('a \<Rightarrow> 'k) \<Rightarrow> 'a \<Rightarrow> 'a list \<Rightarrow> 'a list" where
  "replace_row key r rows = map (\<lambda>r'. if key r' = key r then r else r') rows"

lemma map_key_replace_row [simp]: "map key (replace_row key r rows) = map key rows"
  by (auto simp: replace_row_def)

lemma key_image_replace_row [simp]: "key ` set (replace_row key r rows) = key ` set rows"
  by (metis list.set_map map_key_replace_row)

lemma set_replace_row:
  "set (replace_row key r rows) =
     {r' \<in> set rows. key r' \<noteq> key r} \<union> {r' \<in> {r}. \<exists>x \<in> set rows. key x = key r}"
  by (auto simp: replace_row_def)

lemma distinct_replace_row:
  assumes "distinct (map key rows)" and "distinct (map f rows)"
    and "\<And>r'. r' \<in> set rows \<Longrightarrow> key r' \<noteq> key r \<Longrightarrow> f r' \<noteq> f r"
  shows "distinct (map f (replace_row key r rows))"
  using assms
proof (induction rows)
  case (Cons a rows)
  then have IH: "distinct (map f (replace_row key r rows))" by auto
  have "f (if key a = key r then r else a) \<noteq> f y" if y: "y \<in> set (replace_row key r rows)" for y
  proof (cases "key a = key r")
    case True
    with Cons.prems(1) have "\<forall>x \<in> set rows. key x \<noteq> key r" by (auto simp: image_iff)
    with y have "y \<in> set rows" and "key y \<noteq> key r" by (auto simp: set_replace_row)
    then have "f y \<noteq> f r" by (intro Cons.prems(3)) simp_all
    with True show ?thesis by simp
  next
    case False
    then have "f a \<noteq> f r" by (intro Cons.prems(3)) simp_all
    with False y Cons.prems(2) show ?thesis by (auto simp: set_replace_row)
  qed
  then have "f (if key a = key r then r else a) \<notin> f ` set (replace_row key r rows)"
    by (simp only: image_iff) blast
  with IH show ?case
    unfolding replace_row_def by (simp only: list.map distinct.simps set_map) simp
qed (simp add: replace_row_def)

section \<open>users\<close>

definition stored_user :: "User \<Rightarrow> User" where
  "stored_user u = u\<lparr>u_CreatedAt := timestamptz (u_CreatedAt u),
     u_UpdatedAt := timestamptz (u_UpdatedAt u)\<rparr>"

fun role_check :: "Role \<Rightarrow> bool" where
  "role_check RoleUser = True"
| "role_check RoleAdmin = True"
| "role_check (RoleOther _) = False"

definition has_user :: "database \<Rightarrow> uuid \<Rightarrow> bool" where
  "has_user d i \<longleftrightarrow> i \<in> u_ID ` set (users d)"

definition insert_user :: "User \<Rightarrow> unit sql" where
  "insert_user u d =
     constrained (role_check (u_Role u))
       (u_ID u \<notin> u_ID ` set (users d) \<and> u_Email u \<notin> u_Email ` set (users d))
       True
       ((), d\<lparr>users := users d @ [stored_user u]\<rparr>)"

section \<open>wallets\<close>

definition stored_wallet :: "Wallet \<Rightarrow> Wallet" where
  "stored_wallet w = w\<lparr>w_CreatedAt := timestamptz (w_CreatedAt w),
     w_UpdatedAt := timestamptz (w_UpdatedAt w)\<rparr>"

definition wallet_check :: "Wallet \<Rightarrow> bool" where
  "wallet_check w \<longleftrightarrow> 0 \<le>s w_Balance w \<and> w_Status w = WalletStatusActive"

definition has_wallet :: "database \<Rightarrow> uuid \<Rightarrow> bool" where
  "has_wallet d i \<longleftrightarrow> i \<in> w_ID ` set (wallets d)"

definition insert_wallet :: "Wallet \<Rightarrow> unit sql" where
  "insert_wallet w d =
     constrained (wallet_check w)
       (w_ID w \<notin> w_ID ` set (wallets d) \<and> w_UserID w \<notin> w_UserID ` set (wallets d))
       (has_user d (w_UserID w))
       ((), d\<lparr>wallets := wallets d @ [stored_wallet w]\<rparr>)"

definition update_wallet :: "Wallet \<Rightarrow> unit sql" where
  "update_wallet w d =
     constrained (wallet_check w)
       (\<forall>w' \<in> set (wallets d). w_ID w' \<noteq> w_ID w \<longrightarrow> w_UserID w' \<noteq> w_UserID w)
       (has_user d (w_UserID w))
       ((), d\<lparr>wallets := replace_row w_ID (stored_wallet w) (wallets d)\<rparr>)"

text \<open>GORM's \<open>Save\<close>: an \<open>UPDATE\<close> of all columns, or an \<open>INSERT\<close> when no row has the key.\<close>

definition save_wallet :: "Wallet \<Rightarrow> unit sql" where
  "save_wallet w d = (if has_wallet d (w_ID w) then update_wallet w d else insert_wallet w d)"

section \<open>transactions\<close>

definition stored_transaction :: "Transaction \<Rightarrow> Transaction" where
  "stored_transaction t = t\<lparr>t_CreatedAt := timestamptz (t_CreatedAt t),
     t_UpdatedAt := timestamptz (t_UpdatedAt t)\<rparr>"

definition transaction_check :: "Transaction \<Rightarrow> bool" where
  "transaction_check t \<longleftrightarrow>
     (case t_Status t of TransactionStatusOther _ \<Rightarrow> False | _ \<Rightarrow> True) \<and>
     0 <s t_Amount t \<and>
     (case t_Type t of
        TransactionTypeTopUp \<Rightarrow> t_SourceWalletID t = None \<and> t_DestinationWalletID t \<noteq> None
      | TransactionTypeTransfer \<Rightarrow>
          t_SourceWalletID t \<noteq> None \<and> t_DestinationWalletID t \<noteq> None \<and>
          t_SourceWalletID t \<noteq> t_DestinationWalletID t
      | TransactionTypeOther _ \<Rightarrow> False)"

definition has_transaction :: "database \<Rightarrow> uuid \<Rightarrow> bool" where
  "has_transaction d i \<longleftrightarrow> i \<in> t_ID ` set (transactions d)"

definition insert_transaction :: "Transaction \<Rightarrow> unit sql" where
  "insert_transaction t d =
     constrained (transaction_check t)
       (t_ID t \<notin> t_ID ` set (transactions d) \<and>
        t_TransactionRef t \<notin> t_TransactionRef ` set (transactions d))
       (list_all (has_wallet d) (List.map_filter id [t_SourceWalletID t, t_DestinationWalletID t]) \<and>
        has_user d (t_InitiatedByUserID t))
       ((), d\<lparr>transactions := transactions d @ [stored_transaction t]\<rparr>)"

section \<open>ledger_entries\<close>

definition stored_ledger_entry :: "LedgerEntry \<Rightarrow> LedgerEntry" where
  "stored_ledger_entry e = e\<lparr>le_CreatedAt := timestamptz (le_CreatedAt e)\<rparr>"

definition ledger_entry_check :: "LedgerEntry \<Rightarrow> bool" where
  "ledger_entry_check e \<longleftrightarrow>
     (case le_EntryType e of LedgerEntryTypeOther _ \<Rightarrow> False | _ \<Rightarrow> True) \<and> 0 <s le_Amount e"

definition insert_ledger_entries :: "LedgerEntry list \<Rightarrow> unit sql" where
  "insert_ledger_entries es d =
     constrained (list_all ledger_entry_check es)
       (distinct (map le_ID es) \<and> set (map le_ID es) \<inter> le_ID ` set (ledger_entries d) = {})
       (list_all (\<lambda>e. has_transaction d (le_TransactionID e) \<and> has_wallet d (le_WalletID e)) es)
       ((), d\<lparr>ledger_entries := ledger_entries d @ map stored_ledger_entry es\<rparr>)"

section \<open>idempotency_records\<close>

definition stored_idempotency_record :: "IdempotencyRecord \<Rightarrow> IdempotencyRecord" where
  "stored_idempotency_record r = r\<lparr>ir_CreatedAt := timestamptz (ir_CreatedAt r),
     ir_UpdatedAt := timestamptz (ir_UpdatedAt r)\<rparr>"

definition idempotency_key_of :: "IdempotencyRecord \<Rightarrow> string \<times> uuid \<times> string" where
  "idempotency_key_of r = (ir_IdempotencyKey r, ir_UserID r, ir_Endpoint r)"

text \<open>
  \<open>INSERT \<dots> ON CONFLICT (idempotency_key, user_id, endpoint) DO NOTHING\<close>: the number of
  rows it affected, 0 when the key is taken.
\<close>

definition insert_idempotency_on_conflict :: "IdempotencyRecord \<Rightarrow> nat sql" where
  "insert_idempotency_on_conflict r d =
     (if \<not> 0 \<le> ir_StatusCode r then Inl ''23514''
      else if idempotency_key_of r \<in> idempotency_key_of ` set (idempotency_records d)
      then Inr (0, d)
      else constrained True
        (ir_ID r \<notin> ir_ID ` set (idempotency_records d))
        (has_user d (ir_UserID r))
        (1, d\<lparr>idempotency_records := idempotency_records d @ [stored_idempotency_record r]\<rparr>))"

definition completed :: "uuid \<Rightarrow> int \<Rightarrow> json \<Rightarrow> time \<Rightarrow> IdempotencyRecord \<Rightarrow> IdempotencyRecord" where
  "completed i code body updated r =
     (if ir_ID r = i
      then r\<lparr>ir_StatusCode := code, ir_ResponseBody := body, ir_UpdatedAt := timestamptz updated\<rparr>
      else r)"

definition complete_idempotency :: "uuid \<Rightarrow> int \<Rightarrow> json \<Rightarrow> time \<Rightarrow> unit sql" where
  "complete_idempotency i code body updated d =
     constrained (0 \<le> code \<or> i \<notin> ir_ID ` set (idempotency_records d)) True True
       ((), d\<lparr>idempotency_records :=
          map (completed i code body updated) (idempotency_records d)\<rparr>)"

section \<open>audit_logs\<close>

definition stored_audit_log :: "AuditLog \<Rightarrow> AuditLog" where
  "stored_audit_log a = a\<lparr>al_CreatedAt := timestamptz (al_CreatedAt a)\<rparr>"

definition insert_audit_log :: "AuditLog \<Rightarrow> unit sql" where
  "insert_audit_log a d =
     constrained True
       (al_ID a \<notin> al_ID ` set (audit_logs d))
       (list_all (has_user d) (List.map_filter id [al_ActorUserID a]))
       ((), d\<lparr>audit_logs := audit_logs d @ [stored_audit_log a]\<rparr>)"

section \<open>webhook_deliveries\<close>

definition stored_webhook_delivery :: "WebhookDelivery \<Rightarrow> WebhookDelivery" where
  "stored_webhook_delivery v = v\<lparr>
     wd_NextRetryAt := map_option timestamptz (wd_NextRetryAt v),
     wd_DeliveredAt := map_option timestamptz (wd_DeliveredAt v),
     wd_CreatedAt := timestamptz (wd_CreatedAt v), wd_UpdatedAt := timestamptz (wd_UpdatedAt v)\<rparr>"

definition webhook_delivery_check :: "WebhookDelivery \<Rightarrow> bool" where
  "webhook_delivery_check v \<longleftrightarrow>
     (case wd_Status v of WebhookDeliveryStatusOther _ \<Rightarrow> False | _ \<Rightarrow> True) \<and>
     0 \<le> wd_RetryCount v \<and> 0 < wd_MaxRetry v \<and> wd_RetryCount v \<le> wd_MaxRetry v \<and>
     list_ex (\<lambda>c. c \<noteq> CHR '' '') (wd_TargetURL v)"

definition has_webhook_delivery :: "database \<Rightarrow> uuid \<Rightarrow> bool" where
  "has_webhook_delivery d i \<longleftrightarrow> i \<in> wd_ID ` set (webhook_deliveries d)"

definition insert_webhook_delivery :: "WebhookDelivery \<Rightarrow> unit sql" where
  "insert_webhook_delivery v d =
     constrained (webhook_delivery_check v)
       (\<not> has_webhook_delivery d (wd_ID v))
       (list_all (has_transaction d) (List.map_filter id [wd_TransactionID v]))
       ((), d\<lparr>webhook_deliveries := webhook_deliveries d @ [stored_webhook_delivery v]\<rparr>)"

definition update_webhook_delivery :: "WebhookDelivery \<Rightarrow> unit sql" where
  "update_webhook_delivery v d =
     constrained (webhook_delivery_check v)
       True
       (list_all (has_transaction d) (List.map_filter id [wd_TransactionID v]))
       ((), d\<lparr>webhook_deliveries :=
          replace_row wd_ID (stored_webhook_delivery v) (webhook_deliveries d)\<rparr>)"

definition save_webhook_delivery :: "WebhookDelivery \<Rightarrow> unit sql" where
  "save_webhook_delivery v d =
     (if has_webhook_delivery d (wd_ID v) then update_webhook_delivery v d
      else insert_webhook_delivery v d)"

section \<open>SELECT\<close>

text \<open>
  \<open>First\<close> orders by the primary key and takes one row. \<open>page\<close> is \<open>OFFSET\<close> and \<open>LIMIT\<close> as
  GORM renders them: no \<open>OFFSET\<close> unless it is positive, no \<open>LIMIT\<close> when it is negative. The
  order of rows with equal sort keys is not determined by the server; here it is the order
  of insertion.
\<close>

definition sql_first :: "('a \<Rightarrow> uuid) \<Rightarrow> ('a \<Rightarrow> bool) \<Rightarrow> 'a list \<Rightarrow> 'a option" where
  "sql_first key P rows =
     (case sort_key key (filter P rows) of [] \<Rightarrow> None | r # _ \<Rightarrow> Some r)"

definition page :: "int \<Rightarrow> int \<Rightarrow> 'a list \<Rightarrow> 'a list" where
  "page offset limit rows =
     (let rest = (if 0 < offset then drop (nat offset) rows else rows) in
      if limit < 0 then rest else take (nat limit) rest)"

lemma sql_first_Some: "sql_first key P rows = Some r \<Longrightarrow> r \<in> set rows \<and> P r"
proof -
  assume "sql_first key P rows = Some r"
  then obtain rs where "sort_key key (filter P rows) = r # rs"
    by (auto simp: sql_first_def split: list.splits)
  then have "r \<in> set (sort_key key (filter P rows))" by simp
  then show ?thesis by simp
qed

lemma sql_first_None: "sql_first key P rows = None \<longleftrightarrow> (\<forall>r \<in> set rows. \<not> P r)"
proof -
  have "sql_first key P rows = None \<longleftrightarrow> set (sort_key key (filter P rows)) = {}"
    unfolding sql_first_def by (simp only: set_empty split: list.split) simp
  then show ?thesis by auto
qed

text \<open>When the condition pins down at most one row, \<open>First\<close> finds it.\<close>

lemma sql_first_unique:
  assumes "r \<in> set rows" and "P r" and unique: "\<And>r'. r' \<in> set rows \<Longrightarrow> P r' \<Longrightarrow> r' = r"
  shows "sql_first key P rows = Some r"
proof (cases "sql_first key P rows")
  case None
  with assms(1,2) have False by (simp add: sql_first_None)
  then show ?thesis ..
next
  case (Some r')
  from unique sql_first_Some [OF Some] have "r' = r" by blast
  with Some show ?thesis by simp
qed

section \<open>The constraints hold of every database\<close>

text \<open>The declared constraints as one predicate on the tables.\<close>

definition users_ok :: "database \<Rightarrow> bool" where
  "users_ok d \<longleftrightarrow> distinct (map u_ID (users d)) \<and> distinct (map u_Email (users d)) \<and>
     (\<forall>u \<in> set (users d). role_check (u_Role u))"

definition wallets_ok :: "database \<Rightarrow> bool" where
  "wallets_ok d \<longleftrightarrow> distinct (map w_ID (wallets d)) \<and> distinct (map w_UserID (wallets d)) \<and>
     (\<forall>w \<in> set (wallets d). wallet_check w \<and> has_user d (w_UserID w))"

definition transactions_ok :: "database \<Rightarrow> bool" where
  "transactions_ok d \<longleftrightarrow> distinct (map t_ID (transactions d)) \<and>
     (\<forall>t \<in> set (transactions d). transaction_check t \<and>
        (\<forall>i. t_SourceWalletID t = Some i \<longrightarrow> has_wallet d i) \<and>
        (\<forall>i. t_DestinationWalletID t = Some i \<longrightarrow> has_wallet d i))"

definition ledger_entries_ok :: "database \<Rightarrow> bool" where
  "ledger_entries_ok d \<longleftrightarrow> distinct (map le_ID (ledger_entries d)) \<and>
     (\<forall>e \<in> set (ledger_entries d). ledger_entry_check e \<and>
        has_transaction d (le_TransactionID e) \<and> has_wallet d (le_WalletID e))"

definition idempotency_records_ok :: "database \<Rightarrow> bool" where
  "idempotency_records_ok d \<longleftrightarrow> distinct (map ir_ID (idempotency_records d)) \<and>
     distinct (map idempotency_key_of (idempotency_records d))"

definition webhook_deliveries_ok :: "database \<Rightarrow> bool" where
  "webhook_deliveries_ok d \<longleftrightarrow> distinct (map wd_ID (webhook_deliveries d)) \<and>
     (\<forall>v \<in> set (webhook_deliveries d). webhook_delivery_check v \<and>
        (\<forall>i. wd_TransactionID v = Some i \<longrightarrow> has_transaction d i))"

definition db_ok :: "database \<Rightarrow> bool" where
  "db_ok d \<longleftrightarrow> users_ok d \<and> wallets_ok d \<and> transactions_ok d \<and> ledger_entries_ok d \<and>
     idempotency_records_ok d \<and> webhook_deliveries_ok d"

lemmas db_ok_defs =
  db_ok_def users_ok_def wallets_ok_def transactions_ok_def ledger_entries_ok_def
  idempotency_records_ok_def webhook_deliveries_ok_def

lemmas has_row_defs =
  has_user_def has_wallet_def has_transaction_def has_webhook_delivery_def

lemmas stored_defs =
  stored_user_def stored_wallet_def stored_transaction_def stored_ledger_entry_def
  stored_idempotency_record_def stored_audit_log_def stored_webhook_delivery_def

lemma db_ok_empty: "db_ok empty_database"
  by (simp add: db_ok_defs empty_database_def)

subsection \<open>Storing a row changes its timestamps only\<close>

lemma stored_user_fields [simp]:
  "u_ID (stored_user u) = u_ID u" "u_Email (stored_user u) = u_Email u"
  "u_Role (stored_user u) = u_Role u" "u_Name (stored_user u) = u_Name u"
  "u_PasswordHash (stored_user u) = u_PasswordHash u"
  by (simp_all add: stored_user_def)

lemma stored_wallet_fields [simp]:
  "w_ID (stored_wallet w) = w_ID w" "w_UserID (stored_wallet w) = w_UserID w"
  "w_Balance (stored_wallet w) = w_Balance w" "w_Status (stored_wallet w) = w_Status w"
  "wallet_check (stored_wallet w) = wallet_check w"
  by (simp_all add: stored_wallet_def wallet_check_def)

lemma stored_transaction_fields [simp]:
  "t_ID (stored_transaction t) = t_ID t"
  "t_TransactionRef (stored_transaction t) = t_TransactionRef t"
  "t_Type (stored_transaction t) = t_Type t" "t_Status (stored_transaction t) = t_Status t"
  "t_SourceWalletID (stored_transaction t) = t_SourceWalletID t"
  "t_DestinationWalletID (stored_transaction t) = t_DestinationWalletID t"
  "t_Amount (stored_transaction t) = t_Amount t"
  "t_IdempotencyKey (stored_transaction t) = t_IdempotencyKey t"
  "t_InitiatedByUserID (stored_transaction t) = t_InitiatedByUserID t"
  "transaction_check (stored_transaction t) = transaction_check t"
  by (simp_all add: stored_transaction_def transaction_check_def cong: TransactionType.case_cong)

lemma stored_ledger_entry_fields [simp]:
  "le_ID (stored_ledger_entry e) = le_ID e"
  "le_TransactionID (stored_ledger_entry e) = le_TransactionID e"
  "le_WalletID (stored_ledger_entry e) = le_WalletID e"
  "le_EntryType (stored_ledger_entry e) = le_EntryType e"
  "le_Amount (stored_ledger_entry e) = le_Amount e"
  "le_BalanceBefore (stored_ledger_entry e) = le_BalanceBefore e"
  "le_BalanceAfter (stored_ledger_entry e) = le_BalanceAfter e"
  "le_CreatedAt (stored_ledger_entry e) = timestamptz (le_CreatedAt e)"
  "ledger_entry_check (stored_ledger_entry e) = ledger_entry_check e"
  by (simp_all add: stored_ledger_entry_def ledger_entry_check_def)

lemma stored_idempotency_record_fields [simp]:
  "ir_ID (stored_idempotency_record r) = ir_ID r"
  "ir_UserID (stored_idempotency_record r) = ir_UserID r"
  "ir_IdempotencyKey (stored_idempotency_record r) = ir_IdempotencyKey r"
  "ir_Endpoint (stored_idempotency_record r) = ir_Endpoint r"
  "ir_RequestHash (stored_idempotency_record r) = ir_RequestHash r"
  "ir_StatusCode (stored_idempotency_record r) = ir_StatusCode r"
  "ir_ResponseBody (stored_idempotency_record r) = ir_ResponseBody r"
  "idempotency_key_of (stored_idempotency_record r) = idempotency_key_of r"
  by (simp_all add: stored_idempotency_record_def idempotency_key_of_def)

lemma completed_fields [simp]:
  "ir_ID (completed i c b u r) = ir_ID r" "ir_UserID (completed i c b u r) = ir_UserID r"
  "ir_IdempotencyKey (completed i c b u r) = ir_IdempotencyKey r"
  "ir_Endpoint (completed i c b u r) = ir_Endpoint r"
  "ir_RequestHash (completed i c b u r) = ir_RequestHash r"
  "idempotency_key_of (completed i c b u r) = idempotency_key_of r"
  by (simp_all add: completed_def idempotency_key_of_def)

lemma stored_webhook_delivery_fields [simp]:
  "wd_ID (stored_webhook_delivery v) = wd_ID v"
  "wd_Status (stored_webhook_delivery v) = wd_Status v"
  "wd_RetryCount (stored_webhook_delivery v) = wd_RetryCount v"
  "wd_MaxRetry (stored_webhook_delivery v) = wd_MaxRetry v"
  "wd_TransactionID (stored_webhook_delivery v) = wd_TransactionID v"
  "wd_TransactionRef (stored_webhook_delivery v) = wd_TransactionRef v"
  "wd_EventType (stored_webhook_delivery v) = wd_EventType v"
  "wd_TargetURL (stored_webhook_delivery v) = wd_TargetURL v"
  "wd_Payload (stored_webhook_delivery v) = wd_Payload v"
  "wd_Secret (stored_webhook_delivery v) = wd_Secret v"
  "wd_NextRetryAt (stored_webhook_delivery v) = map_option timestamptz (wd_NextRetryAt v)"
  "wd_LastHTTPStatus (stored_webhook_delivery v) = wd_LastHTTPStatus v"
  "wd_LastError (stored_webhook_delivery v) = wd_LastError v"
  "webhook_delivery_check (stored_webhook_delivery v) = webhook_delivery_check v"
  by (simp_all add: stored_webhook_delivery_def webhook_delivery_check_def)

lemma has_row_frames [simp]:
  "has_user (d\<lparr>wallets := ws\<rparr>) = has_user d" "has_user (d\<lparr>transactions := ts\<rparr>) = has_user d"
  "has_user (d\<lparr>ledger_entries := es\<rparr>) = has_user d" "has_user (d\<lparr>audit_logs := as\<rparr>) = has_user d"
  "has_user (d\<lparr>idempotency_records := rs\<rparr>) = has_user d"
  "has_user (d\<lparr>webhook_deliveries := vs\<rparr>) = has_user d"
  "has_wallet (d\<lparr>users := us\<rparr>) = has_wallet d"
  "has_wallet (d\<lparr>transactions := ts\<rparr>) = has_wallet d"
  "has_wallet (d\<lparr>ledger_entries := es\<rparr>) = has_wallet d"
  "has_wallet (d\<lparr>audit_logs := as\<rparr>) = has_wallet d"
  "has_wallet (d\<lparr>idempotency_records := rs\<rparr>) = has_wallet d"
  "has_wallet (d\<lparr>webhook_deliveries := vs\<rparr>) = has_wallet d"
  "has_transaction (d\<lparr>users := us\<rparr>) = has_transaction d"
  "has_transaction (d\<lparr>wallets := ws\<rparr>) = has_transaction d"
  "has_transaction (d\<lparr>ledger_entries := es\<rparr>) = has_transaction d"
  "has_transaction (d\<lparr>audit_logs := as\<rparr>) = has_transaction d"
  "has_transaction (d\<lparr>idempotency_records := rs\<rparr>) = has_transaction d"
  "has_transaction (d\<lparr>webhook_deliveries := vs\<rparr>) = has_transaction d"
  by (simp_all add: fun_eq_iff has_user_def has_wallet_def has_transaction_def)

subsection \<open>Each statement keeps the constraints\<close>

lemma insert_user_ok: "db_ok d \<Longrightarrow> insert_user u d = Inr (x, d') \<Longrightarrow> db_ok d'"
  by (auto simp: insert_user_def db_ok_defs has_row_defs)

lemma insert_wallet_ok: "db_ok d \<Longrightarrow> insert_wallet w d = Inr (x, d') \<Longrightarrow> db_ok d'"
  by (auto simp: insert_wallet_def db_ok_defs has_row_defs)

lemma update_wallet_ok:
  assumes d: "db_ok d" and "update_wallet w d = Inr (x, d')"
  shows "db_ok d'"
proof -
  from assms have d': "d' = d\<lparr>wallets := replace_row w_ID (stored_wallet w) (wallets d)\<rparr>"
    and new: "wallet_check w" "has_user d (w_UserID w)"
      "\<forall>w' \<in> set (wallets d). w_ID w' \<noteq> w_ID w \<longrightarrow> w_UserID w' \<noteq> w_UserID w"
    by (auto simp: update_wallet_def)
  have "distinct (map w_UserID (replace_row w_ID (stored_wallet w) (wallets d)))"
    using d new(3) by (intro distinct_replace_row) (auto simp: db_ok_defs)
  moreover have "has_wallet d' = has_wallet d"
    by (simp add: d' has_wallet_def fun_eq_iff)
  ultimately show ?thesis
    using d new(1,2)
    by (auto simp: db_ok_defs d' has_user_def has_transaction_def set_replace_row)
qed

lemma save_wallet_ok: "db_ok d \<Longrightarrow> save_wallet w d = Inr (x, d') \<Longrightarrow> db_ok d'"
  by (auto simp: save_wallet_def split: if_splits dest: update_wallet_ok insert_wallet_ok)

lemma insert_transaction_ok: "db_ok d \<Longrightarrow> insert_transaction t d = Inr (x, d') \<Longrightarrow> db_ok d'"
  by (auto simp: insert_transaction_def db_ok_defs has_row_defs List.map_filter_simps
      split: option.splits)

lemma insert_ledger_entries_ok:
  "db_ok d \<Longrightarrow> insert_ledger_entries es d = Inr (x, d') \<Longrightarrow> db_ok d'"
  by (auto simp: insert_ledger_entries_def db_ok_defs has_row_defs list_all_iff comp_def)

lemma insert_idempotency_ok:
  "db_ok d \<Longrightarrow> insert_idempotency_on_conflict r d = Inr (x, d') \<Longrightarrow> db_ok d'"
  by (auto simp: insert_idempotency_on_conflict_def db_ok_defs has_row_defs split: if_splits)

lemma complete_idempotency_ok:
  "db_ok d \<Longrightarrow> complete_idempotency i c b u d = Inr (x, d') \<Longrightarrow> db_ok d'"
  by (auto simp: complete_idempotency_def db_ok_defs has_row_defs comp_def)

lemma insert_audit_log_ok: "db_ok d \<Longrightarrow> insert_audit_log a d = Inr (x, d') \<Longrightarrow> db_ok d'"
  by (auto simp: insert_audit_log_def db_ok_defs has_row_defs)

lemma insert_webhook_delivery_ok:
  "db_ok d \<Longrightarrow> insert_webhook_delivery v d = Inr (x, d') \<Longrightarrow> db_ok d'"
  by (auto simp: insert_webhook_delivery_def db_ok_defs has_row_defs)

lemma update_webhook_delivery_ok:
  "db_ok d \<Longrightarrow> update_webhook_delivery v d = Inr (x, d') \<Longrightarrow> db_ok d'"
  by (auto simp: update_webhook_delivery_def db_ok_defs has_row_defs set_replace_row)

lemma save_webhook_delivery_ok:
  "db_ok d \<Longrightarrow> save_webhook_delivery v d = Inr (x, d') \<Longrightarrow> db_ok d'"
  by (auto simp: save_webhook_delivery_def split: if_splits
      dest: update_webhook_delivery_ok insert_webhook_delivery_ok)

lemmas statements_ok =
  insert_user_ok insert_wallet_ok save_wallet_ok insert_transaction_ok insert_ledger_entries_ok
  insert_idempotency_ok complete_idempotency_ok insert_audit_log_ok insert_webhook_delivery_ok
  save_webhook_delivery_ok

lemma set_page: "set (page offset limit rows) \<subseteq> set rows"
  by (auto simp: page_def Let_def dest: in_set_takeD in_set_dropD split: if_splits)

end
