(* ===== verification/Pagination.thy ===== *)
theory Pagination
  imports Entities
begin

text \<open>
  \<^verbatim>\<open>internal/pkg/pagination/pagination.go\<close>. Page and limit are Go \<open>int\<close>s, 64 bits wide,
  and the offset is computed with wrap-around. \<open>Meta\<close> computes the number of pages in
  floating point; the model uses the exact quotient rounded up, which the float computation
  gives for the totals a table can hold (below \<open>2 ^ 46\<close> rows).
\<close>

record Params =
  Page :: int64
  Limit :: int64

definition Params_New :: "int64 \<Rightarrow> int64 \<Rightarrow> Params" where
  "Params_New p l =
     (let p1 = (if p <s 1 then 1 else p);
          l1 = (if l <s 1 then 10 else l);
          l2 = (if 100 <s l1 then 100 else l1)
      in \<lparr>Page = p1, Limit = l2\<rparr>)"

definition Offset :: "Params \<Rightarrow> int64" where
  "Offset p = (Page p - 1) * Limit p"

definition total_pages :: "int \<Rightarrow> Params \<Rightarrow> int" where
  "total_pages n p =
     (if n = 0 then 0 else (n + sint (Limit p) - 1) div sint (Limit p))"

definition Meta :: "int \<Rightarrow> Params \<Rightarrow> json" where
  "Meta n p = JObject
     [(''limit'', JInt (sint (Limit p))), (''page'', JInt (sint (Page p))),
      (''total'', JInt n), (''total_pages'', JInt (total_pages n p))]"

theorem Params_bounds:
  "1 \<le> sint (Page (Params_New p l)) \<and> 1 \<le> sint (Limit (Params_New p l)) \<and> sint (Limit (Params_New p l)) \<le> 100"
  by (auto simp: Params_New_def Let_def word_sless_alt)

text \<open>The offset wraps around: page \<open>2 ^ 62 + 1\<close> of four rows each is the first page.\<close>

lemma Offset_wraps: "Offset (Params_New (2 ^ 62 + 1) 4) = 0"
  by (simp add: Offset_def Params_New_def Let_def word_sless_alt)

end
