(* ===== verification/Repositories.thy ===== *)
theory Repositories
  imports Schema Pagination
begin

text \<open>
  The repositories of \<^verbatim>\<open>internal/repository/gorm.go\<close>, one definition per method. A method
  that writes a struct returns the struct as GORM leaves it: \<open>Create\<close> fills a zero
  \<open>CreatedAt\<close> and \<open>UpdatedAt\<close> with its current time, \<open>Save\<close> and \<open>Updates\<close> set \<open>UpdatedAt\<close>.
  The statements run in the transaction of the context when there is one, which the session
  of the world records.
\<close>

definition if_zero :: "time \<Rightarrow> time \<Rightarrow> time" where
  "if_zero t t' = (if t = 0 then t' else t)"

section \<open>GormUserRepository\<close>

definition Users_Create :: "env \<Rightarrow> User \<Rightarrow> User go" where
  "Users_Create env user =
     and_then (now env) (\<lambda>t.
     let user' = user\<lparr>u_CreatedAt := if_zero (u_CreatedAt user) t,
                      u_UpdatedAt := if_zero (u_UpdatedAt user) t\<rparr> in
     and_then (statement env (insert_user user')) (\<lambda>_. ok user'))"

definition Users_GetByEmail :: "env \<Rightarrow> string \<Rightarrow> User go" where
  "Users_GetByEmail env email =
     and_then (query env (\<lambda>d. sql_first u_ID (\<lambda>u. u_Email u = email) (users d))) first_or_not_found"

definition Users_GetByID :: "env \<Rightarrow> uuid \<Rightarrow> User go" where
  "Users_GetByID env i =
     and_then (query env (\<lambda>d. sql_first u_ID (\<lambda>u. u_ID u = i) (users d))) first_or_not_found"

section \<open>GormWalletRepository\<close>

definition Wallets_Create :: "env \<Rightarrow> Wallet \<Rightarrow> Wallet go" where
  "Wallets_Create env wallet =
     and_then (now env) (\<lambda>t.
     let wallet' = wallet\<lparr>w_CreatedAt := if_zero (w_CreatedAt wallet) t,
                          w_UpdatedAt := if_zero (w_UpdatedAt wallet) t\<rparr> in
     and_then (statement env (insert_wallet wallet')) (\<lambda>_. ok wallet'))"

definition Wallets_GetByUserID :: "env \<Rightarrow> uuid \<Rightarrow> Wallet go" where
  "Wallets_GetByUserID env user =
     and_then (query env (\<lambda>d. sql_first w_ID (\<lambda>w. w_UserID w = user) (wallets d))) first_or_not_found"

definition Wallets_GetByID :: "env \<Rightarrow> uuid \<Rightarrow> Wallet go" where
  "Wallets_GetByID env i =
     and_then (query env (\<lambda>d. sql_first w_ID (\<lambda>w. w_ID w = i) (wallets d))) first_or_not_found"

text \<open>
  \<open>SELECT \<dots> WHERE id IN (\<dots>) ORDER BY id FOR UPDATE\<close>. The rows are locked in the order in
  which they are returned, that of the identifiers.
\<close>

definition Wallets_LockByIDs :: "env \<Rightarrow> uuid list \<Rightarrow> Wallet list go" where
  "Wallets_LockByIDs env ids =
     (let sortedIDs = sort_key (uuid_String env) ids in
      query env (\<lambda>d. sort_key w_ID (filter (\<lambda>w. w_ID w \<in> set sortedIDs) (wallets d))))"

definition Wallets_Update :: "env \<Rightarrow> Wallet \<Rightarrow> Wallet go" where
  "Wallets_Update env wallet =
     and_then (now env) (\<lambda>t.
     let wallet' = wallet\<lparr>w_UpdatedAt := t\<rparr> in
     and_then (statement env (save_wallet wallet')) (\<lambda>_. ok wallet'))"

section \<open>GormTransactionRepository\<close>

definition Transactions_Create :: "env \<Rightarrow> Transaction \<Rightarrow> Transaction go" where
  "Transactions_Create env transaction =
     and_then (now env) (\<lambda>t.
     let transaction' = transaction\<lparr>t_CreatedAt := if_zero (t_CreatedAt transaction) t,
                                    t_UpdatedAt := if_zero (t_UpdatedAt transaction) t\<rparr> in
     and_then (statement env (insert_transaction transaction')) (\<lambda>_. ok transaction'))"

text \<open>The two joins: a wallet referenced by the row belongs to the user.\<close>

definition wallet_owned_by :: "database \<Rightarrow> uuid \<Rightarrow> uuid \<Rightarrow> bool" where
  "wallet_owned_by d user i \<longleftrightarrow> (\<exists>w \<in> set (wallets d). w_ID w = i \<and> w_UserID w = user)"

definition transaction_visible_to :: "database \<Rightarrow> uuid \<Rightarrow> Transaction \<Rightarrow> bool" where
  "transaction_visible_to d user t \<longleftrightarrow>
     t_InitiatedByUserID t = user \<or>
     (case t_SourceWalletID t of None \<Rightarrow> False | Some i \<Rightarrow> wallet_owned_by d user i) \<or>
     (case t_DestinationWalletID t of None \<Rightarrow> False | Some i \<Rightarrow> wallet_owned_by d user i)"

definition newest_first :: "('a \<Rightarrow> time) \<Rightarrow> 'a list \<Rightarrow> 'a list" where
  "newest_first created rows = sort_key (\<lambda>r. - created r) rows"

definition list_page :: "env \<Rightarrow> (database \<Rightarrow> 'a list) \<Rightarrow> ('a \<Rightarrow> time) \<Rightarrow> Params \<Rightarrow> ('a list \<times> int) go" where
  "list_page env select created params =
     and_then (query env (\<lambda>d. int (length (select d)))) (\<lambda>n.
     and_then (query env (\<lambda>d. page (sint (Offset params)) (sint (Limit params))
                                (newest_first created (select d)))) (\<lambda>rows.
     ok (rows, n)))"

definition Transactions_ListByUser :: "env \<Rightarrow> uuid \<Rightarrow> Params \<Rightarrow> (Transaction list \<times> int) go" where
  "Transactions_ListByUser env user params =
     list_page env (\<lambda>d. filter (transaction_visible_to d user) (transactions d)) t_CreatedAt params"

definition Transactions_GetByIDForUser :: "env \<Rightarrow> uuid \<Rightarrow> uuid \<Rightarrow> Transaction go" where
  "Transactions_GetByIDForUser env i user =
     and_then (query env (\<lambda>d. sql_first t_ID
       (\<lambda>t. t_ID t = i \<and> transaction_visible_to d user t) (transactions d))) first_or_not_found"

definition Transactions_ListAll :: "env \<Rightarrow> Params \<Rightarrow> (Transaction list \<times> int) go" where
  "Transactions_ListAll env params = list_page env transactions t_CreatedAt params"

definition Transactions_GetByID :: "env \<Rightarrow> uuid \<Rightarrow> Transaction go" where
  "Transactions_GetByID env i =
     and_then (query env (\<lambda>d. sql_first t_ID (\<lambda>t. t_ID t = i) (transactions d))) first_or_not_found"

section \<open>GormLedgerRepository\<close>

text \<open>One \<open>INSERT\<close> for all entries; their \<open>CreatedAt\<close> is set by the caller unless it is zero.\<close>

definition Ledgers_CreateMany :: "env \<Rightarrow> LedgerEntry list \<Rightarrow> unit go" where
  "Ledgers_CreateMany env entries =
     and_then (now env) (\<lambda>t.
     statement env (insert_ledger_entries
       (map (\<lambda>e. e\<lparr>le_CreatedAt := if_zero (le_CreatedAt e) t\<rparr>) entries)))"

definition Ledgers_ListByUser :: "env \<Rightarrow> uuid \<Rightarrow> Params \<Rightarrow> (LedgerEntry list \<times> int) go" where
  "Ledgers_ListByUser env user params =
     list_page env (\<lambda>d. filter (\<lambda>e. wallet_owned_by d user (le_WalletID e)) (ledger_entries d))
       le_CreatedAt params"

definition Ledgers_ListByTransactionForUser :: "env \<Rightarrow> uuid \<Rightarrow> uuid \<Rightarrow> LedgerEntry list go" where
  "Ledgers_ListByTransactionForUser env i user =
     query env (\<lambda>d. sort_key le_CreatedAt
       (filter (\<lambda>e. le_TransactionID e = i \<and> wallet_owned_by d user (le_WalletID e))
          (ledger_entries d)))"

section \<open>GormIdempotencyRepository\<close>

definition Idempotency_Reserve :: "env \<Rightarrow> IdempotencyRecord \<Rightarrow> bool go" where
  "Idempotency_Reserve env record =
     and_then (now env) (\<lambda>t.
     let record' = record\<lparr>ir_CreatedAt := if_zero (ir_CreatedAt record) t,
                          ir_UpdatedAt := if_zero (ir_UpdatedAt record) t\<rparr> in
     and_then (statement env (insert_idempotency_on_conflict record')) (\<lambda>affected.
     ok (affected = 1)))"

definition Idempotency_Get :: "env \<Rightarrow> string \<Rightarrow> uuid \<Rightarrow> string \<Rightarrow> IdempotencyRecord go" where
  "Idempotency_Get env key user endpoint =
     and_then (query env (\<lambda>d. sql_first ir_ID
       (\<lambda>r. ir_IdempotencyKey r = key \<and> ir_UserID r = user \<and> ir_Endpoint r = endpoint)
       (idempotency_records d))) first_or_not_found"

definition Idempotency_MarkCompleted :: "env \<Rightarrow> uuid \<Rightarrow> int \<Rightarrow> json \<Rightarrow> unit go" where
  "Idempotency_MarkCompleted env i code body =
     and_then (now env) (\<lambda>t. statement env (complete_idempotency i code body t))"

section \<open>GormAuditLogRepository\<close>

definition Audits_Create :: "env \<Rightarrow> AuditLog \<Rightarrow> AuditLog go" where
  "Audits_Create env log =
     and_then (now env) (\<lambda>t.
     let log' = log\<lparr>al_CreatedAt := if_zero (al_CreatedAt log) t\<rparr> in
     and_then (statement env (insert_audit_log log')) (\<lambda>_. ok log'))"

definition Audits_List :: "env \<Rightarrow> Params \<Rightarrow> (AuditLog list \<times> int) go" where
  "Audits_List env params = list_page env audit_logs al_CreatedAt params"

section \<open>GormReconciliationRepository\<close>

definition Reconciliation_ListWallets :: "env \<Rightarrow> Wallet list go" where
  "Reconciliation_ListWallets env =
     query env (\<lambda>d. sort_key (\<lambda>w. (w_CreatedAt w, w_ID w)) (wallets d))"

definition Reconciliation_ListTransactions :: "env \<Rightarrow> Transaction list go" where
  "Reconciliation_ListTransactions env =
     query env (\<lambda>d. sort_key (\<lambda>t. (t_CreatedAt t, t_ID t)) (transactions d))"

definition Reconciliation_ListLedgerEntries :: "env \<Rightarrow> LedgerEntry list go" where
  "Reconciliation_ListLedgerEntries env =
     query env (\<lambda>d. sort_key (\<lambda>e. (le_CreatedAt e, le_ID e)) (ledger_entries d))"

section \<open>GormWebhookDeliveryRepository\<close>

record WebhookDeliveryFilter =
  f_EventType :: string
  f_Status :: string
  f_TransactionRef :: string

fun webhook_status_string :: "WebhookDeliveryStatus \<Rightarrow> string" where
  "webhook_status_string WebhookDeliveryStatusPending = ''PENDING''"
| "webhook_status_string WebhookDeliveryStatusSuccess = ''SUCCESS''"
| "webhook_status_string WebhookDeliveryStatusFailed = ''FAILED''"
| "webhook_status_string WebhookDeliveryStatusRetrying = ''RETRYING''"
| "webhook_status_string (WebhookDeliveryStatusOther s) = s"

definition WebhookDeliveries_Create :: "env \<Rightarrow> WebhookDelivery \<Rightarrow> WebhookDelivery go" where
  "WebhookDeliveries_Create env delivery =
     and_then (now env) (\<lambda>t.
     let delivery' = delivery\<lparr>wd_CreatedAt := if_zero (wd_CreatedAt delivery) t,
                              wd_UpdatedAt := if_zero (wd_UpdatedAt delivery) t\<rparr> in
     and_then (statement env (insert_webhook_delivery delivery')) (\<lambda>_. ok delivery'))"

definition WebhookDeliveries_Update :: "env \<Rightarrow> WebhookDelivery \<Rightarrow> WebhookDelivery go" where
  "WebhookDeliveries_Update env delivery =
     and_then (now env) (\<lambda>t.
     let delivery' = delivery\<lparr>wd_UpdatedAt := t\<rparr> in
     and_then (statement env (save_webhook_delivery delivery')) (\<lambda>_. ok delivery'))"

definition WebhookDeliveries_GetByID :: "env \<Rightarrow> uuid \<Rightarrow> WebhookDelivery go" where
  "WebhookDeliveries_GetByID env i =
     and_then (query env (\<lambda>d. sql_first wd_ID (\<lambda>v. wd_ID v = i) (webhook_deliveries d)))
       first_or_not_found"

definition delivery_matches :: "WebhookDeliveryFilter \<Rightarrow> WebhookDelivery \<Rightarrow> bool" where
  "delivery_matches f v \<longleftrightarrow>
     (f_EventType f \<noteq> '''' \<longrightarrow> wd_EventType v = f_EventType f) \<and>
     (f_Status f \<noteq> '''' \<longrightarrow> webhook_status_string (wd_Status v) = f_Status f) \<and>
     (f_TransactionRef f \<noteq> '''' \<longrightarrow> wd_TransactionRef v = f_TransactionRef f)"

definition WebhookDeliveries_List ::
  "env \<Rightarrow> WebhookDeliveryFilter \<Rightarrow> Params \<Rightarrow> (WebhookDelivery list \<times> int) go" where
  "WebhookDeliveries_List env f params =
     list_page env (\<lambda>d. filter (delivery_matches f) (webhook_deliveries d)) wd_CreatedAt params"

definition due :: "time \<Rightarrow> WebhookDelivery \<Rightarrow> bool" where
  "due t v \<longleftrightarrow>
     wd_Status v \<in> {WebhookDeliveryStatusPending, WebhookDeliveryStatusRetrying} \<and>
     (case wd_NextRetryAt v of None \<Rightarrow> True | Some n \<Rightarrow> n \<le> timestamptz t)"

definition WebhookDeliveries_ListDue :: "env \<Rightarrow> time \<Rightarrow> int \<Rightarrow> WebhookDelivery list go" where
  "WebhookDeliveries_ListDue env t limit =
     query env (\<lambda>d. page 0 limit (sort_key wd_CreatedAt (filter (due t) (webhook_deliveries d))))"

section \<open>Reasoning about the repositories\<close>

lemmas repository_defs =
  Users_Create_def Users_GetByEmail_def Users_GetByID_def Wallets_Create_def
  Wallets_GetByUserID_def Wallets_GetByID_def Wallets_LockByIDs_def Wallets_Update_def
  Transactions_Create_def Ledgers_CreateMany_def Idempotency_Reserve_def Idempotency_Get_def
  Idempotency_MarkCompleted_def Audits_Create_def

text \<open>
  The time GORM stores for a struct whose timestamp was read from the clock: that reading, or
  its own when the first one was the zero time.
\<close>

lemma if_zero_0 [simp]: "if_zero 0 t = t"
  by (simp add: if_zero_def)

definition reading :: "env \<Rightarrow> nat \<Rightarrow> nat \<Rightarrow> nat" where
  "reading env i j = (if time_Now env i = 0 then j else i)"

lemma if_zero_readings [simp]:
  "if_zero (time_Now env i) (time_Now env j) = time_Now env (reading env i j)"
  by (simp add: if_zero_def reading_def)

lemma reading_bounds: "i \<le> j \<Longrightarrow> i \<le> reading env i j \<and> reading env i j \<le> j"
  by (simp add: reading_def)

section \<open>Operations beside the books\<close>

text \<open>
  Reading operations, the audit log and the webhook worker leave the users, the wallets, the
  transactions, the ledger and the idempotency records as they are: \<open>aside w w'\<close>.
\<close>

definition aside :: "world \<Rightarrow> world \<Rightarrow> bool" where
  "aside w w' \<longleftrightarrow> users (db w') = users (db w) \<and> wallets (db w') = wallets (db w) \<and>
     transactions (db w') = transactions (db w) \<and> ledger_entries (db w') = ledger_entries (db w) \<and>
     idempotency_records (db w') = idempotency_records (db w) \<and>
     n_time w \<le> n_time w' \<and> (db_ok (db w) \<longrightarrow> db_ok (db w'))"

lemma aside_refl [simp]: "aside w w"
  by (simp add: aside_def)

lemma aside_preserves: "preserves (aside w) m \<Longrightarrow> m w = (r, w') \<Longrightarrow> aside w w'"
  by (rule preserves_snd [of _ m w]) simp_all

lemma aside_new_uuid [preserves_intros]: "preserves (aside w) (new_uuid env)"
  by (simp add: preserves_def new_uuid_def aside_def)

lemma aside_now [preserves_intros]: "preserves (aside w) (now env)"
  by (simp add: preserves_def now_def aside_def)

lemma aside_statement:
  assumes "\<And>d x d'. q d = Inr (x, d') \<Longrightarrow> (db_ok d \<longrightarrow> db_ok d') \<and> users d' = users d \<and>
     wallets d' = wallets d \<and> transactions d' = transactions d \<and>
     ledger_entries d' = ledger_entries d \<and> idempotency_records d' = idempotency_records d"
  shows "preserves (aside w) (statement env q)"
  using assms
  by (fastforce simp: preserves_def statement_def Let_def abort_block_def aside_def
      split: option.split fault.split sum.split)

lemma aside_query [preserves_intros]: "preserves (aside w) (query env f)"
  unfolding query_def by (rule aside_statement) simp

lemma aside_first_or_not_found [preserves_intros]: "preserves (aside w) (first_or_not_found x)"
  unfolding first_or_not_found_def by (intro preserves_intros)

lemma aside_Audits_Create [preserves_intros]: "preserves (aside w) (Audits_Create env log)"
  unfolding Audits_Create_def Let_def
  by (intro preserves_intros aside_statement)
    (auto simp: insert_audit_log_ok dest: insert_audit_log_ok, auto simp: insert_audit_log_def)

lemma aside_WebhookDeliveries_Update [preserves_intros]:
  "preserves (aside w) (WebhookDeliveries_Update env v)"
  unfolding WebhookDeliveries_Update_def Let_def
  by (intro preserves_intros aside_statement)
    (auto dest: save_webhook_delivery_ok, auto simp: save_webhook_delivery_def
      insert_webhook_delivery_def update_webhook_delivery_def split: if_splits)

lemma aside_list_page [preserves_intros]: "preserves (aside w) (list_page env f g params)"
  unfolding list_page_def by (intro preserves_intros)

lemma aside_trans: "aside w w1 \<Longrightarrow> aside w1 w2 \<Longrightarrow> aside w w2"
  by (auto simp: aside_def)

lemma aside_Users_GetByEmail [preserves_intros]: "preserves (aside w) (Users_GetByEmail env email)"
  unfolding Users_GetByEmail_def by (intro preserves_intros)

end
