(* ===== verification/Responses.thy ===== *)
theory Responses
  imports Repositories
begin

text \<open>
  The response structs and conversions of \<^verbatim>\<open>internal/usecase/types.go\<close> and the envelope of
  \<^verbatim>\<open>internal/pkg/apiresponse/response.go\<close>. A conversion renders the identifiers with
  \<open>UUID.String\<close> and the enum-like types with their string; the \<open>json\<close> functions give the
  members in the order of the struct tags.
\<close>

section \<open>string(...) of the enum-like types\<close>

fun role_string :: "Role \<Rightarrow> string" where
  "role_string RoleUser = ''user''"
| "role_string RoleAdmin = ''admin''"
| "role_string (RoleOther s) = s"

fun wallet_status_string :: "WalletStatus \<Rightarrow> string" where
  "wallet_status_string WalletStatusActive = ''ACTIVE''"
| "wallet_status_string (WalletStatusOther s) = s"

fun transaction_type_string :: "TransactionType \<Rightarrow> string" where
  "transaction_type_string TransactionTypeTopUp = ''TOP_UP''"
| "transaction_type_string TransactionTypeTransfer = ''TRANSFER''"
| "transaction_type_string (TransactionTypeOther s) = s"

fun transaction_status_string :: "TransactionStatus \<Rightarrow> string" where
  "transaction_status_string TransactionStatusSuccess = ''SUCCESS''"
| "transaction_status_string TransactionStatusFailed = ''FAILED''"
| "transaction_status_string TransactionStatusPending = ''PENDING''"
| "transaction_status_string (TransactionStatusOther s) = s"

fun ledger_entry_type_string :: "LedgerEntryType \<Rightarrow> string" where
  "ledger_entry_type_string LedgerEntryTypeDebit = ''DEBIT''"
| "ledger_entry_type_string LedgerEntryTypeCredit = ''CREDIT''"
| "ledger_entry_type_string (LedgerEntryTypeOther s) = s"

section \<open>Response structs\<close>

record UserResponse =
  ur_ID :: string
  ur_Name :: string
  ur_Email :: string
  ur_Role :: string
  ur_CreatedAt :: time

record WalletResponse =
  wr_ID :: string
  wr_UserID :: string
  wr_Balance :: int64
  wr_Status :: string
  wr_CreatedAt :: time
  wr_UpdatedAt :: time

record TransactionResponse =
  tr_ID :: string
  tr_TransactionRef :: string
  tr_Type :: string
  tr_Status :: string
  tr_SourceWalletID :: "string option"
  tr_DestinationWalletID :: "string option"
  tr_Amount :: int64
  tr_Currency :: string
  tr_IdempotencyKey :: string
  tr_InitiatedByUserID :: string
  tr_Description :: "string option"
  tr_CreatedAt :: time
  tr_UpdatedAt :: time

record LedgerResponse =
  lr_ID :: string
  lr_TransactionID :: string
  lr_WalletID :: string
  lr_EntryType :: string
  lr_Amount :: int64
  lr_BalanceBefore :: int64
  lr_BalanceAfter :: int64
  lr_CreatedAt :: time

record OperationResult =
  or_StatusCode :: int
  or_Body :: json
  or_Replay :: bool

section \<open>Conversions\<close>

definition toUserResponse :: "env \<Rightarrow> User \<Rightarrow> UserResponse" where
  "toUserResponse env u = \<lparr>ur_ID = uuid_String env (u_ID u), ur_Name = u_Name u,
     ur_Email = u_Email u, ur_Role = role_string (u_Role u), ur_CreatedAt = u_CreatedAt u\<rparr>"

definition toWalletResponse :: "env \<Rightarrow> Wallet \<Rightarrow> WalletResponse" where
  "toWalletResponse env w = \<lparr>wr_ID = uuid_String env (w_ID w),
     wr_UserID = uuid_String env (w_UserID w), wr_Balance = w_Balance w,
     wr_Status = wallet_status_string (w_Status w), wr_CreatedAt = w_CreatedAt w,
     wr_UpdatedAt = w_UpdatedAt w\<rparr>"

definition toTransactionResponse :: "env \<Rightarrow> Transaction \<Rightarrow> TransactionResponse" where
  "toTransactionResponse env t = \<lparr>tr_ID = uuid_String env (t_ID t),
     tr_TransactionRef = t_TransactionRef t, tr_Type = transaction_type_string (t_Type t),
     tr_Status = transaction_status_string (t_Status t),
     tr_SourceWalletID = map_option (uuid_String env) (t_SourceWalletID t),
     tr_DestinationWalletID = map_option (uuid_String env) (t_DestinationWalletID t),
     tr_Amount = t_Amount t, tr_Currency = t_Currency t,
     tr_IdempotencyKey = t_IdempotencyKey t,
     tr_InitiatedByUserID = uuid_String env (t_InitiatedByUserID t),
     tr_Description = t_Description t, tr_CreatedAt = t_CreatedAt t,
     tr_UpdatedAt = t_UpdatedAt t\<rparr>"

definition toLedgerResponse :: "env \<Rightarrow> LedgerEntry \<Rightarrow> LedgerResponse" where
  "toLedgerResponse env e = \<lparr>lr_ID = uuid_String env (le_ID e),
     lr_TransactionID = uuid_String env (le_TransactionID e),
     lr_WalletID = uuid_String env (le_WalletID e),
     lr_EntryType = ledger_entry_type_string (le_EntryType e), lr_Amount = le_Amount e,
     lr_BalanceBefore = le_BalanceBefore e, lr_BalanceAfter = le_BalanceAfter e,
     lr_CreatedAt = le_CreatedAt e\<rparr>"

section \<open>JSON of the responses\<close>

definition json_int64 :: "int64 \<Rightarrow> json" where
  "json_int64 a = JInt (sint a)"

fun json_nullable :: "string option \<Rightarrow> json" where
  "json_nullable None = JNull"
| "json_nullable (Some s) = JString s"

definition wallet_json :: "WalletResponse \<Rightarrow> json" where
  "wallet_json w = JObject
     [(''id'', JString (wr_ID w)), (''user_id'', JString (wr_UserID w)),
      (''balance'', json_int64 (wr_Balance w)), (''status'', JString (wr_Status w)),
      (''created_at'', JTime (wr_CreatedAt w)), (''updated_at'', JTime (wr_UpdatedAt w))]"

definition transaction_json :: "TransactionResponse \<Rightarrow> json" where
  "transaction_json t = JObject
     [(''id'', JString (tr_ID t)), (''transaction_ref'', JString (tr_TransactionRef t)),
      (''type'', JString (tr_Type t)), (''status'', JString (tr_Status t)),
      (''source_wallet_id'', json_nullable (tr_SourceWalletID t)),
      (''destination_wallet_id'', json_nullable (tr_DestinationWalletID t)),
      (''amount'', json_int64 (tr_Amount t)), (''currency'', JString (tr_Currency t)),
      (''idempotency_key'', JString (tr_IdempotencyKey t)),
      (''initiated_by_user_id'', JString (tr_InitiatedByUserID t)),
      (''description'', json_nullable (tr_Description t)),
      (''created_at'', JTime (tr_CreatedAt t)), (''updated_at'', JTime (tr_UpdatedAt t))]"

text \<open>\<open>MustMarshalSuccess(data, nil)\<close>: \<open>meta\<close> is omitted when it is nil.\<close>

definition MustMarshalSuccess :: "json \<Rightarrow> json" where
  "MustMarshalSuccess data = JObject [(''message'', JString ''success''), (''data'', data)]"

definition success_body :: "json \<Rightarrow> bool" where
  "success_body j \<longleftrightarrow> (\<exists>data. j = MustMarshalSuccess data)"

lemma success_body_marshalled [simp]: "success_body (MustMarshalSuccess data)"
  by (auto simp: success_body_def)

section \<open>How the use cases translate errors\<close>

text \<open>
  The idioms that end a repository call: any error is internal; a missing row is answered
  with a message of its own; an identifier of the request is parsed.
\<close>

definition internal_error :: "'a go \<Rightarrow> 'a go" where
  "internal_error m w =
     (case m w of (Inl err, w') \<Rightarrow> (Inl (Internal err), w') | (Inr x, w') \<Rightarrow> (Inr x, w'))"

definition not_found_or_internal :: "string \<Rightarrow> 'a go \<Rightarrow> 'a go" where
  "not_found_or_internal message m w =
     (case m w of
        (Inl err, w') \<Rightarrow> (Inl (if IsNotFound err then NotFound message else Internal err), w')
      | (Inr x, w') \<Rightarrow> (Inr x, w'))"

definition parse_id :: "env \<Rightarrow> string \<Rightarrow> string \<Rightarrow> uuid go" where
  "parse_id env message s =
     (case uuid_Parse env s of None \<Rightarrow> throw (BadRequest message) | Some i \<Rightarrow> ok i)"

lemma preserves_internal_error [preserves_intros]:
  "preserves P m \<Longrightarrow> preserves P (internal_error m)"
  by (auto simp: preserves_def internal_error_def split: prod.split sum.split)

lemma preserves_not_found_or_internal [preserves_intros]:
  "preserves P m \<Longrightarrow> preserves P (not_found_or_internal msg m)"
  by (auto simp: preserves_def not_found_or_internal_def split: prod.split sum.split)

lemma preserves_parse_id [preserves_intros]: "preserves P (parse_id env msg s)"
  unfolding parse_id_def by (intro preserves_intros)

text \<open>\<open>_ = f()\<close>: the error is dropped.\<close>

definition ignore_error :: "'a go \<Rightarrow> unit go" where
  "ignore_error m w = (Inr (), snd (m w))"

lemma preserves_ignore_error [preserves_intros]: "preserves P m \<Longrightarrow> preserves P (ignore_error m)"
  by (auto simp: preserves_def ignore_error_def)

lemma wp_internal_error [wp_rules]:
  "wp (internal_error m) Q (\<lambda>_ _. True) s \<longleftrightarrow> wp m Q (\<lambda>_ _. True) s"
  by (auto simp: wp_def internal_error_def split: prod.split sum.split)

lemma wp_parse_id [wp_rules]:
  "wp (parse_id env msg i) Q E s \<longleftrightarrow>
     (case uuid_Parse env i of None \<Rightarrow> E (BadRequest msg) s | Some u \<Rightarrow> Q u s)"
  by (simp add: parse_id_def wp_rules split: option.split)

end
