(* ===== verification/Ledger.thy ===== *)
theory Ledger
  imports Schema
begin

text \<open>
  The books: what \<^verbatim>\<open>docs/reconciliation.md\<close> asks of the wallets, the transactions and the
  ledger together, stated over the integers the 64-bit amounts stand for.

  The ledger entries of a wallet, in the order of their insertion, form a chain that starts
  at the genesis balance 0 and ends at the wallet's balance, each entry moving the balance by
  its amount without wrapping around; the entries of a transaction have the shape its type
  calls for. The lemmas show that posting entries together with the wallets' new balances
  keeps the books.
\<close>

section \<open>The chain of a wallet\<close>

definition entry_math :: "LedgerEntry \<Rightarrow> bool" where
  "entry_math e \<longleftrightarrow> 0 < sint (le_Amount e) \<and>
     (case le_EntryType e of
        LedgerEntryTypeCredit \<Rightarrow> sint (le_BalanceAfter e) = sint (le_BalanceBefore e) + sint (le_Amount e)
      | LedgerEntryTypeDebit \<Rightarrow> sint (le_BalanceAfter e) = sint (le_BalanceBefore e) - sint (le_Amount e)
      | LedgerEntryTypeOther _ \<Rightarrow> False)"

fun chain :: "int64 \<Rightarrow> LedgerEntry list \<Rightarrow> int64 \<Rightarrow> bool" where
  "chain b [] b' \<longleftrightarrow> b = b'"
| "chain b (e # es) b' \<longleftrightarrow> le_BalanceBefore e = b \<and> entry_math e \<and> chain (le_BalanceAfter e) es b'"

lemma chain_append: "chain b (es @ es') b' \<longleftrightarrow> (\<exists>m. chain b es m \<and> chain m es' b')"
  by (induction es arbitrary: b) auto

definition entries_of_wallet :: "LedgerEntry list \<Rightarrow> uuid \<Rightarrow> LedgerEntry list" where
  "entries_of_wallet es i = filter (\<lambda>e. le_WalletID e = i) es"

definition entries_of_transaction :: "LedgerEntry list \<Rightarrow> uuid \<Rightarrow> LedgerEntry list" where
  "entries_of_transaction es i = filter (\<lambda>e. le_TransactionID e = i) es"

definition chains_ok :: "Wallet list \<Rightarrow> LedgerEntry list \<Rightarrow> bool" where
  "chains_ok ws es \<longleftrightarrow> (\<forall>w \<in> set ws. chain 0 (entries_of_wallet es (w_ID w)) (w_Balance w))"

text \<open>Signed amounts: credits count positive, debits negative.\<close>

definition entry_delta :: "LedgerEntry \<Rightarrow> int" where
  "entry_delta e =
     (case le_EntryType e of
        LedgerEntryTypeCredit \<Rightarrow> sint (le_Amount e)
      | LedgerEntryTypeDebit \<Rightarrow> - sint (le_Amount e)
      | LedgerEntryTypeOther _ \<Rightarrow> 0)"

lemma entry_math_delta: "entry_math e \<Longrightarrow> sint (le_BalanceAfter e) = sint (le_BalanceBefore e) + entry_delta e"
  by (auto simp: entry_math_def entry_delta_def split: LedgerEntryType.splits)

lemma chain_sum: "chain b es b' \<Longrightarrow> sint b' = sint b + sum_list (map entry_delta es)"
  by (induction es arbitrary: b) (auto simp: entry_math_delta)

lemma chain_entry_math: "chain b es b' \<Longrightarrow> e \<in> set es \<Longrightarrow> entry_math e"
  by (induction es arbitrary: b) auto

text \<open>Posting one entry: the wallet moves to the entry's balance, the others stay.\<close>

lemma chains_ok_post:
  assumes ok: "chains_ok ws es" and ids: "distinct (map w_ID ws)" and w: "w \<in> set ws"
    and e: "le_WalletID e = w_ID w" "le_BalanceBefore e = w_Balance w" "entry_math e"
    and w': "w_ID w' = w_ID w" "w_Balance w' = le_BalanceAfter e"
  shows "chains_ok (replace_row w_ID w' ws) (es @ [e])"
  unfolding chains_ok_def
proof
  fix v assume "v \<in> set (replace_row w_ID w' ws)"
  then consider "v \<in> set ws" "w_ID v \<noteq> w_ID w" | "v = w'"
    using w' by (auto simp: set_replace_row)
  then show "chain 0 (entries_of_wallet (es @ [e]) (w_ID v)) (w_Balance v)"
  proof cases
    case 1
    with ok e show ?thesis by (simp add: chains_ok_def entries_of_wallet_def)
  next
    case 2
    from ok w have "chain 0 (entries_of_wallet es (w_ID w)) (w_Balance w)"
      by (simp add: chains_ok_def)
    with 2 e w' show ?thesis
      by (auto simp: entries_of_wallet_def chain_append)
  qed
qed

text \<open>A wallet without history may join at balance 0.\<close>

lemma chains_ok_new_wallet:
  assumes "chains_ok ws es" and "w_Balance w = 0" and "\<forall>e \<in> set es. le_WalletID e \<noteq> w_ID w"
  shows "chains_ok (ws @ [w]) es"
proof -
  from assms(3) have "entries_of_wallet es (w_ID w) = []"
    by (simp add: entries_of_wallet_def filter_empty_conv)
  with assms(1,2) show ?thesis by (auto simp: chains_ok_def)
qed

lemma wallet_balance_nonneg: "db_ok d \<Longrightarrow> w \<in> set (wallets d) \<Longrightarrow> 0 \<le>s w_Balance w"
  by (auto simp: db_ok_defs wallet_check_def)

lemma new_transaction_has_no_entries:
  "db_ok d \<Longrightarrow> i \<notin> t_ID ` set (transactions d) \<Longrightarrow>
   \<forall>e \<in> set (ledger_entries d). le_TransactionID e \<noteq> i"
  by (auto simp: db_ok_defs has_transaction_def)

section \<open>The shape of a transaction\<close>

definition posted_ok :: "Transaction \<Rightarrow> LedgerEntry list \<Rightarrow> bool" where
  "posted_ok t es \<longleftrightarrow>
     (case t_Type t of
        TransactionTypeTopUp \<Rightarrow>
          t_SourceWalletID t = None \<and>
          (\<exists>e. es = [e] \<and> t_DestinationWalletID t = Some (le_WalletID e) \<and>
               le_EntryType e = LedgerEntryTypeCredit \<and> le_Amount e = t_Amount t)
      | TransactionTypeTransfer \<Rightarrow>
          (\<exists>e e'. es = [e, e'] \<and> le_WalletID e \<noteq> le_WalletID e' \<and>
               t_SourceWalletID t = Some (le_WalletID e) \<and>
               t_DestinationWalletID t = Some (le_WalletID e') \<and>
               le_EntryType e = LedgerEntryTypeDebit \<and> le_EntryType e' = LedgerEntryTypeCredit \<and>
               le_Amount e = t_Amount t \<and> le_Amount e' = t_Amount t)
      | TransactionTypeOther _ \<Rightarrow> False)"

definition shapes_ok :: "Transaction list \<Rightarrow> LedgerEntry list \<Rightarrow> bool" where
  "shapes_ok ts es \<longleftrightarrow> (\<forall>t \<in> set ts. posted_ok t (entries_of_transaction es (t_ID t)))"

text \<open>A new transaction joins together with its entries.\<close>

lemma shapes_ok_post:
  assumes ok: "shapes_ok ts es" and new: "t_ID t \<notin> t_ID ` set ts"
    and old: "\<forall>e \<in> set es. le_TransactionID e \<noteq> t_ID t"
    and mine: "\<forall>e \<in> set es'. le_TransactionID e = t_ID t" and posted: "posted_ok t es'"
  shows "shapes_ok (ts @ [t]) (es @ es')"
proof -
  have "entries_of_transaction (es @ es') (t_ID t) = es'"
    using old mine by (simp add: entries_of_transaction_def filter_empty_conv filter_True)
  moreover have "entries_of_transaction (es @ es') (t_ID u) = entries_of_transaction es (t_ID u)"
    if "u \<in> set ts" for u
  proof -
    from that new have "t_ID u \<noteq> t_ID t" by (metis imageI)
    with mine show ?thesis by (auto simp: entries_of_transaction_def filter_empty_conv)
  qed
  ultimately show ?thesis
    using ok posted by (auto simp: shapes_ok_def)
qed

section \<open>The books\<close>

definition books_ok :: "database \<Rightarrow> bool" where
  "books_ok d \<longleftrightarrow>
     chains_ok (wallets d) (ledger_entries d) \<and> shapes_ok (transactions d) (ledger_entries d)"

lemma books_ok_empty: "books_ok empty_database"
  by (simp add: books_ok_def chains_ok_def shapes_ok_def empty_database_def)

text \<open>
  The money in the wallets is what was topped up: a transfer moves it, nothing else changes
  it.
\<close>

definition total_balance :: "database \<Rightarrow> int" where
  "total_balance d = sum_list (map (\<lambda>w. sint (w_Balance w)) (wallets d))"

lemma sum_replace_row:
  fixes f :: "'a \<Rightarrow> int"
  assumes "distinct (map key rows)" and "r \<in> set rows" and "key r' = key r"
  shows "sum_list (map f (replace_row key r' rows)) = sum_list (map f rows) - f r + f r'"
  using assms
proof (induction rows)
  case (Cons a rows)
  show ?case
  proof (cases "key a = key r")
    case True
    with Cons.prems have "\<forall>x \<in> set rows. key x \<noteq> key r" and "a = r"
      by (auto simp: image_iff)
    then have "replace_row key r' rows = rows"
      using Cons.prems(3) by (simp add: replace_row_def map_idI)
    with \<open>a = r\<close> Cons.prems(3) show ?thesis by (simp add: replace_row_def)
  next
    case False
    with Cons show ?thesis by (auto simp: replace_row_def)
  qed
qed simp

end
