(* ===== verification/Webhook.thy ===== *)
theory Webhook
  imports Responses Ledger
begin

text \<open>
  Outgoing webhooks, \<^verbatim>\<open>internal/usecase/webhook.go\<close>: the notifier interface the transaction
  use case calls, its two implementations (no webhooks, and the delivery service), and the
  worker that sends deliveries and schedules retries. Log lines and metrics are left out.

  \<open>ProcessDelivery\<close> is the state machine of a delivery: \<open>PENDING\<close> or \<open>RETRYING\<close>, one HTTP
  attempt per run, then \<open>SUCCESS\<close>, \<open>RETRYING\<close> or \<open>FAILED\<close>; the last two paths go through
  \<open>markFailure\<close>.
\<close>

section \<open>Configuration\<close>

record WebhookConfig =
  wc_Enabled :: bool
  wc_TargetURL :: string
  wc_Secret :: string
  wc_MaxRetry :: int
  wc_RetryIntervalSeconds :: int
  wc_WorkerBatchSize :: int

text \<open>A duration is a number of nanoseconds.\<close>

definition retryInterval :: "WebhookConfig \<Rightarrow> int" where
  "retryInterval cfg =
     (let seconds = (if wc_RetryIntervalSeconds cfg < 1 then 30 else wc_RetryIntervalSeconds cfg)
      in wrap64 (seconds * 1000000000))"

definition normalizedMaxRetry :: "WebhookConfig \<Rightarrow> int" where
  "normalizedMaxRetry cfg = (if wc_MaxRetry cfg < 1 then 3 else wc_MaxRetry cfg)"

definition batchSize :: "WebhookConfig \<Rightarrow> int" where
  "batchSize cfg = (if wc_WorkerBatchSize cfg < 1 then 20 else wc_WorkerBatchSize cfg)"

text \<open>The capacity of the channel made by \<open>NewWebhookService\<close>.\<close>

definition queue_capacity :: "WebhookConfig \<Rightarrow> int" where
  "queue_capacity cfg =
     (let queueSize = (if wc_WorkerBatchSize cfg < 1 then 20 else wc_WorkerBatchSize cfg)
      in queueSize * 2)"

section \<open>The notifier interface\<close>

record notifier =
  CreateTopUpDelivery :: "Transaction \<Rightarrow> Wallet \<Rightarrow> WebhookDelivery option go"
  CreateTransferDelivery :: "Transaction \<Rightarrow> Wallet \<Rightarrow> Wallet \<Rightarrow> WebhookDelivery option go"
  Enqueue :: "uuid \<Rightarrow> world \<Rightarrow> world"

definition NoopWebhookService :: notifier where
  "NoopWebhookService = \<lparr>CreateTopUpDelivery = (\<lambda>_ _. ok None),
     CreateTransferDelivery = (\<lambda>_ _ _. ok None), Enqueue = (\<lambda>_ w. w)\<rparr>"

section \<open>Creating deliveries\<close>

definition createDelivery ::
  "env \<Rightarrow> WebhookConfig \<Rightarrow> string \<Rightarrow> Transaction \<Rightarrow> json \<Rightarrow> WebhookDelivery option go" where
  "createDelivery env cfg eventType transaction payload =
     (if \<not> wc_Enabled cfg \<or> wc_TargetURL cfg = '''' then ok None
      else
        and_then (new_uuid env) (\<lambda>i.
        let delivery = \<lparr>wd_ID = i, wd_EventType = eventType,
              wd_TransactionID = Some (t_ID transaction),
              wd_TransactionRef = t_TransactionRef transaction,
              wd_TargetURL = wc_TargetURL cfg, wd_Payload = payload,
              wd_Secret = (if wc_Secret cfg \<noteq> '''' then Some (wc_Secret cfg) else None),
              wd_Status = WebhookDeliveryStatusPending, wd_RetryCount = 0,
              wd_MaxRetry = normalizedMaxRetry cfg, wd_LastError = None,
              wd_LastHTTPStatus = None, wd_NextRetryAt = None, wd_DeliveredAt = None,
              wd_CreatedAt = 0, wd_UpdatedAt = 0\<rparr> in
        and_then (WebhookDeliveries_Create env delivery) (\<lambda>delivery'.
        ok (Some delivery'))))"

definition webhook_payload ::
  "env \<Rightarrow> string \<Rightarrow> Transaction \<Rightarrow> json \<Rightarrow> uuid \<Rightarrow> time \<Rightarrow> json" where
  "webhook_payload env eventType transaction source destination occurred = JObject
     [(''amount'', json_int64 (t_Amount transaction)),
      (''currency'', JString (t_Currency transaction)),
      (''destination_wallet_id'', JString (uuid_String env destination)),
      (''event_type'', JString eventType),
      (''occurred_at'', JTime occurred),
      (''source_wallet_id'', source),
      (''status'', JString (transaction_status_string (t_Status transaction))),
      (''transaction_id'', JString (uuid_String env (t_ID transaction))),
      (''transaction_ref'', JString (t_TransactionRef transaction))]"

definition service_CreateTopUpDelivery ::
  "env \<Rightarrow> WebhookConfig \<Rightarrow> Transaction \<Rightarrow> Wallet \<Rightarrow> WebhookDelivery option go" where
  "service_CreateTopUpDelivery env cfg transaction wallet =
     and_then (now env) (\<lambda>occurred.
     createDelivery env cfg ''wallet.top_up.success'' transaction
       (webhook_payload env ''wallet.top_up.success'' transaction JNull (w_ID wallet) occurred))"

definition service_CreateTransferDelivery ::
  "env \<Rightarrow> WebhookConfig \<Rightarrow> Transaction \<Rightarrow> Wallet \<Rightarrow> Wallet \<Rightarrow> WebhookDelivery option go" where
  "service_CreateTransferDelivery env cfg transaction source destination =
     and_then (now env) (\<lambda>occurred.
     createDelivery env cfg ''wallet.transfer.success'' transaction
       (webhook_payload env ''wallet.transfer.success'' transaction
          (JString (uuid_String env (w_ID source))) (w_ID destination) occurred))"

text \<open>\<open>Enqueue\<close>: a send on the buffered channel that gives up when the buffer is full.\<close>

definition service_Enqueue :: "WebhookConfig \<Rightarrow> uuid \<Rightarrow> world \<Rightarrow> world" where
  "service_Enqueue cfg i w =
     (if \<not> wc_Enabled cfg then w
      else if int (length (webhook_queue w)) < queue_capacity cfg
      then w\<lparr>webhook_queue := webhook_queue w @ [i]\<rparr>
      else w)"

definition WebhookService :: "env \<Rightarrow> WebhookConfig \<Rightarrow> notifier" where
  "WebhookService env cfg = \<lparr>CreateTopUpDelivery = service_CreateTopUpDelivery env cfg,
     CreateTransferDelivery = service_CreateTransferDelivery env cfg,
     Enqueue = service_Enqueue cfg\<rparr>"

section \<open>Sending deliveries\<close>

definition signPayload :: "env \<Rightarrow> string \<Rightarrow> json \<Rightarrow> string" where
  "signPayload env secret payload =
     ''sha256='' @ hmac_SHA256_hex env secret (json_Marshal env payload)"

definition delivery_request :: "env \<Rightarrow> WebhookDelivery \<Rightarrow> http_request" where
  "delivery_request env v = \<lparr>rq_URL = wd_TargetURL v,
     rq_Headers =
       [(''Content-Type'', ''application/json''), (''X-Webhook-Event'', wd_EventType v),
        (''X-Webhook-Delivery-ID'', uuid_String env (wd_ID v))] @
       (case wd_Secret v of
          None \<Rightarrow> []
        | Some secret \<Rightarrow>
            if secret \<noteq> ''''
            then [(''X-Webhook-Signature'', signPayload env secret (wd_Payload v))] else []),
     rq_Body = wd_Payload v\<rparr>"

definition client_Do :: "env \<Rightarrow> http_request \<Rightarrow> world \<Rightarrow> (string + int) \<times> world" where
  "client_Do env rq w = (http_Do env (length (http_sent w)) rq, w\<lparr>http_sent := http_sent w @ [rq]\<rparr>)"

text \<open>What a failed and a successful attempt at time \<open>t\<close> make of a delivery.\<close>

definition after_failure :: "WebhookConfig \<Rightarrow> time \<Rightarrow> int \<Rightarrow> string \<Rightarrow> WebhookDelivery \<Rightarrow> WebhookDelivery" where
  "after_failure cfg t statusCode failureMessage delivery =
     (let d1 = delivery\<lparr>wd_RetryCount := wd_RetryCount delivery + 1, wd_UpdatedAt := t\<rparr>;
          d2 = (if statusCode > 0 then d1\<lparr>wd_LastHTTPStatus := Some statusCode\<rparr> else d1);
          d3 = d2\<lparr>wd_LastError := Some failureMessage\<rparr>
      in if wd_RetryCount d3 \<ge> wd_MaxRetry d3
         then d3\<lparr>wd_Status := WebhookDeliveryStatusFailed, wd_NextRetryAt := None\<rparr>
         else d3\<lparr>wd_Status := WebhookDeliveryStatusRetrying,
                 wd_NextRetryAt := Some (t + wrap64 (retryInterval cfg * wd_RetryCount d3))\<rparr>)"

definition markFailure ::
  "env \<Rightarrow> WebhookConfig \<Rightarrow> WebhookDelivery \<Rightarrow> int \<Rightarrow> string \<Rightarrow> unit go" where
  "markFailure env cfg delivery statusCode failureMessage =
     and_then (now env) (\<lambda>t.
     and_then (WebhookDeliveries_Update env
       (after_failure cfg t statusCode failureMessage delivery)) (\<lambda>_. ok ()))"

definition after_success :: "time \<Rightarrow> int \<Rightarrow> WebhookDelivery \<Rightarrow> WebhookDelivery" where
  "after_success t statusCode delivery =
     delivery\<lparr>wd_Status := WebhookDeliveryStatusSuccess, wd_DeliveredAt := Some t,
              wd_NextRetryAt := None, wd_LastError := None,
              wd_LastHTTPStatus := Some statusCode, wd_UpdatedAt := t\<rparr>"

definition markDelivered :: "env \<Rightarrow> WebhookDelivery \<Rightarrow> int \<Rightarrow> unit go" where
  "markDelivered env delivery statusCode =
     and_then (now env) (\<lambda>t.
     and_then (WebhookDeliveries_Update env (after_success t statusCode delivery)) (\<lambda>_. ok ()))"

definition ProcessDelivery :: "env \<Rightarrow> WebhookConfig \<Rightarrow> uuid \<Rightarrow> unit go" where
  "ProcessDelivery env cfg deliveryID =
     and_then (WebhookDeliveries_GetByID env deliveryID) (\<lambda>delivery.
     if wd_Status delivery = WebhookDeliveryStatusSuccess \<or>
        wd_Status delivery = WebhookDeliveryStatusFailed
     then ok ()
     else case http_NewRequest env (wd_TargetURL delivery) of
       Some message \<Rightarrow> markFailure env cfg delivery 0 message
     | None \<Rightarrow> (\<lambda>w.
         case client_Do env (delivery_request env delivery) w of
           (Inl message, w') \<Rightarrow> markFailure env cfg delivery 0 message w'
         | (Inr statusCode, w') \<Rightarrow>
             if statusCode < 200 \<or> statusCode \<ge> 300
             then markFailure env cfg delivery statusCode
                    (''unexpected status code '' @ show_int statusCode) w'
             else markDelivered env delivery statusCode w'))"

text \<open>
  \<open>ProcessDue\<close>: the errors of single deliveries are logged and skipped, an error of the scan
  is returned.
\<close>

fun process_each :: "env \<Rightarrow> WebhookConfig \<Rightarrow> WebhookDelivery list \<Rightarrow> world \<Rightarrow> world" where
  "process_each env cfg [] w = w"
| "process_each env cfg (v # vs) w = process_each env cfg vs (snd (ProcessDelivery env cfg (wd_ID v) w))"

definition ProcessDue :: "env \<Rightarrow> WebhookConfig \<Rightarrow> int \<Rightarrow> unit go" where
  "ProcessDue env cfg limit =
     and_then (now env) (\<lambda>t.
     and_then (WebhookDeliveries_ListDue env t limit) (\<lambda>deliveries.
     modify_state (process_each env cfg deliveries)))"

text \<open>One turn of the worker's loop: a queued delivery, or a tick of the retry timer.\<close>

datatype worker_event = FromQueue | Tick

fun worker_turn :: "env \<Rightarrow> WebhookConfig \<Rightarrow> worker_event \<Rightarrow> world \<Rightarrow> world" where
  "worker_turn env cfg FromQueue w =
     (case webhook_queue w of
        [] \<Rightarrow> w
      | i # rest \<Rightarrow> snd (ProcessDelivery env cfg i (w\<lparr>webhook_queue := rest\<rparr>)))"
| "worker_turn env cfg Tick w = snd (ProcessDue env cfg (batchSize cfg) w)"

section \<open>What a notifier may touch\<close>

text \<open>
  The use case relies on the notifier interface for one thing: creating a delivery changes no
  table but the one of the deliveries, and queueing one changes no table at all.
\<close>

definition only_webhooks :: "database \<Rightarrow> database \<Rightarrow> bool" where
  "only_webhooks d d' \<longleftrightarrow> (\<exists>vs. d' = d\<lparr>webhook_deliveries := vs\<rparr>)"

lemma only_webhooks_refl: "only_webhooks d d"
  unfolding only_webhooks_def by (rule exI [of _ "webhook_deliveries d"]) simp

locale webhook_notifier =
  fixes n :: notifier
  assumes topup_touches:
    "CreateTopUpDelivery n t w s = (Inr x, s') \<Longrightarrow> only_webhooks (db s) (db s')"
    and transfer_touches:
    "CreateTransferDelivery n t w w' s = (Inr x, s') \<Longrightarrow> only_webhooks (db s) (db s')"
    and topup_ok:
    "CreateTopUpDelivery n t w s = (Inr x, s') \<Longrightarrow> db_ok (db s) \<Longrightarrow> db_ok (db s')"
    and transfer_ok:
    "CreateTransferDelivery n t w w' s = (Inr x, s') \<Longrightarrow> db_ok (db s) \<Longrightarrow> db_ok (db s')"
    and topup_clock: "preserves (\<lambda>s. k \<le> n_time s) (CreateTopUpDelivery n t w)"
    and transfer_clock: "preserves (\<lambda>s. k \<le> n_time s) (CreateTransferDelivery n t w w')"
    and enqueue_touches: "db (Enqueue n i s) = db s" "n_time (Enqueue n i s) = n_time s"
begin

lemma wp_CreateTopUpDelivery:
  "(\<And>x s'. only_webhooks (db s) (db s') \<Longrightarrow> db_ok (db s) \<longrightarrow> db_ok (db s') \<Longrightarrow>
      n_time s \<le> n_time s' \<Longrightarrow> Q x s') \<Longrightarrow>
   wp (CreateTopUpDelivery n t w) Q (\<lambda>_ _. True) s"
  using preserves_snd [OF topup_clock [of "n_time s" t w], of s]
  by (intro wpI) (auto dest: topup_touches topup_ok)

lemma wp_CreateTransferDelivery:
  "(\<And>x s'. only_webhooks (db s) (db s') \<Longrightarrow> db_ok (db s) \<longrightarrow> db_ok (db s') \<Longrightarrow>
      n_time s \<le> n_time s' \<Longrightarrow> Q x s') \<Longrightarrow>
   wp (CreateTransferDelivery n t w w') Q (\<lambda>_ _. True) s"
  using preserves_snd [OF transfer_clock [of "n_time s" t w w'], of s]
  by (intro wpI) (auto dest: transfer_touches transfer_ok)

end

interpretation noop_notifier: webhook_notifier NoopWebhookService
  by unfold_locales
    (auto simp: NoopWebhookService_def ok_def preserves_def only_webhooks_refl)

lemma createDelivery_touches:
  assumes "createDelivery env cfg ev t p s = (Inr x, s')"
  shows "only_webhooks (db s) (db s')" and "db_ok (db s) \<Longrightarrow> db_ok (db s')"
proof -
  have "wp (createDelivery env cfg ev t p) (\<lambda>_ s'. only_webhooks (db s) (db s')) (\<lambda>_ _. True) s"
    by (simp add: createDelivery_def WebhookDeliveries_Create_def wp_rules Let_def
        only_webhooks_refl)
      (auto simp: insert_webhook_delivery_def only_webhooks_def)
  from wp_Inr [OF this assms] show "only_webhooks (db s) (db s')" .
  assume ok: "db_ok (db s)"
  then have "wp (createDelivery env cfg ev t p) (\<lambda>_ s'. db_ok (db s')) (\<lambda>_ _. True) s"
    by (simp add: createDelivery_def WebhookDeliveries_Create_def wp_rules Let_def
        insert_webhook_delivery_ok)
  from wp_Inr [OF this assms] show "db_ok (db s')" .
qed

interpretation service_notifier: webhook_notifier "WebhookService env cfg" for env cfg
proof unfold_locales
  fix t w s x s'
  assume "CreateTopUpDelivery (WebhookService env cfg) t w s = (Inr x, s')"
  then have "createDelivery env cfg ''wallet.top_up.success'' t
      (webhook_payload env ''wallet.top_up.success'' t JNull (w_ID w) (time_Now env (n_time s)))
      (s\<lparr>n_time := Suc (n_time s)\<rparr>) = (Inr x, s')"
    by (simp add: WebhookService_def service_CreateTopUpDelivery_def and_then_def now_def)
  from createDelivery_touches [OF this]
  show "only_webhooks (db s) (db s')" and "db_ok (db s) \<Longrightarrow> db_ok (db s')" by simp_all
next
  fix t w w' s x s'
  assume "CreateTransferDelivery (WebhookService env cfg) t w w' s = (Inr x, s')"
  then have "createDelivery env cfg ''wallet.transfer.success'' t
      (webhook_payload env ''wallet.transfer.success'' t (JString (uuid_String env (w_ID w)))
        (w_ID w') (time_Now env (n_time s)))
      (s\<lparr>n_time := Suc (n_time s)\<rparr>) = (Inr x, s')"
    by (simp add: WebhookService_def service_CreateTransferDelivery_def and_then_def now_def)
  from createDelivery_touches [OF this]
  show "only_webhooks (db s) (db s')" and "db_ok (db s) \<Longrightarrow> db_ok (db s')" by simp_all
next
  fix k t w
  show "preserves (\<lambda>s. k \<le> n_time s) (CreateTopUpDelivery (WebhookService env cfg) t w)"
    by (simp add: WebhookService_def service_CreateTopUpDelivery_def createDelivery_def
        WebhookDeliveries_Create_def Let_def preserves_intros)
next
  fix k t w w'
  show "preserves (\<lambda>s. k \<le> n_time s) (CreateTransferDelivery (WebhookService env cfg) t w w')"
    by (simp add: WebhookService_def service_CreateTransferDelivery_def createDelivery_def
        WebhookDeliveries_Create_def Let_def preserves_intros)
qed (simp_all add: WebhookService_def service_Enqueue_def)

section \<open>The worker stays beside the books\<close>

lemma aside_markFailure: "preserves (aside w) (markFailure env cfg v c msg)"
  unfolding markFailure_def Let_def by (intro preserves_intros)

lemma aside_markDelivered: "preserves (aside w) (markDelivered env v c)"
  unfolding markDelivered_def Let_def by (intro preserves_intros)

lemma aside_client_Do: "client_Do env rq w = (r, w') \<Longrightarrow> aside v w \<Longrightarrow> aside v w'"
  by (auto simp: client_Do_def aside_def)

lemma aside_ProcessDelivery: "preserves (aside w) (ProcessDelivery env cfg i)"
proof -
  have attempt: "preserves (aside w) (\<lambda>w. case client_Do env rq w of
      (Inl message, w') \<Rightarrow> markFailure env cfg v 0 message w'
    | (Inr c, w') \<Rightarrow> if c < 200 \<or> c \<ge> 300 then markFailure env cfg v c (msg c) w'
        else markDelivered env v c w')" for rq v msg
    unfolding preserves_def
    by (auto dest: aside_client_Do split: prod.split sum.split
        intro: preserves_snd [OF aside_markFailure _ surjective_pairing]
          preserves_snd [OF aside_markDelivered _ surjective_pairing])
  show ?thesis
    unfolding ProcessDelivery_def WebhookDeliveries_GetByID_def
    by (intro preserves_intros aside_markFailure attempt)
qed

lemma aside_process_each: "aside w v \<Longrightarrow> aside w (process_each env cfg vs v)"
  by (induction vs arbitrary: v)
    (auto intro: preserves_snd [OF aside_ProcessDelivery _ surjective_pairing])

lemma aside_ProcessDue: "preserves (aside w) (ProcessDue env cfg k)"
proof -
  have "preserves (aside w) (modify_state (process_each env cfg vs))" for vs
    by (simp add: preserves_def modify_state_def aside_process_each)
  then show ?thesis
    unfolding ProcessDue_def WebhookDeliveries_ListDue_def by (intro preserves_intros)
qed

lemma aside_worker_turn: "aside w (worker_turn env cfg ev w)"
proof (cases ev)
  case FromQueue
  have "aside w (w\<lparr>webhook_queue := q\<rparr>)" for q by (simp add: aside_def)
  with FromQueue show ?thesis
    by (auto split: list.split intro: preserves_snd [OF aside_ProcessDelivery _ surjective_pairing])
next
  case Tick
  then show ?thesis by (auto intro: preserves_snd [OF aside_ProcessDue _ surjective_pairing])
qed

section \<open>The state machine of a delivery\<close>

text \<open>
  \<open>delivery_step\<close> is the abstract step: from a delivery that is not terminal to a delivered
  one, to one that waits for its next attempt, or to one that is given up, the message
  itself unchanged. \<open>ProcessDelivery\<close> makes at most one such step on the row it is called
  for and touches no other row, whatever fails.
\<close>

definition terminal :: "WebhookDeliveryStatus \<Rightarrow> bool" where
  "terminal s \<longleftrightarrow> s = WebhookDeliveryStatusSuccess \<or> s = WebhookDeliveryStatusFailed"

definition same_message :: "WebhookDelivery \<Rightarrow> WebhookDelivery \<Rightarrow> bool" where
  "same_message v v' \<longleftrightarrow> wd_ID v' = wd_ID v \<and> wd_EventType v' = wd_EventType v \<and>
     wd_TransactionID v' = wd_TransactionID v \<and> wd_TargetURL v' = wd_TargetURL v \<and>
     wd_Payload v' = wd_Payload v \<and> wd_Secret v' = wd_Secret v \<and> wd_MaxRetry v' = wd_MaxRetry v"

inductive delivery_step :: "WebhookConfig \<Rightarrow> WebhookDelivery \<Rightarrow> WebhookDelivery \<Rightarrow> bool" for cfg where
  delivered: "\<not> terminal (wd_Status v) \<Longrightarrow> same_message v v' \<Longrightarrow> 200 \<le> c \<Longrightarrow> c < 300 \<Longrightarrow>
    wd_LastHTTPStatus v' = Some c \<Longrightarrow> wd_Status v' = WebhookDeliveryStatusSuccess \<Longrightarrow>
    wd_RetryCount v' = wd_RetryCount v \<Longrightarrow> wd_NextRetryAt v' = None \<Longrightarrow> delivery_step cfg v v'"
| retry: "\<not> terminal (wd_Status v) \<Longrightarrow> same_message v v' \<Longrightarrow>
    wd_Status v' = WebhookDeliveryStatusRetrying \<Longrightarrow> wd_RetryCount v' = wd_RetryCount v + 1 \<Longrightarrow>
    wd_RetryCount v' < wd_MaxRetry v \<Longrightarrow>
    wd_NextRetryAt v' = Some (timestamptz (t + wrap64 (retryInterval cfg * wd_RetryCount v'))) \<Longrightarrow>
    delivery_step cfg v v'"
| give_up: "\<not> terminal (wd_Status v) \<Longrightarrow> same_message v v' \<Longrightarrow>
    wd_Status v' = WebhookDeliveryStatusFailed \<Longrightarrow> wd_RetryCount v' = wd_RetryCount v + 1 \<Longrightarrow>
    wd_MaxRetry v \<le> wd_RetryCount v' \<Longrightarrow> wd_NextRetryAt v' = None \<Longrightarrow> delivery_step cfg v v'"

inductive_cases delivery_stepE: "delivery_step cfg v v'"

lemma delivery_step_failure:
  assumes "\<not> terminal (wd_Status v)"
  shows "delivery_step cfg v (stored_webhook_delivery (after_failure cfg t c msg v\<lparr>wd_UpdatedAt := u\<rparr>))"
proof (cases "wd_MaxRetry v \<le> wd_RetryCount v + 1")
  case True
  with assms show ?thesis
    by (intro delivery_step.give_up) (auto simp: after_failure_def Let_def same_message_def)
next
  case False
  with assms show ?thesis
    by (intro delivery_step.retry [where t = t]) (auto simp: after_failure_def Let_def same_message_def)
qed

lemma delivery_step_success:
  assumes "\<not> terminal (wd_Status v)" and "200 \<le> c" and "c < 300"
  shows "delivery_step cfg v (stored_webhook_delivery (after_success t c v\<lparr>wd_UpdatedAt := u\<rparr>))"
  using assms by (intro delivery_step.delivered [where c = c]) (auto simp: after_success_def same_message_def)

definition row_step :: "WebhookConfig \<Rightarrow> uuid \<Rightarrow> database \<Rightarrow> database \<Rightarrow> bool" where
  "row_step cfg i d d' \<longleftrightarrow> d' = d \<or>
     (\<exists>v v'. v \<in> set (webhook_deliveries d) \<and> wd_ID v = i \<and> delivery_step cfg v v' \<and>
        d' = d\<lparr>webhook_deliveries := replace_row wd_ID v' (webhook_deliveries d)\<rparr>)"

lemma Update_row_step:
  assumes "WebhookDeliveries_Update env v1 w = (r, w')" and v: "v \<in> set (webhook_deliveries (db w))"
    and "wd_ID v1 = wd_ID v"
    and "\<And>u. delivery_step cfg v (stored_webhook_delivery (v1\<lparr>wd_UpdatedAt := u\<rparr>))"
  shows "row_step cfg (wd_ID v) (db w) (db w')"
proof -
  let ?v = "v1\<lparr>wd_UpdatedAt := time_Now env (n_time w)\<rparr>"
  obtain r1 where st: "statement env (save_webhook_delivery ?v) (w\<lparr>n_time := Suc (n_time w)\<rparr>) = (r1, w')"
    using assms(1)
    by (auto simp: WebhookDeliveries_Update_def and_then_def now_def Let_def ok_def split: prod.splits sum.splits)
  have "has_webhook_delivery (db w) (wd_ID v1)" using v assms(3) by (auto simp: has_webhook_delivery_def)
  with statement_db [OF st] assms show ?thesis
    by (auto simp: row_step_def save_webhook_delivery_def update_webhook_delivery_def)
qed

lemma markFailure_row_step:
  assumes "markFailure env cfg v c msg w = (r, w')" and v: "v \<in> set (webhook_deliveries (db w))"
    and "\<not> terminal (wd_Status v)"
  shows "row_step cfg (wd_ID v) (db w) (db w')"
proof -
  obtain t r1 where "WebhookDeliveries_Update env (after_failure cfg t c msg v)
      (w\<lparr>n_time := Suc (n_time w)\<rparr>) = (r1, w')"
    using assms(1)
    by (auto simp: markFailure_def and_then_def now_def ok_def split: prod.splits sum.splits)
  from Update_row_step [OF this, of v cfg] v delivery_step_failure [OF assms(3)] show ?thesis
    by (simp add: after_failure_def Let_def)
qed

lemma markDelivered_row_step:
  assumes "markDelivered env v c w = (r, w')" and v: "v \<in> set (webhook_deliveries (db w))"
    and "\<not> terminal (wd_Status v)" and "200 \<le> c" and "c < 300"
  shows "row_step cfg (wd_ID v) (db w) (db w')"
proof -
  obtain t r1 where "WebhookDeliveries_Update env (after_success t c v)
      (w\<lparr>n_time := Suc (n_time w)\<rparr>) = (r1, w')"
    using assms(1)
    by (auto simp: markDelivered_def and_then_def now_def ok_def split: prod.splits sum.splits)
  from Update_row_step [OF this, of v cfg] v delivery_step_success [OF assms(3-5)] show ?thesis
    by (simp add: after_success_def)
qed

lemma GetByID_result:
  assumes "WebhookDeliveries_GetByID env i w = (r, w1)"
  shows "db w1 = db w \<and> http_sent w1 = http_sent w \<and>
    (\<forall>v. r = Inr v \<longrightarrow> v \<in> set (webhook_deliveries (db w)) \<and> wd_ID v = i)"
  using assms
  by (auto simp: WebhookDeliveries_GetByID_def and_then_def query_def statement_def Let_def
      abort_block_def first_or_not_found_def throw_def ok_def
      split: if_splits option.splits fault.splits sum.splits prod.splits dest: sql_first_Some)

lemma ProcessDelivery_row_step:
  assumes "ProcessDelivery env cfg i w = (r, w')"
  shows "row_step cfg i (db w) (db w')"
proof -
  obtain g w1 where g: "WebhookDeliveries_GetByID env i w = (g, w1)"
    by (cases "WebhookDeliveries_GetByID env i w")
  note g' = GetByID_result [OF g]
  show ?thesis
  proof (cases g)
    case (Inl e)
    with assms g g' show ?thesis by (simp add: ProcessDelivery_def and_then_def row_step_def)
  next
    case (Inr v)
    with g' have v: "v \<in> set (webhook_deliveries (db w1))" "wd_ID v = i" and db: "db w1 = db w"
      by auto
    show ?thesis
    proof (cases "terminal (wd_Status v)")
      case True
      with assms g Inr db show ?thesis
        by (auto simp: ProcessDelivery_def and_then_def row_step_def terminal_def ok_def)
    next
      case False
      show ?thesis
      proof (cases "http_NewRequest env (wd_TargetURL v)")
        case (Some m)
        with assms g Inr False have "markFailure env cfg v 0 m w1 = (r, w')"
          by (simp add: ProcessDelivery_def and_then_def terminal_def)
        from markFailure_row_step [OF this v(1) False] v(2) db show ?thesis by simp
      next
        case None
        obtain a w2 where a: "client_Do env (delivery_request env v) w1 = (a, w2)"
          by (cases "client_Do env (delivery_request env v) w1")
        then have w2: "db w2 = db w1" by (auto simp: client_Do_def)
        with v have v2: "v \<in> set (webhook_deliveries (db w2))" by simp
        consider c m where "markFailure env cfg v c m w2 = (r, w')"
          | c where "markDelivered env v c w2 = (r, w')" "200 \<le> c" "c < 300"
          using assms g Inr False None a
          by (auto simp: ProcessDelivery_def and_then_def terminal_def not_le not_less split: sum.splits if_splits)
        then show ?thesis
          using markFailure_row_step [OF _ v2 False] markDelivered_row_step [OF _ v2 False] v(2) db w2
          by cases auto
      qed
    qed
  qed
qed

section \<open>A receiver that is down\<close>

text \<open>
  \<open>n\<close> attempts in a row at a receiver that never answers with success: the delivery is given
  up with the attempt that reaches its maximum, and no request is sent after that.
\<close>

definition receiver_down :: "env \<Rightarrow> bool" where
  "receiver_down env \<longleftrightarrow> (\<forall>u. http_NewRequest env u = None) \<and>
     (\<forall>k rq c. http_Do env k rq = Inr c \<longrightarrow> c < 200 \<or> 300 \<le> c)"

fun attempts :: "env \<Rightarrow> WebhookConfig \<Rightarrow> uuid \<Rightarrow> nat \<Rightarrow> world \<Rightarrow> world" where
  "attempts env cfg i 0 w = w"
| "attempts env cfg i (Suc n) w = snd (ProcessDelivery env cfg i (attempts env cfg i n w))"

lemma delivery_unique:
  "db_ok d \<Longrightarrow> v \<in> set (webhook_deliveries d) \<Longrightarrow> v' \<in> set (webhook_deliveries d) \<Longrightarrow>
   wd_ID v' = wd_ID v \<Longrightarrow> v' = v"
  by (auto simp: db_ok_defs distinct_map dest: inj_onD)

lemma GetByID_live:
  assumes "no_faults env" and "sql_session w = NoTx" and ok: "db_ok (db w)"
    and v: "v \<in> set (webhook_deliveries (db w))"
  shows "WebhookDeliveries_GetByID env (wd_ID v) w = (Inr v, w\<lparr>n_sql := Suc (n_sql w)\<rparr>)"
proof -
  have "sql_first wd_ID (\<lambda>v'. wd_ID v' = wd_ID v) (webhook_deliveries (db w)) = Some v"
    using v delivery_unique [OF ok v] by (intro sql_first_unique) auto
  then show ?thesis
    using assms(1,2)
    by (simp add: WebhookDeliveries_GetByID_def and_then_def query_def statement_def Let_def
        no_faults_def first_or_not_found_def ok_def)
qed

lemma Update_live:
  assumes "no_faults env" and "sql_session w = NoTx" and ok: "db_ok (db w)"
    and v: "v \<in> set (webhook_deliveries (db w))"
    and v1: "wd_ID v1 = wd_ID v" "wd_TransactionID v1 = wd_TransactionID v" "webhook_delivery_check v1"
  shows "\<exists>u. snd (WebhookDeliveries_Update env v1 w) = w\<lparr>n_time := Suc (n_time w), n_sql := Suc (n_sql w),
     db := (db w)\<lparr>webhook_deliveries :=
       replace_row wd_ID (stored_webhook_delivery (v1\<lparr>wd_UpdatedAt := u\<rparr>)) (webhook_deliveries (db w))\<rparr>\<rparr>"
proof -
  have "has_webhook_delivery (db w) (wd_ID v1)" using v v1(1) by (auto simp: has_webhook_delivery_def)
  moreover have "list_all (has_transaction (db w)) (List.map_filter id [wd_TransactionID v1])"
    using ok v v1(2) by (auto simp: db_ok_defs List.map_filter_def)
  moreover have "webhook_delivery_check (v1\<lparr>wd_UpdatedAt := u\<rparr>)" for u
    using v1(3) by (simp add: webhook_delivery_check_def)
  ultimately show ?thesis
    using assms(1,2)
    by (intro exI [of _ "time_Now env (n_time w)"])
      (simp add: WebhookDeliveries_Update_def and_then_def now_def Let_def statement_def no_faults_def
        save_webhook_delivery_def update_webhook_delivery_def ok_def constrained_def)
qed

lemma after_failure_fields [simp]:
  "wd_ID (after_failure cfg t c m v) = wd_ID v"
  "wd_TransactionID (after_failure cfg t c m v) = wd_TransactionID v"
  "wd_MaxRetry (after_failure cfg t c m v) = wd_MaxRetry v"
  "wd_RetryCount (after_failure cfg t c m v) = wd_RetryCount v + 1"
  "wd_TargetURL (after_failure cfg t c m v) = wd_TargetURL v"
  "wd_Status (after_failure cfg t c m v) = (if wd_RetryCount v + 1 < wd_MaxRetry v
     then WebhookDeliveryStatusRetrying else WebhookDeliveryStatusFailed)"
  by (auto simp: after_failure_def Let_def)

lemma failing_attempt:
  assumes env: "no_faults env" "receiver_down env" and s: "sql_session w = NoTx" and ok: "db_ok (db w)"
    and v: "v \<in> set (webhook_deliveries (db w))" "\<not> terminal (wd_Status v)"
      "wd_RetryCount v < wd_MaxRetry v"
  obtains v' where "sql_session (snd (ProcessDelivery env cfg (wd_ID v) w)) = NoTx"
    and "db_ok (db (snd (ProcessDelivery env cfg (wd_ID v) w)))"
    and "v' \<in> set (webhook_deliveries (db (snd (ProcessDelivery env cfg (wd_ID v) w))))"
    and "wd_ID v' = wd_ID v" "wd_MaxRetry v' = wd_MaxRetry v" "wd_RetryCount v' = wd_RetryCount v + 1"
    and "wd_Status v' = (if wd_RetryCount v + 1 < wd_MaxRetry v then WebhookDeliveryStatusRetrying
           else WebhookDeliveryStatusFailed)"
    and "length (http_sent (snd (ProcessDelivery env cfg (wd_ID v) w))) = Suc (length (http_sent w))"
proof -
  let ?w1 = "w\<lparr>n_sql := Suc (n_sql w), http_sent := http_sent w @ [delivery_request env v]\<rparr>"
  have "\<exists>c m. ProcessDelivery env cfg (wd_ID v) w = markFailure env cfg v c m ?w1"
    using GetByID_live [OF env(1) s ok v(1)] env(2) v(2)
    by (auto simp: ProcessDelivery_def and_then_def terminal_def receiver_down_def client_Do_def
        split: sum.split)
  then obtain c m where run: "ProcessDelivery env cfg (wd_ID v) w = markFailure env cfg v c m ?w1" by blast
  let ?w2 = "?w1\<lparr>n_time := Suc (n_time ?w1)\<rparr>"
  let ?v1 = "after_failure cfg (time_Now env (n_time w)) c m v"
  have check: "webhook_delivery_check ?v1"
    using ok v by (auto simp: db_ok_defs webhook_delivery_check_def)
  have "snd (markFailure env cfg v c m ?w1) = snd (WebhookDeliveries_Update env ?v1 ?w2)"
    by (auto simp: markFailure_def and_then_def now_def ok_def split: prod.split sum.split)
  moreover obtain u where "snd (WebhookDeliveries_Update env ?v1 ?w2) = ?w2\<lparr>n_time := Suc (n_time ?w2),
     n_sql := Suc (n_sql ?w2), db := (db ?w2)\<lparr>webhook_deliveries :=
       replace_row wd_ID (stored_webhook_delivery (?v1\<lparr>wd_UpdatedAt := u\<rparr>)) (webhook_deliveries (db ?w2))\<rparr>\<rparr>"
    using Update_live [OF env(1), of ?w2 v ?v1] s ok v(1) check
    by auto
  ultimately have eff: "snd (ProcessDelivery env cfg (wd_ID v) w) = ?w2\<lparr>n_time := Suc (n_time ?w2),
     n_sql := Suc (n_sql ?w2), db := (db ?w2)\<lparr>webhook_deliveries :=
       replace_row wd_ID (stored_webhook_delivery (?v1\<lparr>wd_UpdatedAt := u\<rparr>)) (webhook_deliveries (db ?w2))\<rparr>\<rparr>"
    by (simp only: run)
  have "db_ok (db (snd (ProcessDelivery env cfg (wd_ID v) w)))"
    using aside_preserves [OF aside_ProcessDelivery surjective_pairing] ok by (auto simp: aside_def)
  with eff v s show ?thesis
    by (intro that [of "stored_webhook_delivery (?v1\<lparr>wd_UpdatedAt := u\<rparr>)"])
      (auto simp: set_replace_row)
qed

lemma terminal_attempt:
  assumes "no_faults env" "sql_session w = NoTx" "db_ok (db w)" "v \<in> set (webhook_deliveries (db w))"
    and "terminal (wd_Status v)"
  shows "snd (ProcessDelivery env cfg (wd_ID v) w) = w\<lparr>n_sql := Suc (n_sql w)\<rparr>"
  using GetByID_live [OF assms(1-4)] assms(5)
  by (auto simp: ProcessDelivery_def and_then_def terminal_def ok_def)

lemma failing_attempts:
  assumes env: "no_faults env" "receiver_down env" and s: "sql_session w = NoTx" and ok: "db_ok (db w)"
    and v: "v \<in> set (webhook_deliveries (db w))" "wd_Status v = WebhookDeliveryStatusPending"
      "wd_RetryCount v = 0"
  shows "sql_session (attempts env cfg (wd_ID v) n w) = NoTx \<and> db_ok (db (attempts env cfg (wd_ID v) n w)) \<and>
    (\<exists>v' \<in> set (webhook_deliveries (db (attempts env cfg (wd_ID v) n w))).
       wd_ID v' = wd_ID v \<and> wd_MaxRetry v' = wd_MaxRetry v \<and>
       wd_RetryCount v' = min (int n) (wd_MaxRetry v) \<and>
       wd_Status v' = (if n = 0 then WebhookDeliveryStatusPending
         else if int n < wd_MaxRetry v then WebhookDeliveryStatusRetrying
         else WebhookDeliveryStatusFailed)) \<and>
    length (http_sent (attempts env cfg (wd_ID v) n w)) =
      length (http_sent w) + min n (nat (wd_MaxRetry v))"
proof (induction n)
  case 0
  have "0 < wd_MaxRetry v" using ok v(1) by (auto simp: db_ok_defs webhook_delivery_check_def)
  with s ok v show ?case by (auto intro!: bexI [of _ v])
next
  case (Suc n)
  let ?A = "attempts env cfg (wd_ID v) n w"
  from Suc.IH obtain u where A: "sql_session ?A = NoTx" "db_ok (db ?A)"
    and u: "u \<in> set (webhook_deliveries (db ?A))" "wd_ID u = wd_ID v" "wd_MaxRetry u = wd_MaxRetry v"
      "wd_RetryCount u = min (int n) (wd_MaxRetry v)"
      "wd_Status u = (if n = 0 then WebhookDeliveryStatusPending
         else if int n < wd_MaxRetry v then WebhookDeliveryStatusRetrying
         else WebhookDeliveryStatusFailed)"
    and sent: "length (http_sent ?A) = length (http_sent w) + min n (nat (wd_MaxRetry v))"
    by blast
  have pos: "0 < wd_MaxRetry v" using ok v(1) by (auto simp: db_ok_defs webhook_delivery_check_def)
  show ?case
  proof (cases "int n < wd_MaxRetry v")
    case True
    then have "\<not> terminal (wd_Status u)" "wd_RetryCount u < wd_MaxRetry u"
      using u by (auto simp: terminal_def)
    with env A u(1) obtain u' where *: "sql_session (snd (ProcessDelivery env cfg (wd_ID u) ?A)) = NoTx"
      "db_ok (db (snd (ProcessDelivery env cfg (wd_ID u) ?A)))"
      "u' \<in> set (webhook_deliveries (db (snd (ProcessDelivery env cfg (wd_ID u) ?A))))"
      "wd_ID u' = wd_ID u" "wd_MaxRetry u' = wd_MaxRetry u" "wd_RetryCount u' = wd_RetryCount u + 1"
      "wd_Status u' = (if wd_RetryCount u + 1 < wd_MaxRetry u then WebhookDeliveryStatusRetrying
           else WebhookDeliveryStatusFailed)"
      "length (http_sent (snd (ProcessDelivery env cfg (wd_ID u) ?A))) = Suc (length (http_sent ?A))"
      by (rule failing_attempt)
    from * u True sent show ?thesis
      by (auto intro!: bexI [of _ u'])
  next
    case False
    with pos have n: "n \<noteq> 0" by auto
    with False u have "terminal (wd_Status u)" by (simp add: terminal_def)
    from terminal_attempt [OF env(1) A u(1) this, of cfg] A u sent False n show ?thesis
      by (auto intro!: bexI [of _ u])
  qed
qed

end
