(* ===== verification/Transactions.thy ===== *)
theory Transactions
  imports Webhook
begin

text \<open>
  Money movement, \<^verbatim>\<open>internal/usecase/transaction.go\<close>: \<open>TopUp\<close>, \<open>Transfer\<close> and the reading
  operations. A writing operation checks its input, runs one database transaction (reserve
  the idempotency key or replay the stored answer, lock the wallets, check them, write the
  transaction, the wallets, the ledger entries, the audit log and the webhook delivery, store
  the answer under the key) and then queues the delivery.

  The use case's \<open>webhooks\<close> field is the argument \<open>n\<close>, a \<open>notifier\<close>.
\<close>

definition topUpEndpoint :: string where
  "topUpEndpoint = ''POST /api/v1/wallets/me/top-up''"

definition transferEndpoint :: string where
  "transferEndpoint = ''POST /api/v1/transfers''"

record TopUpRequest =
  tu_UserID :: string
  tu_Amount :: int64
  tu_Description :: "string option"
  tu_IdempotencyKey :: string
  tu_RequestHash :: string

record TransferRequest =
  tf_UserID :: string
  tf_RecipientWalletID :: string
  tf_Amount :: int64
  tf_Description :: "string option"
  tf_IdempotencyKey :: string
  tf_RequestHash :: string

text \<open>\<open>NewTransactionUsecase\<close>: without a notifier the use case gets the one that does nothing.\<close>

definition usecase_notifier :: "notifier option \<Rightarrow> notifier" where
  "usecase_notifier webhooks = (case webhooks of None \<Rightarrow> NoopWebhookService | Some n \<Rightarrow> n)"

definition configured_notifier :: "env \<Rightarrow> WebhookConfig option \<Rightarrow> notifier" where
  "configured_notifier env hooks = usecase_notifier (map_option (WebhookService env) hooks)"

lemma configured_notifier_ok [simp]: "webhook_notifier (configured_notifier env hooks)"
  by (cases hooks) (simp_all add: configured_notifier_def usecase_notifier_def
      noop_notifier.webhook_notifier_axioms service_notifier.webhook_notifier_axioms)

text \<open>
  What the transaction body assigns to the enclosing function's variables: the result and,
  when a delivery was created, its identifier.
\<close>

type_synonym body_result = "OperationResult \<times> uuid option"

section \<open>Idempotency\<close>

text \<open>
  The head of both bodies: reserve the key under a record that is not completed yet, or
  answer from the record that holds it. \<open>Inl result\<close> is the replay, \<open>Inr id\<close> the record to
  complete.
\<close>

definition reservation :: "uuid \<Rightarrow> string \<Rightarrow> uuid \<Rightarrow> string \<Rightarrow> string \<Rightarrow> IdempotencyRecord" where
  "reservation i key user requestHash endpoint = \<lparr>ir_ID = i, ir_IdempotencyKey = key,
     ir_UserID = user, ir_RequestHash = requestHash, ir_Endpoint = endpoint, ir_StatusCode = 0,
     ir_ResponseBody = JObject [], ir_CreatedAt = 0, ir_UpdatedAt = 0\<rparr>"

definition replay_existing ::
  "env \<Rightarrow> string \<Rightarrow> uuid \<Rightarrow> string \<Rightarrow> string \<Rightarrow> OperationResult go" where
  "replay_existing env key user requestHash endpoint =
     and_then (Idempotency_Get env key user endpoint) (\<lambda>existing.
     if ir_RequestHash existing \<noteq> requestHash
     then throw (Conflict ''idempotency key already used with different payload'')
     else if ir_StatusCode existing = 0
     then throw (Conflict ''request with the same idempotency key is still being processed'')
     else ok \<lparr>or_StatusCode = ir_StatusCode existing, or_Body = ir_ResponseBody existing,
              or_Replay = True\<rparr>)"

definition reserve_or_replay ::
  "env \<Rightarrow> string \<Rightarrow> uuid \<Rightarrow> string \<Rightarrow> string \<Rightarrow> (OperationResult + uuid) go" where
  "reserve_or_replay env key user requestHash endpoint =
     and_then (new_uuid env) (\<lambda>i.
     and_then (Idempotency_Reserve env (reservation i key user requestHash endpoint)) (\<lambda>inserted.
     if \<not> inserted
     then and_then (replay_existing env key user requestHash endpoint) (\<lambda>result. ok (Inl result))
     else ok (Inr i)))"

section \<open>TopUp\<close>

text \<open>From the locked wallet to the queued delivery and the stored answer.\<close>

definition topup_post ::
  "env \<Rightarrow> notifier \<Rightarrow> TopUpRequest \<Rightarrow> uuid \<Rightarrow> uuid \<Rightarrow> Wallet \<Rightarrow> body_result go" where
  "topup_post env n req userID recordID locked =
     (let beforeBalance = w_Balance locked;
          targetWallet0 = locked\<lparr>w_Balance := w_Balance locked + tu_Amount req\<rparr> in
     and_then (new_uuid env) (\<lambda>transactionID.
     and_then (new_uuid env) (\<lambda>ref.
     and_then (Transactions_Create env \<lparr>t_ID = transactionID,
         t_TransactionRef = ''TXN-'' @ uuid_String env ref,
         t_Type = TransactionTypeTopUp, t_Status = TransactionStatusSuccess,
         t_SourceWalletID = None, t_DestinationWalletID = Some (w_ID targetWallet0),
         t_Amount = tu_Amount req, t_Currency = ''IDR'',
         t_IdempotencyKey = tu_IdempotencyKey req, t_InitiatedByUserID = userID,
         t_Description = tu_Description req, t_CreatedAt = 0, t_UpdatedAt = 0\<rparr>) (\<lambda>transaction.
     and_then (Wallets_Update env targetWallet0) (\<lambda>targetWallet.
     and_then (new_uuid env) (\<lambda>entryID.
     and_then (now env) (\<lambda>entryTime.
     and_then (Ledgers_CreateMany env
         [\<lparr>le_ID = entryID, le_TransactionID = t_ID transaction, le_WalletID = w_ID targetWallet,
           le_EntryType = LedgerEntryTypeCredit, le_Amount = tu_Amount req,
           le_BalanceBefore = beforeBalance, le_BalanceAfter = w_Balance targetWallet,
           le_CreatedAt = entryTime\<rparr>]) (\<lambda>_.
     and_then (new_uuid env) (\<lambda>auditID.
     and_then (now env) (\<lambda>auditTime.
     and_then (Audits_Create env
         \<lparr>al_ID = auditID, al_ActorUserID = Some userID, al_Action = ''WALLET_TOP_UP'',
          al_EntityType = ''transaction'', al_EntityID = Some (t_ID transaction),
          al_Metadata = JObject
            [(''amount'', json_int64 (tu_Amount req)),
             (''wallet_id'', JString (uuid_String env (w_ID targetWallet)))],
          al_CreatedAt = auditTime\<rparr>) (\<lambda>_.
     let payload = MustMarshalSuccess (JObject
           [(''transaction'', transaction_json (toTransactionResponse env transaction)),
            (''wallet'', wallet_json (toWalletResponse env targetWallet))]) in
     and_then (CreateTopUpDelivery n transaction targetWallet) (\<lambda>delivery.
     and_then (Idempotency_MarkCompleted env recordID 200 payload) (\<lambda>_.
     ok (\<lparr>or_StatusCode = 200, or_Body = payload, or_Replay = False\<rparr>,
         map_option wd_ID delivery))))))))))))))"

definition topup_body :: "env \<Rightarrow> notifier \<Rightarrow> TopUpRequest \<Rightarrow> uuid \<Rightarrow> body_result go" where
  "topup_body env n req userID =
     and_then (reserve_or_replay env (tu_IdempotencyKey req) userID (tu_RequestHash req)
                 topUpEndpoint) (\<lambda>reserved.
     case reserved of
       Inl result \<Rightarrow> ok (result, None)
     | Inr recordID \<Rightarrow>
         and_then (Wallets_GetByUserID env userID) (\<lambda>wallet.
         and_then (Wallets_LockByIDs env [w_ID wallet]) (\<lambda>lockedWallets.
         case lockedWallets of
           [targetWallet] \<Rightarrow>
             if w_Status targetWallet \<noteq> WalletStatusActive
             then throw (Conflict ''wallet is not active'')
             else topup_post env n req userID recordID targetWallet
         | _ \<Rightarrow> throw (NotFound ''wallet not found''))))"

text \<open>
  The tail of both operations: the error as an application error, or the delivery queued
  after the commit.
\<close>

definition finish :: "notifier \<Rightarrow> body_result go \<Rightarrow> OperationResult go" where
  "finish n run w =
     (case run w of
        (Inl err, w') \<Rightarrow> (Inl (apperror_As err), w')
      | (Inr (result, deliveryToQueue), w') \<Rightarrow>
          (Inr result,
           case deliveryToQueue of None \<Rightarrow> w' | Some i \<Rightarrow> Enqueue n i w'))"

definition TopUp :: "env \<Rightarrow> notifier \<Rightarrow> TopUpRequest \<Rightarrow> OperationResult go" where
  "TopUp env n req =
     (if tu_IdempotencyKey req = ''''
      then throw (Validation [(''Idempotency-Key'', ''header is required'')])
      else if tu_Amount req \<le>s 0
      then throw (Validation [(''amount'', ''must be greater than zero'')])
      else case uuid_Parse env (tu_UserID req) of
        None \<Rightarrow> throw (BadRequest ''invalid user id'')
      | Some userID \<Rightarrow> finish n (WithinTransaction env (topup_body env n req userID)))"

section \<open>Transfer\<close>

definition transfer_post ::
  "env \<Rightarrow> notifier \<Rightarrow> TransferRequest \<Rightarrow> uuid \<Rightarrow> uuid \<Rightarrow> Wallet \<Rightarrow> Wallet \<Rightarrow> body_result go" where
  "transfer_post env n req userID recordID sender recipient =
     (let senderBefore = w_Balance sender;
          recipientBefore = w_Balance recipient;
          sender0 = sender\<lparr>w_Balance := w_Balance sender - tf_Amount req\<rparr>;
          recipient0 = recipient\<lparr>w_Balance := w_Balance recipient + tf_Amount req\<rparr> in
     and_then (new_uuid env) (\<lambda>transactionID.
     and_then (new_uuid env) (\<lambda>ref.
     and_then (Transactions_Create env \<lparr>t_ID = transactionID,
         t_TransactionRef = ''TXN-'' @ uuid_String env ref,
         t_Type = TransactionTypeTransfer, t_Status = TransactionStatusSuccess,
         t_SourceWalletID = Some (w_ID sender0), t_DestinationWalletID = Some (w_ID recipient0),
         t_Amount = tf_Amount req, t_Currency = ''IDR'',
         t_IdempotencyKey = tf_IdempotencyKey req, t_InitiatedByUserID = userID,
         t_Description = tf_Description req, t_CreatedAt = 0, t_UpdatedAt = 0\<rparr>) (\<lambda>transaction.
     and_then (Wallets_Update env sender0) (\<lambda>lockedSender.
     and_then (Wallets_Update env recipient0) (\<lambda>lockedRecipient.
     and_then (new_uuid env) (\<lambda>debitID.
     and_then (now env) (\<lambda>debitTime.
     and_then (new_uuid env) (\<lambda>creditID.
     and_then (now env) (\<lambda>creditTime.
     and_then (Ledgers_CreateMany env
         [\<lparr>le_ID = debitID, le_TransactionID = t_ID transaction, le_WalletID = w_ID lockedSender,
           le_EntryType = LedgerEntryTypeDebit, le_Amount = tf_Amount req,
           le_BalanceBefore = senderBefore, le_BalanceAfter = w_Balance lockedSender,
           le_CreatedAt = debitTime\<rparr>,
          \<lparr>le_ID = creditID, le_TransactionID = t_ID transaction,
           le_WalletID = w_ID lockedRecipient,
           le_EntryType = LedgerEntryTypeCredit, le_Amount = tf_Amount req,
           le_BalanceBefore = recipientBefore, le_BalanceAfter = w_Balance lockedRecipient,
           le_CreatedAt = creditTime\<rparr>]) (\<lambda>_.
     and_then (new_uuid env) (\<lambda>auditID.
     and_then (now env) (\<lambda>auditTime.
     and_then (Audits_Create env
         \<lparr>al_ID = auditID, al_ActorUserID = Some userID, al_Action = ''WALLET_TRANSFER'',
          al_EntityType = ''transaction'', al_EntityID = Some (t_ID transaction),
          al_Metadata = JObject
            [(''amount'', json_int64 (tf_Amount req)),
             (''destination_wallet_id'', JString (uuid_String env (w_ID lockedRecipient))),
             (''source_wallet_id'', JString (uuid_String env (w_ID lockedSender)))],
          al_CreatedAt = auditTime\<rparr>) (\<lambda>_.
     let payload = MustMarshalSuccess (JObject
           [(''destination_wallet'', wallet_json (toWalletResponse env lockedRecipient)),
            (''source_wallet'', wallet_json (toWalletResponse env lockedSender)),
            (''transaction'', transaction_json (toTransactionResponse env transaction))]) in
     and_then (CreateTransferDelivery n transaction lockedSender lockedRecipient) (\<lambda>delivery.
     and_then (Idempotency_MarkCompleted env recordID 200 payload) (\<lambda>_.
     ok (\<lparr>or_StatusCode = 200, or_Body = payload, or_Replay = False\<rparr>,
         map_option wd_ID delivery)))))))))))))))))"

text \<open>\<open>walletMap\<close>: later rows overwrite earlier ones.\<close>

definition walletMap :: "Wallet list \<Rightarrow> uuid \<Rightarrow> Wallet option" where
  "walletMap lockedWallets i = map_of (map (\<lambda>w. (w_ID w, w)) (rev lockedWallets)) i"

definition transfer_body ::
  "env \<Rightarrow> notifier \<Rightarrow> TransferRequest \<Rightarrow> uuid \<Rightarrow> uuid \<Rightarrow> body_result go" where
  "transfer_body env n req userID recipientWalletID =
     and_then (reserve_or_replay env (tf_IdempotencyKey req) userID (tf_RequestHash req)
                 transferEndpoint) (\<lambda>reserved.
     case reserved of
       Inl result \<Rightarrow> ok (result, None)
     | Inr recordID \<Rightarrow>
         and_then (Wallets_GetByUserID env userID) (\<lambda>senderWallet.
         if w_ID senderWallet = recipientWalletID
         then throw (BadRequest ''sender and recipient wallet cannot be the same'')
         else
         and_then (Wallets_LockByIDs env [w_ID senderWallet, recipientWalletID]) (\<lambda>lockedWallets.
         if length lockedWallets \<noteq> 2
         then throw (NotFound ''wallet not found'')
         else case (walletMap lockedWallets (w_ID senderWallet),
                    walletMap lockedWallets recipientWalletID) of
           (Some lockedSender, Some lockedRecipient) \<Rightarrow>
             if w_Status lockedSender \<noteq> WalletStatusActive \<or>
                w_Status lockedRecipient \<noteq> WalletStatusActive
             then throw (Conflict ''wallet is not active'')
             else if w_Balance lockedSender <s tf_Amount req
             then throw (Conflict ''insufficient balance'')
             else transfer_post env n req userID recordID lockedSender lockedRecipient
         | _ \<Rightarrow> throw (NotFound ''wallet not found''))))"

definition Transfer :: "env \<Rightarrow> notifier \<Rightarrow> TransferRequest \<Rightarrow> OperationResult go" where
  "Transfer env n req =
     (if tf_IdempotencyKey req = ''''
      then throw (Validation [(''Idempotency-Key'', ''header is required'')])
      else if tf_Amount req \<le>s 0
      then throw (Validation [(''amount'', ''must be greater than zero'')])
      else case uuid_Parse env (tf_UserID req) of
        None \<Rightarrow> throw (BadRequest ''invalid user id'')
      | Some userID \<Rightarrow>
          (case uuid_Parse env (tf_RecipientWalletID req) of
             None \<Rightarrow> throw (Validation [(''recipient_wallet_id'', ''must be a valid UUID'')])
           | Some recipientWalletID \<Rightarrow>
               finish n (WithinTransaction env
                 (transfer_body env n req userID recipientWalletID))))"

section \<open>Reading operations\<close>

definition ListMyTransactions ::
  "env \<Rightarrow> string \<Rightarrow> Params \<Rightarrow> (TransactionResponse list \<times> json) go" where
  "ListMyTransactions env userID params =
     and_then (parse_id env ''invalid user id'' userID) (\<lambda>user.
     and_then (internal_error (Transactions_ListByUser env user params)) (\<lambda>(rows, n).
     ok (map (toTransactionResponse env) rows, Meta n params)))"

definition GetMyTransaction :: "env \<Rightarrow> string \<Rightarrow> string \<Rightarrow> TransactionResponse go" where
  "GetMyTransaction env userID transactionID =
     and_then (parse_id env ''invalid user id'' userID) (\<lambda>user.
     and_then (parse_id env ''invalid transaction id'' transactionID) (\<lambda>i.
     and_then (not_found_or_internal ''transaction not found''
                 (Transactions_GetByIDForUser env i user)) (\<lambda>transaction.
     ok (toTransactionResponse env transaction))))"

definition ListMyLedgers :: "env \<Rightarrow> string \<Rightarrow> Params \<Rightarrow> (LedgerResponse list \<times> json) go" where
  "ListMyLedgers env userID params =
     and_then (parse_id env ''invalid user id'' userID) (\<lambda>user.
     and_then (internal_error (Ledgers_ListByUser env user params)) (\<lambda>(rows, n).
     ok (map (toLedgerResponse env) rows, Meta n params)))"

definition ListTransactionLedgers :: "env \<Rightarrow> string \<Rightarrow> string \<Rightarrow> LedgerResponse list go" where
  "ListTransactionLedgers env userID transactionID =
     and_then (parse_id env ''invalid user id'' userID) (\<lambda>user.
     and_then (parse_id env ''invalid transaction id'' transactionID) (\<lambda>i.
     and_then (internal_error (Ledgers_ListByTransactionForUser env i user)) (\<lambda>rows.
     ok (map (toLedgerResponse env) rows))))"

end
