(* ===== verification/Accounts.thy ===== *)
theory Accounts
  imports Ledger
begin

text \<open>
  The abstract specification of the money movements: an account holds an integer, a deposit
  adds to it, a move takes from one account and gives to another; neither happens when it
  would overdraw an account or exceed what an \<open>int64\<close> holds. \<open>balances\<close> is the abstraction
  function from the tables.
\<close>

type_synonym bank = "uuid \<Rightarrow> int option"

definition balances :: "database \<Rightarrow> bank" where
  "balances d = map_of (map (\<lambda>w. (w_ID w, sint (w_Balance w))) (wallets d))"

definition deposit :: "uuid \<Rightarrow> int \<Rightarrow> bank \<Rightarrow> bank option" where
  "deposit i a b = (case b i of
     None \<Rightarrow> None
   | Some x \<Rightarrow> if 0 < a \<and> x + a < 2 ^ 63 then Some (b(i \<mapsto> x + a)) else None)"

definition move :: "uuid \<Rightarrow> uuid \<Rightarrow> int \<Rightarrow> bank \<Rightarrow> bank option" where
  "move i j a b = (case (b i, b j) of
     (Some x, Some y) \<Rightarrow>
       if i \<noteq> j \<and> 0 < a \<and> a \<le> x \<and> y + a < 2 ^ 63
       then Some (b(i \<mapsto> x - a, j \<mapsto> y + a)) else None
   | _ \<Rightarrow> None)"

lemma balances_wallet:
  "distinct (map w_ID (wallets d)) \<Longrightarrow> w \<in> set (wallets d) \<Longrightarrow> balances d (w_ID w) = Some (sint (w_Balance w))"
  unfolding balances_def by (rule map_of_is_SomeI) (auto simp: comp_def)

lemma map_of_replace_row:
  assumes "r \<in> set rows" and "key r' = key r"
  shows "map_of (map (\<lambda>x. (key x, f x)) (replace_row key r' rows)) =
         (map_of (map (\<lambda>x. (key x, f x)) rows))(key r \<mapsto> f r')"
  using assms
proof (induction rows)
  case (Cons a rows)
  show ?case
  proof (cases "r \<in> set rows")
    case True
    with Cons show ?thesis by (auto simp: replace_row_def fun_eq_iff)
  next
    case False
    with Cons.prems have "a = r" by simp
    moreover have "map_of (map (\<lambda>x. (key x, f x)) (replace_row key r' rows)) k =
        map_of (map (\<lambda>x. (key x, f x)) rows) k" if "k \<noteq> key r" for k
      using that Cons.prems(2) by (induction rows) (auto simp: replace_row_def)
    ultimately show ?thesis
      using Cons.prems(2) by (auto simp: replace_row_def fun_eq_iff)
  qed
qed simp

lemma balances_replace_row:
  assumes "w \<in> set (wallets d)" and "w_ID w' = w_ID w"
    and "wallets d' = replace_row w_ID w' (wallets d)"
  shows "balances d' = (balances d)(w_ID w \<mapsto> sint (w_Balance w'))"
  using map_of_replace_row [OF assms(1), of w_ID w' "\<lambda>w. sint (w_Balance w)"] assms(2,3)
  by (simp add: balances_def)

end
