(* ===== verification/Postings.thy ===== *)
theory Postings
  imports Transactions Accounts
begin

text \<open>
  What the two posting bodies of \<^verbatim>\<open>internal/usecase/transaction.go\<close> write.

  \<open>topup_posted\<close> and \<open>transfer_posted\<close> are the abstract effect of a top-up and of a
  transfer on the books: one transaction, its ledger entries, the wallets' new balances, and
  when the entries are dated. The lemmas derive them, through the weakest preconditions of
  the code, from the statements that succeeded, and then derive from them that the books stay
  in order.
\<close>

section \<open>TopUp\<close>

definition topup_posted ::
  "env \<Rightarrow> TopUpRequest \<Rightarrow> uuid \<Rightarrow> Wallet \<Rightarrow> world \<Rightarrow> world \<Rightarrow> bool" where
  "topup_posted env req userID locked s s' \<longleftrightarrow> (\<exists>t e w' k.
     transactions (db s') = transactions (db s) @ [t] \<and>
     ledger_entries (db s') = ledger_entries (db s) @ [e] \<and>
     wallets (db s') = replace_row w_ID w' (wallets (db s)) \<and> users (db s') = users (db s) \<and>
     t_ID t \<notin> t_ID ` set (transactions (db s)) \<and>
     t_Type t = TransactionTypeTopUp \<and> t_Status t = TransactionStatusSuccess \<and>
     t_SourceWalletID t = None \<and> t_DestinationWalletID t = Some (w_ID locked) \<and>
     t_Amount t = tu_Amount req \<and> t_IdempotencyKey t = tu_IdempotencyKey req \<and>
     t_InitiatedByUserID t = userID \<and>
     le_TransactionID e = t_ID t \<and> le_WalletID e = w_ID locked \<and>
     le_EntryType e = LedgerEntryTypeCredit \<and> le_Amount e = tu_Amount req \<and>
     le_BalanceBefore e = w_Balance locked \<and> le_BalanceAfter e = w_Balance w' \<and>
     n_time s \<le> k \<and> k < n_time s' \<and> le_CreatedAt e = timestamptz (time_Now env k) \<and>
     w_ID w' = w_ID locked \<and> w_UserID w' = w_UserID locked \<and> wallet_check w' \<and>
     w_Balance w' = w_Balance locked + tu_Amount req)"

lemmas effect_defs =
  insert_transaction_def save_wallet_def update_wallet_def insert_ledger_entries_def
  insert_audit_log_def complete_idempotency_def only_webhooks_def

lemma topup_post_spec:
  assumes n: "webhook_notifier n" and ok: "db_ok (db s)" and locked: "locked \<in> set (wallets (db s))"
  shows "wp (topup_post env n req userID rid locked) (\<lambda>(res, q) s'.
     topup_posted env req userID locked s s' \<and> or_StatusCode res = 200 \<and> \<not> or_Replay res \<and>
     success_body (or_Body res) \<and> db_ok (db s') \<and>
     (\<exists>u. idempotency_records (db s') =
        map (completed rid 200 (or_Body res) u) (idempotency_records (db s)))) (\<lambda>_ _. True) s"
  unfolding topup_post_def Let_def
  apply (simp add: wp_rules repository_defs Let_def)
  apply clarsimp
  apply (rule webhook_notifier.wp_CreateTopUpDelivery [OF n])
  apply (clarsimp simp: wp_rules)
  subgoal premises prems for d1 d2 d3 d4 s' d5
  proof -
    note ops = prems(2,4,6,8,13) and notifier = prems(9,10,11)
    have "db_ok d1" using ok ops(1) by (rule insert_transaction_ok)
    then have "db_ok d2" using ops(2) by (rule save_wallet_ok)
    then have "db_ok d3" using ops(3) by (rule insert_ledger_entries_ok)
    then have "db_ok d4" using ops(4) by (rule insert_audit_log_ok)
    with notifier have "db_ok (db s')" by simp
    then have ok5: "db_ok d5" using ops(5) by (rule complete_idempotency_ok)
    have has: "has_wallet (db s) (w_ID locked)"
      using locked by (simp add: has_wallet_def)
    let ?W = "stored_wallet (locked\<lparr>w_Balance := w_Balance locked + tu_Amount req,
           w_UpdatedAt := time_Now env (Suc (n_time s))\<rparr>)"
    let ?k = "reading env (Suc (Suc (n_time s))) (Suc (Suc (Suc (n_time s))))"
    have "\<exists>T. transactions d5 = transactions (db s) @ [T] \<and>
      t_ID T \<notin> t_ID ` set (transactions (db s)) \<and> t_ID T = uuid_New env (n_uuid s) \<and>
      t_Type T = TransactionTypeTopUp \<and> t_Status T = TransactionStatusSuccess \<and>
      t_SourceWalletID T = None \<and> t_DestinationWalletID T = Some (w_ID locked) \<and>
      t_Amount T = tu_Amount req \<and> t_IdempotencyKey T = tu_IdempotencyKey req \<and>
      t_InitiatedByUserID T = userID"
      using ops notifier(1) has by (clarsimp simp: effect_defs)
    moreover have "\<exists>E. ledger_entries d5 = ledger_entries (db s) @ [E] \<and>
      le_TransactionID E = uuid_New env (n_uuid s) \<and> le_WalletID E = w_ID locked \<and>
      le_EntryType E = LedgerEntryTypeCredit \<and> le_Amount E = tu_Amount req \<and>
      le_BalanceBefore E = w_Balance locked \<and> le_BalanceAfter E = w_Balance ?W \<and>
      le_CreatedAt E = timestamptz (time_Now env ?k)"
      using ops notifier(1) has by (clarsimp simp: effect_defs)
    moreover have "wallets d5 = replace_row w_ID ?W (wallets (db s))" "users d5 = users (db s)"
      "wallet_check ?W"
      using ops notifier(1) has by (clarsimp simp: effect_defs wallet_check_def)+
    moreover have "n_time s \<le> ?k" "?k < Suc (n_time s')"
      using reading_bounds [of "Suc (Suc (n_time s))" "Suc (Suc (Suc (n_time s)))" env] notifier(3)
      by simp_all
    ultimately have "topup_posted env req userID locked s (s'\<lparr>n_time := Suc (n_time s'), n_sql := Suc (n_sql s'), db := d5\<rparr>)"
      unfolding topup_posted_def
      by (elim exE, intro exI [of _ ?W] exI [of _ ?k] exI) auto
    moreover have "\<exists>u. idempotency_records d5 = map (completed rid 200 P u) (idempotency_records (db s))"
      if "complete_idempotency rid 200 P (time_Now env (n_time s')) (db s') = Inr ((), d5)" for P
      using that ops(1-4) notifier(1) has
      by (intro exI [of _ "time_Now env (n_time s')"]) (clarsimp simp: effect_defs)
    ultimately show ?thesis
      using ops(5) ok5 by simp
  qed
  done

section \<open>Transfer\<close>

definition transfer_posted ::
  "env \<Rightarrow> TransferRequest \<Rightarrow> uuid \<Rightarrow> Wallet \<Rightarrow> Wallet \<Rightarrow> world \<Rightarrow> world \<Rightarrow> bool" where
  "transfer_posted env req userID sender recipient s s' \<longleftrightarrow> (\<exists>t e e' ws wr k k'.
     transactions (db s') = transactions (db s) @ [t] \<and>
     ledger_entries (db s') = ledger_entries (db s) @ [e, e'] \<and>
     wallets (db s') = replace_row w_ID wr (replace_row w_ID ws (wallets (db s))) \<and>
     users (db s') = users (db s) \<and>
     t_ID t \<notin> t_ID ` set (transactions (db s)) \<and>
     t_Type t = TransactionTypeTransfer \<and> t_Status t = TransactionStatusSuccess \<and>
     t_SourceWalletID t = Some (w_ID sender) \<and> t_DestinationWalletID t = Some (w_ID recipient) \<and>
     t_Amount t = tf_Amount req \<and> t_IdempotencyKey t = tf_IdempotencyKey req \<and>
     t_InitiatedByUserID t = userID \<and>
     le_TransactionID e = t_ID t \<and> le_WalletID e = w_ID sender \<and>
     le_EntryType e = LedgerEntryTypeDebit \<and> le_Amount e = tf_Amount req \<and>
     le_BalanceBefore e = w_Balance sender \<and> le_BalanceAfter e = w_Balance ws \<and>
     le_TransactionID e' = t_ID t \<and> le_WalletID e' = w_ID recipient \<and>
     le_EntryType e' = LedgerEntryTypeCredit \<and> le_Amount e' = tf_Amount req \<and>
     le_BalanceBefore e' = w_Balance recipient \<and> le_BalanceAfter e' = w_Balance wr \<and>
     n_time s \<le> k \<and> k < n_time s' \<and> le_CreatedAt e = timestamptz (time_Now env k) \<and>
     n_time s \<le> k' \<and> k' < n_time s' \<and> le_CreatedAt e' = timestamptz (time_Now env k') \<and>
     ((\<forall>m. time_Now env m \<noteq> 0) \<longrightarrow> k < k') \<and>
     w_ID ws = w_ID sender \<and> w_UserID ws = w_UserID sender \<and> wallet_check ws \<and>
     w_Balance ws = w_Balance sender - tf_Amount req \<and>
     w_ID wr = w_ID recipient \<and> w_UserID wr = w_UserID recipient \<and> wallet_check wr \<and>
     w_Balance wr = w_Balance recipient + tf_Amount req)"

lemma transfer_post_spec:
  assumes n: "webhook_notifier n" and ok: "db_ok (db s)"
    and locked: "sender \<in> set (wallets (db s))" "recipient \<in> set (wallets (db s))"
  shows "wp (transfer_post env n req userID rid sender recipient) (\<lambda>(res, q) s'.
     transfer_posted env req userID sender recipient s s' \<and> or_StatusCode res = 200 \<and>
     success_body (or_Body res) \<and>
     \<not> or_Replay res \<and> db_ok (db s') \<and>
     (\<exists>u. idempotency_records (db s') =
        map (completed rid 200 (or_Body res) u) (idempotency_records (db s)))) (\<lambda>_ _. True) s"
  unfolding transfer_post_def Let_def
  apply (simp add: wp_rules repository_defs Let_def)
  apply clarsimp
  apply (rule webhook_notifier.wp_CreateTransferDelivery [OF n])
  apply (clarsimp simp: wp_rules)
  subgoal premises prems for d1 d2 d3 d4 d5 s' d6
  proof -
    note ops = prems(2,4,6,8,10,15) and notifier = prems(11,12,13)
    have "db_ok d1" using ok ops(1) by (rule insert_transaction_ok)
    then have "db_ok d2" using ops(2) by (rule save_wallet_ok)
    then have "db_ok d3" using ops(3) by (rule save_wallet_ok)
    then have "db_ok d4" using ops(4) by (rule insert_ledger_entries_ok)
    then have "db_ok d5" using ops(5) by (rule insert_audit_log_ok)
    with notifier have "db_ok (db s')" by simp
    then have ok6: "db_ok d6" using ops(6) by (rule complete_idempotency_ok)
    have has: "has_wallet (db s) (w_ID sender)" "has_wallet (db s) (w_ID recipient)"
      using locked by (simp_all add: has_wallet_def)
    let ?S = "stored_wallet (sender\<lparr>w_Balance := w_Balance sender - tf_Amount req,
           w_UpdatedAt := time_Now env (Suc (n_time s))\<rparr>)"
    let ?R = "stored_wallet (recipient\<lparr>w_Balance := w_Balance recipient + tf_Amount req,
           w_UpdatedAt := time_Now env (Suc (Suc (n_time s)))\<rparr>)"
    let ?i = "Suc (Suc (Suc (n_time s)))"
    let ?k = "reading env ?i (Suc (Suc ?i))" and ?k' = "reading env (Suc ?i) (Suc (Suc ?i))"
    obtain T where T: "transactions d6 = transactions (db s) @ [T] \<and>
      t_ID T \<notin> t_ID ` set (transactions (db s)) \<and> t_ID T = uuid_New env (n_uuid s) \<and>
      t_Type T = TransactionTypeTransfer \<and> t_Status T = TransactionStatusSuccess \<and>
      t_SourceWalletID T = Some (w_ID sender) \<and> t_DestinationWalletID T = Some (w_ID recipient) \<and>
      t_Amount T = tf_Amount req \<and> t_IdempotencyKey T = tf_IdempotencyKey req \<and>
      t_InitiatedByUserID T = userID"
      using ops notifier(1) has by (clarsimp simp: effect_defs has_wallet_def)
    obtain E E' where E: "ledger_entries d6 = ledger_entries (db s) @ [E, E'] \<and>
      le_TransactionID E = uuid_New env (n_uuid s) \<and> le_WalletID E = w_ID sender \<and>
      le_EntryType E = LedgerEntryTypeDebit \<and> le_Amount E = tf_Amount req \<and>
      le_BalanceBefore E = w_Balance sender \<and> le_BalanceAfter E = w_Balance ?S \<and>
      le_CreatedAt E = timestamptz (time_Now env ?k) \<and>
      le_TransactionID E' = uuid_New env (n_uuid s) \<and> le_WalletID E' = w_ID recipient \<and>
      le_EntryType E' = LedgerEntryTypeCredit \<and> le_Amount E' = tf_Amount req \<and>
      le_BalanceBefore E' = w_Balance recipient \<and> le_BalanceAfter E' = w_Balance ?R \<and>
      le_CreatedAt E' = timestamptz (time_Now env ?k')"
      using ops notifier(1) has by (clarsimp simp: effect_defs has_wallet_def)
    have ws: "wallets d6 = replace_row w_ID ?R (replace_row w_ID ?S (wallets (db s)))"
      "users d6 = users (db s)" "wallet_check ?S" "wallet_check ?R"
      using ops notifier(1) has by (clarsimp simp: effect_defs wallet_check_def has_wallet_def)+
    have ks: "n_time s \<le> ?k" "?k < Suc (n_time s')" "n_time s \<le> ?k'" "?k' < Suc (n_time s')"
      using reading_bounds [of ?i "Suc (Suc ?i)" env] reading_bounds [of "Suc ?i" "Suc (Suc ?i)" env]
        notifier(3) by simp_all
    have mono: "(\<forall>m. time_Now env m \<noteq> 0) \<longrightarrow> ?k < ?k'" by (simp add: reading_def)
    have "transfer_posted env req userID sender recipient s
        (s'\<lparr>n_time := Suc (n_time s'), n_sql := Suc (n_sql s'), db := d6\<rparr>)"
      unfolding transfer_posted_def
      apply (rule exI [of _ T], rule exI [of _ E], rule exI [of _ E'], rule exI [of _ ?S],
          rule exI [of _ ?R], rule exI [of _ ?k], rule exI [of _ ?k'])
      using T E ws ks mono by - (elim conjE, intro conjI, (assumption | simp)+)
    moreover have "\<exists>u. idempotency_records d6 = map (completed rid 200 P u) (idempotency_records (db s))"
      if "complete_idempotency rid 200 P (time_Now env (n_time s')) (db s') = Inr ((), d6)" for P
      using that ops(1-5) notifier(1) has
      by (intro exI [of _ "time_Now env (n_time s')"]) (clarsimp simp: effect_defs has_wallet_def)
    ultimately show ?thesis
      using ops(6) ok6 by simp
  qed
  done

section \<open>The books after a posting\<close>

lemma topup_posted_books:
  assumes p: "topup_posted env req userID locked s s'" and d: "db_ok (db s)" "books_ok (db s)"
    and locked: "locked \<in> set (wallets (db s))" and a: "0 <s tu_Amount req"
  shows "books_ok (db s')" and "total_balance (db s') = total_balance (db s) + sint (tu_Amount req)"
    and "deposit (w_ID locked) (sint (tu_Amount req)) (balances (db s)) = Some (balances (db s'))"
proof -
  from p obtain t e w' where new: "transactions (db s') = transactions (db s) @ [t]"
     "ledger_entries (db s') = ledger_entries (db s) @ [e]"
     "wallets (db s') = replace_row w_ID w' (wallets (db s))"
     "t_ID t \<notin> t_ID ` set (transactions (db s))" "le_TransactionID e = t_ID t" 
     and t: "t_Type t = TransactionTypeTopUp"
     "t_SourceWalletID t = None" "t_DestinationWalletID t = Some (w_ID locked)"
     "t_Amount t = tu_Amount req"
     and e: "le_WalletID e = w_ID locked"
     "le_EntryType e = LedgerEntryTypeCredit" "le_Amount e = tu_Amount req"
     "le_BalanceBefore e = w_Balance locked" "le_BalanceAfter e = w_Balance w'"
     and w': "w_ID w' = w_ID locked" "wallet_check w'" "w_Balance w' = w_Balance locked + tu_Amount req"
    unfolding topup_posted_def by blast
  have ids: "distinct (map w_ID (wallets (db s)))"
    using d by (simp add: db_ok_defs)
  have "sint (w_Balance locked + tu_Amount req) = sint (w_Balance locked) + sint (tu_Amount req)"
    using wallet_balance_nonneg [OF d(1) locked] a w'(2,3)
    by (intro credit_exact) (simp_all add: wallet_check_def)
  with w' have sum: "sint (w_Balance w') = sint (w_Balance locked) + sint (tu_Amount req)" by simp
  have "entry_math e"
    using a sum e by (simp add: entry_math_def word_sless_alt)
  then have "chains_ok (wallets (db s')) (ledger_entries (db s'))"
    unfolding new using d(2) ids locked e w' by (intro chains_ok_post) (simp_all add: books_ok_def)
  moreover have "shapes_ok (transactions (db s')) (ledger_entries (db s'))"
    unfolding new using d new(4,5) t e new_transaction_has_no_entries [OF d(1) new(4)]
    by (intro shapes_ok_post) (simp_all add: books_ok_def posted_ok_def)
  ultimately show "books_ok (db s')" by (simp add: books_ok_def)
  show "total_balance (db s') = total_balance (db s) + sint (tu_Amount req)"
    unfolding total_balance_def new
    using sum_replace_row [OF ids locked w'(1), of "\<lambda>w. sint (w_Balance w)"] sum by simp
  show "deposit (w_ID locked) (sint (tu_Amount req)) (balances (db s)) = Some (balances (db s'))"
    using sum a sint64_bounds [of "w_Balance w'"]
    by (simp add: deposit_def balances_wallet [OF ids locked] word_sless_alt
        balances_replace_row [OF locked w'(1) new(3)])
qed

lemma transfer_posted_books:
  assumes p: "transfer_posted env req userID sender recipient s s'"
    and d: "db_ok (db s)" "books_ok (db s)"
    and locked: "sender \<in> set (wallets (db s))" "recipient \<in> set (wallets (db s))"
      "w_ID sender \<noteq> w_ID recipient"
    and a: "0 <s tf_Amount req"
  shows "books_ok (db s')" and "total_balance (db s') = total_balance (db s)"
    and "\<not> w_Balance sender <s tf_Amount req \<Longrightarrow>
      move (w_ID sender) (w_ID recipient) (sint (tf_Amount req)) (balances (db s)) = Some (balances (db s'))"
proof -
  from p obtain t e e' ws wr where new: "transactions (db s') = transactions (db s) @ [t]"
     "ledger_entries (db s') = ledger_entries (db s) @ [e, e']"
     "wallets (db s') = replace_row w_ID wr (replace_row w_ID ws (wallets (db s)))"
     "t_ID t \<notin> t_ID ` set (transactions (db s))"
     "le_TransactionID e = t_ID t" "le_TransactionID e' = t_ID t" 
     and t: "t_Type t = TransactionTypeTransfer" "t_Amount t = tf_Amount req"
     "t_SourceWalletID t = Some (w_ID sender)" "t_DestinationWalletID t = Some (w_ID recipient)"
     and e: "le_WalletID e = w_ID sender"
     "le_EntryType e = LedgerEntryTypeDebit" "le_Amount e = tf_Amount req"
     "le_BalanceBefore e = w_Balance sender" "le_BalanceAfter e = w_Balance ws"
     and e': "le_WalletID e' = w_ID recipient"
     "le_EntryType e' = LedgerEntryTypeCredit" "le_Amount e' = tf_Amount req"
     "le_BalanceBefore e' = w_Balance recipient" "le_BalanceAfter e' = w_Balance wr"
     and ws: "w_ID ws = w_ID sender" "w_Balance ws = w_Balance sender - tf_Amount req"
     and wr: "w_ID wr = w_ID recipient" "wallet_check wr"
       "w_Balance wr = w_Balance recipient + tf_Amount req"
    unfolding transfer_posted_def by blast
  have ids: "distinct (map w_ID (wallets (db s)))"
    using d by (simp add: db_ok_defs)
  then have ids': "distinct (map w_ID (replace_row w_ID ws (wallets (db s))))" by simp
  have rec: "recipient \<in> set (replace_row w_ID ws (wallets (db s)))"
    using locked ws by (auto simp: set_replace_row)
  have "sint (w_Balance recipient + tf_Amount req) = sint (w_Balance recipient) + sint (tf_Amount req)"
    using wallet_balance_nonneg [OF d(1) locked(2)] a wr(2,3)
    by (intro credit_exact) (simp_all add: wallet_check_def)
  with wr have credit: "sint (w_Balance wr) = sint (w_Balance recipient) + sint (tf_Amount req)"
    by simp
  have debit: "sint (w_Balance ws) = sint (w_Balance sender) - sint (tf_Amount req)"
    using wallet_balance_nonneg [OF d(1) locked(1)] a ws(2) by (simp add: debit_exact)
  have math: "entry_math e" "entry_math e'"
    using a credit debit e e' by (simp_all add: entry_math_def word_sless_alt)
  then have "chains_ok (replace_row w_ID ws (wallets (db s))) (ledger_entries (db s) @ [e])"
    using d(2) ids locked e ws by (intro chains_ok_post) (simp_all add: books_ok_def)
  then have "chains_ok (wallets (db s')) ((ledger_entries (db s) @ [e]) @ [e'])"
    unfolding new using ids' rec math e' wr by - (rule chains_ok_post, simp_all)
  moreover have "shapes_ok (transactions (db s')) (ledger_entries (db s'))"
    unfolding new using d new(4-6) t e e' locked(3) new_transaction_has_no_entries [OF d(1) new(4)]
    by (intro shapes_ok_post) (simp_all add: books_ok_def posted_ok_def)
  ultimately show "books_ok (db s')" by (simp add: books_ok_def new)
  show "total_balance (db s') = total_balance (db s)"
    unfolding total_balance_def new
    using sum_replace_row [OF ids locked(1) ws(1), of "\<lambda>w. sint (w_Balance w)"]
      sum_replace_row [OF ids' rec wr(1), of "\<lambda>w. sint (w_Balance w)"] credit debit by simp
  let ?d = "db s\<lparr>wallets := replace_row w_ID ws (wallets (db s))\<rparr>"
  have "balances ?d = (balances (db s))(w_ID sender \<mapsto> sint (w_Balance ws))"
    by (rule balances_replace_row [OF locked(1) ws(1)]) simp
  moreover have "balances (db s') = (balances ?d)(w_ID recipient \<mapsto> sint (w_Balance wr))"
    by (rule balances_replace_row [OF _ wr(1)]) (simp_all add: rec new)
  ultimately show "move (w_ID sender) (w_ID recipient) (sint (tf_Amount req)) (balances (db s)) =
      Some (balances (db s'))" if "\<not> w_Balance sender <s tf_Amount req"
    using that credit debit a locked(3) sint64_bounds [of "w_Balance wr"]
    by (simp add: move_def balances_wallet [OF ids locked(1)] balances_wallet [OF ids locked(2)]
        word_sless_alt)
qed

section \<open>Idempotency records\<close>

text \<open>
  The three fates of a key: it was answered before with the same request (\<open>replayed\<close>), it is
  taken under a new record (\<open>reserved\<close>), and, when the body is done, that record holds the
  answer (\<open>recorded\<close>).
\<close>

definition replayed ::
  "string \<Rightarrow> uuid \<Rightarrow> string \<Rightarrow> string \<Rightarrow> OperationResult \<Rightarrow> database \<Rightarrow> bool" where
  "replayed key user requestHash endpoint res d \<longleftrightarrow>
     (\<exists>r \<in> set (idempotency_records d). idempotency_key_of r = (key, user, endpoint) \<and>
        ir_RequestHash r = requestHash \<and> ir_StatusCode r \<noteq> 0 \<and>
        res = \<lparr>or_StatusCode = ir_StatusCode r, or_Body = ir_ResponseBody r, or_Replay = True\<rparr>)"

definition recorded ::
  "string \<Rightarrow> uuid \<Rightarrow> string \<Rightarrow> string \<Rightarrow> OperationResult \<Rightarrow> database \<Rightarrow> database \<Rightarrow> bool" where
  "recorded key user requestHash endpoint res d d' \<longleftrightarrow>
     (key, user, endpoint) \<notin> idempotency_key_of ` set (idempotency_records d) \<and>
     \<not> or_Replay res \<and> or_StatusCode res = 200 \<and> success_body (or_Body res) \<and>
     (\<exists>r. idempotency_records d' = idempotency_records d @ [r] \<and>
        idempotency_key_of r = (key, user, endpoint) \<and> ir_RequestHash r = requestHash \<and>
        ir_StatusCode r = or_StatusCode res \<and> ir_ResponseBody r = or_Body res)"

definition reserved ::
  "string \<Rightarrow> uuid \<Rightarrow> string \<Rightarrow> string \<Rightarrow> uuid \<Rightarrow> database \<Rightarrow> database \<Rightarrow> bool" where
  "reserved key user requestHash endpoint rid d d' \<longleftrightarrow>
     (key, user, endpoint) \<notin> idempotency_key_of ` set (idempotency_records d) \<and>
     rid \<notin> ir_ID ` set (idempotency_records d) \<and>
     (\<exists>r. d' = d\<lparr>idempotency_records := idempotency_records d @ [r]\<rparr> \<and> ir_ID r = rid \<and>
        idempotency_key_of r = (key, user, endpoint) \<and> ir_RequestHash r = requestHash)"

lemma reserve_or_replay_spec:
  assumes ok: "db_ok (db s)"
  shows "wp (reserve_or_replay env key user h ep) (\<lambda>r s'. n_time s \<le> n_time s' \<and> db_ok (db s') \<and>
     (case r of
        Inl res \<Rightarrow> db s' = db s \<and> replayed key user h ep res (db s)
      | Inr rid \<Rightarrow> reserved key user h ep rid (db s) (db s'))) (\<lambda>_ _. True) s"
  unfolding reserve_or_replay_def replay_existing_def Let_def
  apply (simp add: wp_rules repository_defs Let_def reservation_def)
  apply (intro impI allI)
  subgoal premises prems for x d
  proof (cases "x = 1")
    case True
    with prems(2) show ?thesis
      using insert_idempotency_ok [OF ok prems(2)]
      by (auto simp: wp_rules reserved_def insert_idempotency_on_conflict_def
          idempotency_key_of_def split: if_splits)
  next
    case False
    with prems(2) have "d = db s"
      by (auto simp: insert_idempotency_on_conflict_def split: if_splits)
    with False ok show ?thesis
      by (auto simp: wp_rules replayed_def idempotency_key_of_def dest!: sql_first_Some)
  qed
  done

lemma recordedI:
  assumes "reserved key user h ep rid d d1"
    and "idempotency_records d2 = map (completed rid 200 (or_Body res) u) (idempotency_records d1)"
    and "or_StatusCode res = 200" and "\<not> or_Replay res" and "success_body (or_Body res)"
  shows "recorded key user h ep res d d2"
proof -
  from assms(1) obtain r where *: "(key, user, ep) \<notin> idempotency_key_of ` set (idempotency_records d)"
     "rid \<notin> ir_ID ` set (idempotency_records d)"
     "d1 = d\<lparr>idempotency_records := idempotency_records d @ [r]\<rparr>" "ir_ID r = rid"
     "idempotency_key_of r = (key, user, ep)" "ir_RequestHash r = h"
    unfolding reserved_def by blast
  have "map (completed rid 200 (or_Body res) u) (idempotency_records d) = idempotency_records d"
    using *(2) by (auto simp: completed_def intro!: map_idI)
  with * assms(2-5) show ?thesis
    by (auto simp: recorded_def completed_def idempotency_key_of_def)
qed

lemma reserved_frame:
  "reserved key user h ep rid d d' \<Longrightarrow> wallets d' = wallets d \<and> users d' = users d \<and>
     transactions d' = transactions d \<and> ledger_entries d' = ledger_entries d"
  by (auto simp: reserved_def)

section \<open>The transaction bodies\<close>

lemma filter_key_unique:
  "distinct (map f xs) \<Longrightarrow> x \<in> set xs \<Longrightarrow> filter (\<lambda>y. f y = f x) xs = [x]"
  by (induction xs) (auto simp: filter_empty_conv image_iff)

lemma topup_posted_earlier:
  "topup_posted env req userID locked s1 s' \<Longrightarrow> n_time s \<le> n_time s1 \<Longrightarrow>
   wallets (db s1) = wallets (db s) \<Longrightarrow> users (db s1) = users (db s) \<Longrightarrow>
   transactions (db s1) = transactions (db s) \<Longrightarrow>
   ledger_entries (db s1) = ledger_entries (db s) \<Longrightarrow> topup_posted env req userID locked s s'"
  unfolding topup_posted_def
  apply (elim exE)
  subgoal for t e w' k
    by (rule exI [of _ t], rule exI [of _ e], rule exI [of _ w'], rule exI [of _ k]) simp
  done

lemma topup_body_spec:
  assumes n: "webhook_notifier n" and ok: "db_ok (db s)"
  shows "wp (topup_body env n req userID) (\<lambda>(res, q) s'.
     db s' = db s \<and> q = None \<and>
       replayed (tu_IdempotencyKey req) userID (tu_RequestHash req) topUpEndpoint res (db s) \<or>
     db_ok (db s') \<and>
     recorded (tu_IdempotencyKey req) userID (tu_RequestHash req) topUpEndpoint res (db s) (db s') \<and>
     (\<exists>locked \<in> set (wallets (db s)). w_UserID locked = userID \<and> w_Status locked = WalletStatusActive \<and>
        topup_posted env req userID locked s s')) (\<lambda>_ _. True) s"
  unfolding topup_body_def
  apply (simp only: wp_and_then)
  apply (rule wp_mono [OF reserve_or_replay_spec [OF ok]])
   defer apply simp
  subgoal premises prems for r s1
  proof (cases r)
    case (Inl res)
    with prems show ?thesis by (simp add: wp_ok)
  next
    case (Inr rid)
    with prems have s1: "n_time s \<le> n_time s1" "db_ok (db s1)"
       and res: "reserved (tu_IdempotencyKey req) userID (tu_RequestHash req) topUpEndpoint rid (db s) (db s1)"
      by simp_all
    show ?thesis
      unfolding Inr
      apply (simp add: wp_rules repository_defs Let_def)
      apply (intro impI allI)
      subgoal premises prems for w
      proof -
        have w: "w \<in> set (wallets (db s1))" "w_UserID w = userID"
          using sql_first_Some [OF prems(2)] by simp_all
        have one: "filter (\<lambda>v. w_ID v = w_ID w) (wallets (db s1)) = [w]"
          using s1(2) w(1) by (intro filter_key_unique) (simp_all add: db_ok_defs)
        let ?s2 = "s1\<lparr>n_sql := Suc (Suc (n_sql s1))\<rparr>"
        have "wp (topup_post env n req userID rid w) (\<lambda>(res, q) s'.
            db_ok (db s') \<and>
            recorded (tu_IdempotencyKey req) userID (tu_RequestHash req) topUpEndpoint res (db s) (db s') \<and>
            topup_posted env req userID w s s') (\<lambda>_ _. True) ?s2"
          by (rule wp_mono [OF topup_post_spec [OF n]])
            (use s1 w(1) reserved_frame [OF res] in
              \<open>auto intro: recordedI [OF res] topup_posted_earlier\<close>)
        then show ?thesis
          using w reserved_frame [OF res]
          unfolding one by (auto simp: wp_rules elim!: wp_mono)
      qed
      done
  qed
  done

lemma transfer_posted_earlier:
  "transfer_posted env req userID a b s1 s' \<Longrightarrow> n_time s \<le> n_time s1 \<Longrightarrow>
   wallets (db s1) = wallets (db s) \<Longrightarrow> users (db s1) = users (db s) \<Longrightarrow>
   transactions (db s1) = transactions (db s) \<Longrightarrow>
   ledger_entries (db s1) = ledger_entries (db s) \<Longrightarrow> transfer_posted env req userID a b s s'"
  unfolding transfer_posted_def
  apply (elim exE)
  subgoal for t e e' ws wr k k'
    by (rule exI [of _ t], rule exI [of _ e], rule exI [of _ e'], rule exI [of _ ws],
        rule exI [of _ wr], rule exI [of _ k], rule exI [of _ k']) simp
  done

lemma walletMap_Some: "walletMap ws i = Some w \<Longrightarrow> w \<in> set ws \<and> w_ID w = i"
  unfolding walletMap_def by (drule map_of_SomeD) auto

lemma transfer_body_spec:
  assumes n: "webhook_notifier n" and ok: "db_ok (db s)"
  shows "wp (transfer_body env n req userID recipientID) (\<lambda>(res, q) s'.
     db s' = db s \<and> q = None \<and>
       replayed (tf_IdempotencyKey req) userID (tf_RequestHash req) transferEndpoint res (db s) \<or>
     db_ok (db s') \<and>
     recorded (tf_IdempotencyKey req) userID (tf_RequestHash req) transferEndpoint res (db s) (db s') \<and>
     (\<exists>sender \<in> set (wallets (db s)). \<exists>recipient \<in> set (wallets (db s)).
        w_UserID sender = userID \<and> w_ID recipient = recipientID \<and> w_ID sender \<noteq> recipientID \<and>
        w_Status sender = WalletStatusActive \<and> w_Status recipient = WalletStatusActive \<and>
        \<not> w_Balance sender <s tf_Amount req \<and>
        transfer_posted env req userID sender recipient s s')) (\<lambda>_ _. True) s"
  unfolding transfer_body_def
  apply (simp only: wp_and_then)
  apply (rule wp_mono [OF reserve_or_replay_spec [OF ok]])
   defer apply simp
  subgoal premises prems for r s1
  proof (cases r)
    case (Inl res)
    with prems show ?thesis by (simp add: wp_ok)
  next
    case (Inr rid)
    with prems have s1: "n_time s \<le> n_time s1" "db_ok (db s1)"
       and res: "reserved (tf_IdempotencyKey req) userID (tf_RequestHash req) transferEndpoint rid (db s) (db s1)"
      by simp_all
    show ?thesis
      unfolding Inr
      apply (simp add: wp_rules repository_defs Let_def split del: if_split)
      apply (intro impI allI)
      subgoal premises prems for w lockedSender lockedRecipient
      proof -
        have w: "w \<in> set (wallets (db s1))" "w_UserID w = userID"
          using sql_first_Some [OF prems(2)] by simp_all
        note locked = prems(6,7)
        let ?s2 = "s1\<lparr>n_sql := Suc (Suc (n_sql s1))\<rparr>"
        have post: "wp (transfer_post env n req userID rid sender recipient) (\<lambda>(res, q) s'.
            db_ok (db s') \<and>
            recorded (tf_IdempotencyKey req) userID (tf_RequestHash req) transferEndpoint res (db s) (db s') \<and>
            transfer_posted env req userID sender recipient s s') (\<lambda>_ _. True) ?s2"
          if "sender \<in> set (wallets (db s))" "recipient \<in> set (wallets (db s))" for sender recipient
          by (rule wp_mono [OF transfer_post_spec [OF n]])
            (use s1 that reserved_frame [OF res] in
              \<open>auto intro: recordedI [OF res] transfer_posted_earlier\<close>)
        have rows: "lockedSender \<in> set (wallets (db s))" "w_ID lockedSender = w_ID w"
          "lockedRecipient \<in> set (wallets (db s))" "w_ID lockedRecipient = recipientID"
          using locked [THEN walletMap_Some] reserved_frame [OF res] by auto
        then have "lockedSender = w"
          using w(1) s1(2) reserved_frame [OF res]
          by (auto simp: db_ok_defs distinct_map dest: inj_onD)
        with w(2) prems(3,6-9) rows show ?thesis
          by (intro wp_mono [OF post [OF rows(1,3)]]) auto
      qed
      done
  qed
  done

end
