(* ===== verification/Money.thy ===== *)
theory Money
  imports Postings
begin

text \<open>
  What \<open>TopUp\<close> and \<open>Transfer\<close> of \<^verbatim>\<open>internal/usecase/transaction.go\<close> guarantee: the three ways a call
  can end, and from them the properties of the money movements.
\<close>

section \<open>How a call ends\<close>

definition topup_done ::
  "env \<Rightarrow> TopUpRequest \<Rightarrow> uuid \<Rightarrow> OperationResult \<Rightarrow> world \<Rightarrow> world \<Rightarrow> bool" where
  "topup_done env req userID res s s' \<longleftrightarrow>
     recorded (tu_IdempotencyKey req) userID (tu_RequestHash req) topUpEndpoint res (db s) (db s') \<and>
     (\<exists>locked \<in> set (wallets (db s)).
        w_UserID locked = userID \<and> w_Status locked = WalletStatusActive \<and>
        topup_posted env req userID locked s s')"

definition transfer_done ::
  "env \<Rightarrow> TransferRequest \<Rightarrow> uuid \<Rightarrow> uuid \<Rightarrow> OperationResult \<Rightarrow> world \<Rightarrow> world \<Rightarrow> bool" where
  "transfer_done env req userID recipientID res s s' \<longleftrightarrow>
     recorded (tf_IdempotencyKey req) userID (tf_RequestHash req) transferEndpoint res (db s) (db s') \<and>
     (\<exists>sender \<in> set (wallets (db s)). \<exists>recipient \<in> set (wallets (db s)).
        w_UserID sender = userID \<and> w_ID recipient = recipientID \<and> w_ID sender \<noteq> recipientID \<and>
        w_Status sender = WalletStatusActive \<and> w_Status recipient = WalletStatusActive \<and>
        \<not> w_Balance sender <s tf_Amount req \<and>
        transfer_posted env req userID sender recipient s s')"

lemma done_cong:
  assumes "db s = db v" "n_time s = n_time v" "db s' = db v'" "n_time s' = n_time v'"
  shows "topup_done env req u res s s' = topup_done env req u res v v'"
    and "transfer_done env treq u i res s s' = transfer_done env treq u i res v v'"
  using assms by (simp_all add: topup_done_def transfer_done_def topup_posted_def transfer_posted_def)

text \<open>
  Both operations: rejected with an application error and unchanged tables, answered from the
  stored record with unchanged tables, or done. A done operation may still be answered with
  an error, when the reply to \<open>COMMIT\<close> was lost.
\<close>

lemma finish_cases:
  assumes n: "webhook_notifier n"
    and run: "finish n (WithinTransaction env body) w = (r, w')"
    and body: "\<And>s. db s = db w \<Longrightarrow> wp body (\<lambda>(res, q) s'.
       db s' = db s \<and> q = None \<and> R res (db s) \<or> db_ok (db s') \<and> D res s s') (\<lambda>_ _. True) s"
    and cong: "\<And>res s s' v v'. db s = db v \<Longrightarrow> n_time s = n_time v \<Longrightarrow> db s' = db v' \<Longrightarrow>
       n_time s' = n_time v' \<Longrightarrow> D res s s' \<Longrightarrow> D res v v'"
  obtains (failed) e where "r = Inl e" and "is_app_error e" and "db w' = db w"
    | (replay) res where "db w' = db w" and "R res (db w)" and "r = Inr res"
    | (posted) res where "db_ok (db w')" and "D res w w'"
        and "r = Inr res \<or> (\<exists>m. r = Inl (Internal (OtherError m)))"
proof -
  obtain r1 w1 where tx: "WithinTransaction env body w = (r1, w1)"
    by (cases "WithinTransaction env body w")
  have fin: "db w' = db w1" "n_time w' = n_time w1"
    and r: "(\<exists>e. r1 = Inl e \<and> r = Inl (apperror_As e)) \<or> (\<exists>x. r1 = Inr x \<and> r = Inr (fst x))"
    using run tx webhook_notifier.enqueue_touches [OF n]
    by (auto simp: finish_def split: sum.splits option.splits)
  from tx show ?thesis
  proof (cases rule: WithinTransaction_cases)
    case (failed e)
    with r fin that(1) [of "apperror_As e"] show ?thesis by auto
  next
    case (ran x w2)
    let ?s = "w\<lparr>n_sql := Suc (n_sql w), sql_session := InTx\<rparr>"
    have answer: "r = Inr (fst x) \<or> (\<exists>m. r = Inl (Internal (OtherError m)))"
      using ran(4) r by auto
    have "db w2 = db ?s \<and> R (fst x) (db ?s) \<or> db_ok (db w2) \<and> D (fst x) ?s w2"
      using wp_Inr [OF body [of ?s] ran(1)] by (auto simp: case_prod_beta)
    then show ?thesis
    proof
      assume "db w2 = db ?s \<and> R (fst x) (db ?s)"
      with answer ran fin show ?thesis by (auto intro: that(1,2))
    next
      assume "db_ok (db w2) \<and> D (fst x) ?s w2"
      with answer ran fin cong [of ?s w w2 w'] show ?thesis
        by (intro that(3) [of "fst x"]) simp_all
    qed
  qed
qed

lemma TopUp_cases:
  assumes n: "webhook_notifier n" and ok: "db_ok (db w)" and run: "TopUp env n req w = (r, w')"
  obtains (failed) e where "r = Inl e" and "is_app_error e" and "db w' = db w"
    | (replay) userID res where "uuid_Parse env (tu_UserID req) = Some userID" and "db w' = db w"
        and "replayed (tu_IdempotencyKey req) userID (tu_RequestHash req) topUpEndpoint res (db w)"
        and "r = Inr res"
    | (posted) userID res where "uuid_Parse env (tu_UserID req) = Some userID"
        and "0 <s tu_Amount req" and "db_ok (db w')" and "topup_done env req userID res w w'"
        and "r = Inr res \<or> (\<exists>m. r = Inl (Internal (OtherError m)))"
proof (cases "tu_IdempotencyKey req = '''' \<or> tu_Amount req \<le>s 0 \<or> uuid_Parse env (tu_UserID req) = None")
  case True
  with run have "\<exists>e. r = Inl e \<and> is_app_error e \<and> db w' = db w"
    by (auto simp: TopUp_def throw_def split: if_splits option.splits)
  then show ?thesis by (auto intro: failed)
next
  case False
  then obtain userID where u: "uuid_Parse env (tu_UserID req) = Some userID" by auto
  have a: "0 <s tu_Amount req"
    using False by (auto simp: word_sle_eq word_sless_alt)
  from False u run have "finish n (WithinTransaction env (topup_body env n req userID)) w = (r, w')"
    by (simp add: TopUp_def)
  from n this show ?thesis
  proof (rule finish_cases [where D = "topup_done env req userID" and
        R = "replayed (tu_IdempotencyKey req) userID (tu_RequestHash req) topUpEndpoint"])
    show "wp (topup_body env n req userID) (\<lambda>(res, q) s'. db s' = db s \<and> q = None \<and>
        replayed (tu_IdempotencyKey req) userID (tu_RequestHash req) topUpEndpoint res (db s) \<or>
        db_ok (db s') \<and> topup_done env req userID res s s') (\<lambda>_ _. True) s"
      if "db s = db w" for s
      using topup_body_spec [OF n, of s env req userID] ok that by (simp add: topup_done_def)
  qed (rule done_cong(1) [THEN iffD1], assumption+, rule failed, assumption+,
      rule replay [OF u], assumption+, rule posted [OF u a], assumption+)
qed

lemma Transfer_cases:
  assumes n: "webhook_notifier n" and ok: "db_ok (db w)" and run: "Transfer env n req w = (r, w')"
  obtains (failed) e where "r = Inl e" and "is_app_error e" and "db w' = db w"
    | (replay) userID res where "uuid_Parse env (tf_UserID req) = Some userID" and "db w' = db w"
        and "replayed (tf_IdempotencyKey req) userID (tf_RequestHash req) transferEndpoint res (db w)"
        and "r = Inr res"
    | (posted) userID recipientID res where "uuid_Parse env (tf_UserID req) = Some userID"
        and "uuid_Parse env (tf_RecipientWalletID req) = Some recipientID"
        and "0 <s tf_Amount req" and "db_ok (db w')"
        and "transfer_done env req userID recipientID res w w'"
        and "r = Inr res \<or> (\<exists>m. r = Inl (Internal (OtherError m)))"
proof (cases "tf_IdempotencyKey req = '''' \<or> tf_Amount req \<le>s 0 \<or>
    uuid_Parse env (tf_UserID req) = None \<or> uuid_Parse env (tf_RecipientWalletID req) = None")
  case True
  with run have "\<exists>e. r = Inl e \<and> is_app_error e \<and> db w' = db w"
    by (auto simp: Transfer_def throw_def split: if_splits option.splits)
  then show ?thesis by (auto intro: failed)
next
  case False
  then obtain userID recipientID where u: "uuid_Parse env (tf_UserID req) = Some userID"
    "uuid_Parse env (tf_RecipientWalletID req) = Some recipientID" by auto
  have a: "0 <s tf_Amount req"
    using False by (auto simp: word_sle_eq word_sless_alt)
  from False u run
  have "finish n (WithinTransaction env (transfer_body env n req userID recipientID)) w = (r, w')"
    by (simp add: Transfer_def)
  from n this show ?thesis
  proof (rule finish_cases [where D = "transfer_done env req userID recipientID" and
        R = "replayed (tf_IdempotencyKey req) userID (tf_RequestHash req) transferEndpoint"])
    show "wp (transfer_body env n req userID recipientID) (\<lambda>(res, q) s'. db s' = db s \<and> q = None \<and>
        replayed (tf_IdempotencyKey req) userID (tf_RequestHash req) transferEndpoint res (db s) \<or>
        db_ok (db s') \<and> transfer_done env req userID recipientID res s s') (\<lambda>_ _. True) s"
      if "db s = db w" for s
      using transfer_body_spec [OF n, of s env req userID recipientID] ok that
      by (simp add: transfer_done_def)
  qed (rule done_cong(2) [THEN iffD1], assumption+, rule failed, assumption+,
      rule replay [OF u(1)], assumption+, rule posted [OF u a], assumption+)
qed

lemma topup_done_effect:
  assumes "topup_done env req userID res w w'" and "db_ok (db w)" "books_ok (db w)"
    and "0 <s tu_Amount req"
  obtains v where "v \<in> set (wallets (db w))" and "w_UserID v = userID" and "books_ok (db w')"
    and "total_balance (db w') = total_balance (db w) + sint (tu_Amount req)"
    and "deposit (w_ID v) (sint (tu_Amount req)) (balances (db w)) = Some (balances (db w'))"
  using assms topup_posted_books [of env req userID _ w w'] unfolding topup_done_def by blast

lemma transfer_done_effect:
  assumes "transfer_done env req userID recipientID res w w'" and "db_ok (db w)" "books_ok (db w)"
    and "0 <s tf_Amount req"
  obtains v v' where "v \<in> set (wallets (db w))" and "w_UserID v = userID" and "w_ID v \<noteq> recipientID"
    and "v' \<in> set (wallets (db w))" and "w_ID v' = recipientID" and "books_ok (db w')"
    and "total_balance (db w') = total_balance (db w)"
    and "move (w_ID v) recipientID (sint (tf_Amount req)) (balances (db w)) = Some (balances (db w'))"
  using assms transfer_posted_books [of env req userID _ _ w w'] unfolding transfer_done_def by blast

section \<open>Properties\<close>

definition books :: "world \<Rightarrow> bool" where
  "books w \<longleftrightarrow> db_ok (db w) \<and> books_ok (db w)"

lemma idempotency_record_unique:
  "db_ok d \<Longrightarrow> r \<in> set (idempotency_records d) \<Longrightarrow> r' \<in> set (idempotency_records d) \<Longrightarrow>
   idempotency_key_of r = idempotency_key_of r' \<Longrightarrow> r = r'"
  by (auto simp: db_ok_defs distinct_map dest: inj_onD)

lemma replayed_stored:
  assumes "replayed key user h ep res d" and "db_ok d" and "stored \<in> set (idempotency_records d)"
    and "idempotency_key_of stored = (key, user, ep)"
  shows "ir_RequestHash stored = h \<and> ir_StatusCode stored \<noteq> 0 \<and>
    res = \<lparr>or_StatusCode = ir_StatusCode stored, or_Body = ir_ResponseBody stored, or_Replay = True\<rparr>"
proof -
  from assms(1) obtain r where r: "r \<in> set (idempotency_records d)"
    "idempotency_key_of r = (key, user, ep)" "ir_RequestHash r = h" "ir_StatusCode r \<noteq> 0"
    "res = \<lparr>or_StatusCode = ir_StatusCode r, or_Body = ir_ResponseBody r, or_Replay = True\<rparr>"
    unfolding replayed_def by blast
  have "r = stored" by (rule idempotency_record_unique [OF assms(2) r(1) assms(3)]) (simp add: r assms)
  with r show ?thesis by simp
qed

lemma not_recorded:
  "recorded key user h ep res d d' \<Longrightarrow> stored \<in> set (idempotency_records d) \<Longrightarrow>
   idempotency_key_of stored \<noteq> (key, user, ep)"
  unfolding recorded_def by (metis imageI)

lemma TopUp_key_reuse:
  assumes "db_ok (db w)" and "stored \<in> set (idempotency_records (db w))"
    and "uuid_Parse env (tu_UserID req) = Some userID"
    and "idempotency_key_of stored = (tu_IdempotencyKey req, userID, topUpEndpoint)"
    and "TopUp env (configured_notifier env hooks) req w = (r, w')"
  shows "db w' = db w \<and>
    (case r of
       Inl e \<Rightarrow> is_app_error e
     | Inr res \<Rightarrow> ir_RequestHash stored = tu_RequestHash req \<and> or_Replay res \<and>
         or_StatusCode res = ir_StatusCode stored \<and> or_Body res = ir_ResponseBody stored)"
  using configured_notifier_ok assms(1,5)
proof (cases rule: TopUp_cases)
  case (replay u res)
  with assms(3,4) replayed_stored [OF replay(3) assms(1,2)] show ?thesis by simp
next
  case (posted u res)
  have "idempotency_key_of stored \<noteq> (tu_IdempotencyKey req, u, topUpEndpoint)"
    using posted(4) unfolding topup_done_def by (blast dest: not_recorded [OF _ assms(2)])
  with assms(3,4) posted(1) show ?thesis by simp
qed auto

lemma Transfer_key_reuse:
  assumes "db_ok (db w)" and "stored \<in> set (idempotency_records (db w))"
    and "uuid_Parse env (tf_UserID req) = Some userID"
    and "idempotency_key_of stored = (tf_IdempotencyKey req, userID, transferEndpoint)"
    and "Transfer env (configured_notifier env hooks) req w = (r, w')"
  shows "db w' = db w \<and>
    (case r of
       Inl e \<Rightarrow> is_app_error e
     | Inr res \<Rightarrow> ir_RequestHash stored = tf_RequestHash req \<and> or_Replay res \<and>
         or_StatusCode res = ir_StatusCode stored \<and> or_Body res = ir_ResponseBody stored)"
  using configured_notifier_ok assms(1,5)
proof (cases rule: Transfer_cases)
  case (replay u res)
  with assms(3,4) replayed_stored [OF replay(3) assms(1,2)] show ?thesis by simp
next
  case (posted u i res)
  have "idempotency_key_of stored \<noteq> (tf_IdempotencyKey req, u, transferEndpoint)"
    using posted(5) unfolding transfer_done_def by (blast dest: not_recorded [OF _ assms(2)])
  with assms(3,4) posted(1) show ?thesis by simp
qed auto

section \<open>The clock\<close>

lemmas clock_unfold =
  topup_body_def transfer_body_def topup_post_def transfer_post_def reserve_or_replay_def
  replay_existing_def reservation_def Let_def

lemma clock_finish:
  assumes "webhook_notifier n" and "preserves (\<lambda>w. k \<le> n_time w) m"
  shows "preserves (\<lambda>w. k \<le> n_time w) (finish n m)"
  unfolding preserves_def
  using assms preserves_snd [OF assms(2)] webhook_notifier.enqueue_touches [OF assms(1)]
  by (fastforce simp: finish_def split: prod.split sum.split option.split)

lemma clock_topup_body:
  assumes "webhook_notifier n"
  shows "preserves (\<lambda>w. k \<le> n_time w) (topup_body env n req u)"
  unfolding clock_unfold repository_defs
  by (intro preserves_intros webhook_notifier.topup_clock [OF assms])

lemma clock_transfer_body:
  assumes "webhook_notifier n"
  shows "preserves (\<lambda>w. k \<le> n_time w) (transfer_body env n req u i)"
  unfolding clock_unfold repository_defs
  by (intro preserves_intros webhook_notifier.transfer_clock [OF assms])

lemma clock_TopUp: 
  assumes "webhook_notifier n"
  shows "preserves (\<lambda>w. k \<le> n_time w) (TopUp env n req)"
  unfolding TopUp_def
  by (intro preserves_intros clock_finish clock_WithinTransaction clock_topup_body assms)

lemma clock_Transfer:
  assumes "webhook_notifier n"
  shows "preserves (\<lambda>w. k \<le> n_time w) (Transfer env n req)"
  unfolding Transfer_def
  by (intro preserves_intros clock_finish clock_WithinTransaction clock_transfer_body assms)

lemma TopUp_stored:
  assumes "db_ok (db w)" and "TopUp env (configured_notifier env hooks) req w = (Inr res, w')"
  obtains userID stored where "uuid_Parse env (tu_UserID req) = Some userID"
    and "stored \<in> set (idempotency_records (db w'))"
    and "idempotency_key_of stored = (tu_IdempotencyKey req, userID, topUpEndpoint)"
    and "ir_StatusCode stored = or_StatusCode res" and "ir_ResponseBody stored = or_Body res"
  using configured_notifier_ok assms
proof (cases rule: TopUp_cases)
  case (replay userID res')
  then show ?thesis using that by (auto simp: replayed_def)
next
  case (posted userID res')
  from posted(4) obtain r where "idempotency_records (db w') = idempotency_records (db w) @ [r]"
    "idempotency_key_of r = (tu_IdempotencyKey req, userID, topUpEndpoint)"
    "ir_StatusCode r = or_StatusCode res'" "ir_ResponseBody r = or_Body res'"
    unfolding topup_done_def recorded_def by blast
  with posted(1,5) show ?thesis by (intro that [of userID r]) auto
qed simp

lemma Transfer_stored:
  assumes "db_ok (db w)" and "Transfer env (configured_notifier env hooks) req w = (Inr res, w')"
  obtains userID stored where "uuid_Parse env (tf_UserID req) = Some userID"
    and "stored \<in> set (idempotency_records (db w'))"
    and "idempotency_key_of stored = (tf_IdempotencyKey req, userID, transferEndpoint)"
    and "ir_StatusCode stored = or_StatusCode res" and "ir_ResponseBody stored = or_Body res"
  using configured_notifier_ok assms
proof (cases rule: Transfer_cases)
  case (replay userID res')
  then show ?thesis using that by (auto simp: replayed_def)
next
  case (posted userID recipientID res')
  from posted(5) obtain r where "idempotency_records (db w') = idempotency_records (db w) @ [r]"
    "idempotency_key_of r = (tf_IdempotencyKey req, userID, transferEndpoint)"
    "ir_StatusCode r = or_StatusCode res'" "ir_ResponseBody r = or_Body res'"
    unfolding transfer_done_def recorded_def by blast
  with posted(1,6) show ?thesis by (intro that [of userID r]) auto
qed simp

end
