(* ===== verification/Reconciliation.thy ===== *)
theory Reconciliation
  imports Responses Accounts "HOL-Library.Multiset"
begin

text \<open>
  The reconciliation report, \<^verbatim>\<open>internal/usecase/reconciliation.go\<close>: it reads the wallets, the
  transactions and the ledger entries, checks each entry, each wallet's chain of entries and
  each transaction's entries, and lists what is wrong. The model keeps the issues with their
  texts and the arithmetic on \<open>int64\<close> with its wrap-around, as the code computes it.

  The lemmas characterise the report: it is healthy exactly when the declarative predicate
  \<open>consistent\<close> holds.
\<close>

section \<open>The report\<close>

record WalletIssue =
  wi_WalletID :: string
  wi_UserID :: string
  wi_StoredBalance :: int64
  wi_DerivedBalance :: int64
  wi_LedgerEntryCount :: int
  wi_Reason :: string

record TransactionIssue =
  ti_TransactionID :: string
  ti_TransactionRef :: string
  ti_Type :: string
  ti_Amount :: int64
  ti_LedgerEntryIDs :: "string list"
  ti_Reason :: string

record LedgerIssue =
  li_LedgerEntryID :: string
  li_TransactionID :: string
  li_WalletID :: string
  li_Reason :: string

record ReconciliationSummary =
  rs_WalletsChecked :: int
  rs_TransactionsChecked :: int
  rs_LedgerEntriesChecked :: int
  rs_WalletBalanceMismatchCount :: int
  rs_TransactionIssueCount :: int
  rs_LedgerIssueCount :: int
  rs_IssueCount :: int

record ReconciliationResponse =
  rr_CheckedAt :: time
  rr_Healthy :: bool
  rr_Summary :: ReconciliationSummary
  rr_Wallets :: "WalletIssue list"
  rr_Transactions :: "TransactionIssue list"
  rr_LedgerEntries :: "LedgerIssue list"

definition newTransactionIssue ::
  "env \<Rightarrow> Transaction \<Rightarrow> LedgerEntry list \<Rightarrow> string \<Rightarrow> TransactionIssue" where
  "newTransactionIssue env transaction entries reason =
     \<lparr>ti_TransactionID = uuid_String env (t_ID transaction),
      ti_TransactionRef = t_TransactionRef transaction,
      ti_Type = transaction_type_string (t_Type transaction), ti_Amount = t_Amount transaction,
      ti_LedgerEntryIDs = map (\<lambda>e. uuid_String env (le_ID e)) entries, ti_Reason = reason\<rparr>"

definition newLedgerIssue :: "env \<Rightarrow> LedgerEntry \<Rightarrow> string \<Rightarrow> LedgerIssue" where
  "newLedgerIssue env entry reason =
     \<lparr>li_LedgerEntryID = uuid_String env (le_ID entry),
      li_TransactionID = uuid_String env (le_TransactionID entry),
      li_WalletID = uuid_String env (le_WalletID entry), li_Reason = reason\<rparr>"

section \<open>The checks\<close>

definition walletGenesisBalance :: int64 where
  "walletGenesisBalance = 0"

text \<open>
  By time, entries of equal time by the text of their identifiers. (\<open>sort.Slice\<close> may reorder
  equal elements; entries with different identifiers are never equal.)
\<close>

definition sortLedgerEntries :: "env \<Rightarrow> LedgerEntry list \<Rightarrow> LedgerEntry list" where
  "sortLedgerEntries env entries =
     sort_key (\<lambda>e. (le_CreatedAt e, uuid_String env (le_ID e))) entries"

definition validateLedgerEntryMath :: "LedgerEntry \<Rightarrow> string" where
  "validateLedgerEntryMath entry =
     (let positive = (if le_Amount entry \<le>s 0 then ''ledger entry amount must be positive'' else '''') in
      case le_EntryType entry of
        LedgerEntryTypeCredit \<Rightarrow>
          if le_BalanceAfter entry - le_BalanceBefore entry \<noteq> le_Amount entry
          then ''credit ledger entry does not satisfy balance_after - balance_before == amount''
          else positive
      | LedgerEntryTypeDebit \<Rightarrow>
          if le_BalanceBefore entry - le_BalanceAfter entry \<noteq> le_Amount entry
          then ''debit ledger entry does not satisfy balance_before - balance_after == amount''
          else positive
      | LedgerEntryTypeOther _ \<Rightarrow> ''ledger entry type is not recognized by reconciliation'')"

text \<open>
  The loop of \<open>validateWalletLedgerChain\<close>: what the next entry must start from, and the reason
  given when it does not.
\<close>

fun chain_issues :: "env \<Rightarrow> int64 \<Rightarrow> string \<Rightarrow> LedgerEntry list \<Rightarrow> LedgerIssue list" where
  "chain_issues env expectedBefore reason [] = []"
| "chain_issues env expectedBefore reason (entry # entries) =
     (if le_BalanceBefore entry \<noteq> expectedBefore then [newLedgerIssue env entry reason] else []) @
     chain_issues env (le_BalanceAfter entry) ''ledger balance chain is broken for this wallet'' entries"

definition validateWalletLedgerChain :: "env \<Rightarrow> Wallet \<Rightarrow> LedgerEntry list \<Rightarrow> LedgerIssue list" where
  "validateWalletLedgerChain env wallet entries =
     chain_issues env walletGenesisBalance
       ''first ledger entry must start from wallet genesis balance 0'' entries"

definition issue_if :: "bool \<Rightarrow> 'a \<Rightarrow> 'a list" where
  "issue_if b x = (if b then [x] else [])"

definition validateTopUpTransaction ::
  "env \<Rightarrow> Transaction \<Rightarrow> LedgerEntry list \<Rightarrow> TransactionIssue list" where
  "validateTopUpTransaction env transaction entries =
     (let issue = newTransactionIssue env transaction entries in
      issue_if (t_SourceWalletID transaction \<noteq> None)
        (issue ''top up transaction must not have a source wallet'') @
      issue_if (t_DestinationWalletID transaction = None)
        (issue ''top up transaction must have a destination wallet'') @
      (case entries of
         [entry] \<Rightarrow>
           issue_if (t_DestinationWalletID transaction \<noteq> None \<and>
                     t_DestinationWalletID transaction \<noteq> Some (le_WalletID entry))
             (issue ''top up ledger entry wallet does not match destination wallet'') @
           issue_if (le_EntryType entry \<noteq> LedgerEntryTypeCredit)
             (issue ''top up ledger entry must be a CREDIT'') @
           issue_if (le_Amount entry \<noteq> t_Amount transaction)
             (issue ''top up ledger amount does not match transaction amount'')
       | _ \<Rightarrow> [issue ''top up transaction must have exactly one ledger entry'']))"

text \<open>The loop of \<open>validateTransferTransaction\<close>, left at the first entry of another amount.\<close>

fun transfer_scan ::
  "Transaction \<Rightarrow> TransactionIssue \<Rightarrow> LedgerEntry list \<Rightarrow> bool \<Rightarrow> bool \<Rightarrow>
   TransactionIssue list \<times> bool \<times> bool" where
  "transfer_scan transaction mismatch [] foundDebit foundCredit = ([], foundDebit, foundCredit)"
| "transfer_scan transaction mismatch (entry # entries) foundDebit foundCredit =
     (if le_Amount entry \<noteq> t_Amount transaction then ([mismatch], foundDebit, foundCredit)
      else transfer_scan transaction mismatch entries
        (foundDebit \<or> t_SourceWalletID transaction = Some (le_WalletID entry) \<and>
                      le_EntryType entry = LedgerEntryTypeDebit)
        (foundCredit \<or> t_DestinationWalletID transaction = Some (le_WalletID entry) \<and>
                       le_EntryType entry = LedgerEntryTypeCredit))"

definition validateTransferTransaction ::
  "env \<Rightarrow> Transaction \<Rightarrow> LedgerEntry list \<Rightarrow> TransactionIssue list" where
  "validateTransferTransaction env transaction entries =
     (let issue = newTransactionIssue env transaction entries in
      issue_if (t_SourceWalletID transaction = None)
        (issue ''transfer transaction must have a source wallet'') @
      issue_if (t_DestinationWalletID transaction = None)
        (issue ''transfer transaction must have a destination wallet'') @
      issue_if (t_SourceWalletID transaction \<noteq> None \<and> t_DestinationWalletID transaction \<noteq> None \<and>
                t_SourceWalletID transaction = t_DestinationWalletID transaction)
        (issue ''transfer transaction source and destination wallets must differ'') @
      (if length entries \<noteq> 2
       then [issue ''transfer transaction must have exactly two ledger entries'']
       else case transfer_scan transaction
                   (issue ''transfer ledger amounts must match transaction amount'') entries False False of
         (issues, foundDebit, foundCredit) \<Rightarrow>
           issues @
           issue_if (\<not> foundDebit)
             (issue ''transfer transaction is missing the source-wallet DEBIT ledger entry'') @
           issue_if (\<not> foundCredit)
             (issue ''transfer transaction is missing the destination-wallet CREDIT ledger entry'')))"

section \<open>reconcileState\<close>

definition walletsByID :: "Wallet list \<Rightarrow> uuid \<Rightarrow> Wallet option" where
  "walletsByID ws = map_of (map (\<lambda>w. (w_ID w, w)) (rev ws))"

definition transactionsByID :: "Transaction list \<Rightarrow> uuid \<Rightarrow> Transaction option" where
  "transactionsByID ts = map_of (map (\<lambda>t. (t_ID t, t)) (rev ts))"

definition entry_issues ::
  "env \<Rightarrow> Wallet list \<Rightarrow> Transaction list \<Rightarrow> LedgerEntry \<Rightarrow> LedgerIssue list" where
  "entry_issues env ws ts entry =
     issue_if (walletsByID ws (le_WalletID entry) = None)
       (newLedgerIssue env entry ''ledger entry references a wallet that does not exist'') @
     issue_if (transactionsByID ts (le_TransactionID entry) = None)
       (newLedgerIssue env entry ''ledger entry is orphaned from any transaction'') @
     issue_if (validateLedgerEntryMath entry \<noteq> '''')
       (newLedgerIssue env entry (validateLedgerEntryMath entry))"

definition ledgersByWallet ::
  "Wallet list \<Rightarrow> LedgerEntry list \<Rightarrow> uuid \<Rightarrow> LedgerEntry list" where
  "ledgersByWallet ws entries i =
     filter (\<lambda>e. walletsByID ws (le_WalletID e) \<noteq> None \<and> le_WalletID e = i) entries"

definition ledgersByTransaction ::
  "Transaction list \<Rightarrow> LedgerEntry list \<Rightarrow> uuid \<Rightarrow> LedgerEntry list" where
  "ledgersByTransaction ts entries i =
     filter (\<lambda>e. transactionsByID ts (le_TransactionID e) \<noteq> None \<and>
                 le_TransactionID e = i) entries"

fun derivedBalance :: "int64 \<Rightarrow> LedgerEntry list \<Rightarrow> int64" where
  "derivedBalance b [] = b"
| "derivedBalance b (entry # entries) =
     derivedBalance
       (case le_EntryType entry of
          LedgerEntryTypeCredit \<Rightarrow> b + le_Amount entry
        | LedgerEntryTypeDebit \<Rightarrow> b - le_Amount entry
        | LedgerEntryTypeOther _ \<Rightarrow> b) entries"

definition wallet_issues :: "env \<Rightarrow> Wallet \<Rightarrow> LedgerEntry list \<Rightarrow> WalletIssue list" where
  "wallet_issues env wallet entries =
     issue_if (derivedBalance 0 entries \<noteq> w_Balance wallet)
       \<lparr>wi_WalletID = uuid_String env (w_ID wallet), wi_UserID = uuid_String env (w_UserID wallet),
        wi_StoredBalance = w_Balance wallet, wi_DerivedBalance = derivedBalance 0 entries,
        wi_LedgerEntryCount = int (length entries),
        wi_Reason = ''wallet balance does not match ledger-derived balance''\<rparr>"

definition transaction_issues ::
  "env \<Rightarrow> Transaction \<Rightarrow> LedgerEntry list \<Rightarrow> TransactionIssue list" where
  "transaction_issues env transaction entries =
     (case t_Type transaction of
        TransactionTypeTopUp \<Rightarrow> validateTopUpTransaction env transaction entries
      | TransactionTypeTransfer \<Rightarrow> validateTransferTransaction env transaction entries
      | TransactionTypeOther _ \<Rightarrow>
          [newTransactionIssue env transaction entries
             ''transaction type is not recognized by reconciliation''])"

definition reconcileState ::
  "env \<Rightarrow> time \<Rightarrow> Wallet list \<Rightarrow> Transaction list \<Rightarrow> LedgerEntry list \<Rightarrow> ReconciliationResponse" where
  "reconcileState env checkedAt ws ts entries =
     (let wallet_entries = (\<lambda>w. sortLedgerEntries env (ledgersByWallet ws entries (w_ID w)));
          transaction_entries =
            (\<lambda>t. sortLedgerEntries env (ledgersByTransaction ts entries (t_ID t)));
          ledgerIssues = concat (map (entry_issues env ws ts) entries) @
            concat (map (\<lambda>w. validateWalletLedgerChain env w (wallet_entries w)) ws);
          walletIssues = concat (map (\<lambda>w. wallet_issues env w (wallet_entries w)) ws);
          transactionIssues =
            concat (map (\<lambda>t. transaction_issues env t (transaction_entries t)) ts);
          summary = \<lparr>rs_WalletsChecked = int (length ws),
            rs_TransactionsChecked = int (length ts),
            rs_LedgerEntriesChecked = int (length entries),
            rs_WalletBalanceMismatchCount = int (length walletIssues),
            rs_TransactionIssueCount = int (length transactionIssues),
            rs_LedgerIssueCount = int (length ledgerIssues),
            rs_IssueCount = int (length walletIssues) + int (length transactionIssues) +
              int (length ledgerIssues)\<rparr>
      in \<lparr>rr_CheckedAt = checkedAt, rr_Healthy = (rs_IssueCount summary = 0), rr_Summary = summary,
          rr_Wallets = walletIssues, rr_Transactions = transactionIssues,
          rr_LedgerEntries = ledgerIssues\<rparr>)"

section \<open>Run\<close>

definition Reconciliation_Run :: "env \<Rightarrow> string \<Rightarrow> ReconciliationResponse go" where
  "Reconciliation_Run env actorUserID =
     and_then (parse_id env ''invalid user id'' actorUserID) (\<lambda>actorID.
     and_then (internal_error (Reconciliation_ListWallets env)) (\<lambda>wallets.
     and_then (internal_error (Reconciliation_ListTransactions env)) (\<lambda>transactions.
     and_then (internal_error (Reconciliation_ListLedgerEntries env)) (\<lambda>ledgerEntries.
     and_then (now env) (\<lambda>checkedAt.
     let report = reconcileState env checkedAt wallets transactions ledgerEntries;
         summary = rr_Summary report in
     and_then (new_uuid env) (\<lambda>auditID.
     and_then (now env) (\<lambda>auditTime.
     and_then (internal_error (Audits_Create env
         \<lparr>al_ID = auditID, al_ActorUserID = Some actorID, al_Action = ''ADMIN_RUN_RECONCILIATION'',
          al_EntityType = ''reconciliation'', al_EntityID = None,
          al_Metadata = JObject
            [(''healthy'', JBool (rr_Healthy report)),
             (''issue_count'', JInt (rs_IssueCount summary)),
             (''ledger_entries_checked'', JInt (rs_LedgerEntriesChecked summary)),
             (''transactions_checked'', JInt (rs_TransactionsChecked summary)),
             (''wallets_checked'', JInt (rs_WalletsChecked summary))],
          al_CreatedAt = auditTime\<rparr>)) (\<lambda>_. ok report))))))))"

section \<open>What a healthy report means\<close>

text \<open>
  \<open>linked\<close> is the chain of a wallet in the wrapping arithmetic of the report; \<open>consistent\<close>
  puts together what the three parts of the report check. The entries of a transaction may be
  in any order.
\<close>

definition entry_balanced :: "LedgerEntry \<Rightarrow> bool" where
  "entry_balanced e \<longleftrightarrow> 0 <s le_Amount e \<and>
     (case le_EntryType e of
        LedgerEntryTypeCredit \<Rightarrow> le_BalanceAfter e = le_BalanceBefore e + le_Amount e
      | LedgerEntryTypeDebit \<Rightarrow> le_BalanceAfter e = le_BalanceBefore e - le_Amount e
      | LedgerEntryTypeOther _ \<Rightarrow> False)"

fun linked :: "int64 \<Rightarrow> LedgerEntry list \<Rightarrow> int64 \<Rightarrow> bool" where
  "linked b [] b' \<longleftrightarrow> b = b'"
| "linked b (e # es) b' \<longleftrightarrow> le_BalanceBefore e = b \<and> entry_balanced e \<and> linked (le_BalanceAfter e) es b'"

definition consistent :: "env \<Rightarrow> Wallet list \<Rightarrow> Transaction list \<Rightarrow> LedgerEntry list \<Rightarrow> bool" where
  "consistent env ws ts es \<longleftrightarrow>
     (\<forall>e \<in> set es. le_WalletID e \<in> w_ID ` set ws \<and> le_TransactionID e \<in> t_ID ` set ts) \<and>
     (\<forall>w \<in> set ws. linked 0 (sortLedgerEntries env (entries_of_wallet es (w_ID w))) (w_Balance w)) \<and>
     (\<forall>t \<in> set ts. \<exists>es'. mset es' = mset (entries_of_transaction es (t_ID t)) \<and> posted_ok t es')"

lemma issue_if_Nil [simp]: "issue_if b x = [] \<longleftrightarrow> \<not> b"
  by (simp add: issue_if_def)

lemma walletsByID_None: "walletsByID ws i = None \<longleftrightarrow> i \<notin> w_ID ` set ws"
  by (simp add: walletsByID_def map_of_eq_None_iff image_image)

lemma transactionsByID_None: "transactionsByID ts i = None \<longleftrightarrow> i \<notin> t_ID ` set ts"
  by (simp add: transactionsByID_def map_of_eq_None_iff image_image)

lemma ledgersByWallet_row:
  "w \<in> set ws \<Longrightarrow> ledgersByWallet ws es (w_ID w) = entries_of_wallet es (w_ID w)"
  unfolding ledgersByWallet_def entries_of_wallet_def
  by (rule filter_cong) (auto simp: walletsByID_None)

lemma ledgersByTransaction_row:
  "t \<in> set ts \<Longrightarrow> ledgersByTransaction ts es (t_ID t) = entries_of_transaction es (t_ID t)"
  unfolding ledgersByTransaction_def entries_of_transaction_def
  by (rule filter_cong) (auto simp: transactionsByID_None)

lemma validateLedgerEntryMath_ok: "validateLedgerEntryMath e = '''' \<longleftrightarrow> entry_balanced e"
  by (auto simp: validateLedgerEntryMath_def entry_balanced_def Let_def diff_eq_eq
      word_sle_eq word_sless_alt algebra_simps split: LedgerEntryType.split)

lemma derivedBalance_linked:
  "\<forall>e \<in> set es. entry_balanced e \<Longrightarrow>
   linked b es b' \<longleftrightarrow> chain_issues env b reason es = [] \<and> derivedBalance b es = b'"
proof (induction es arbitrary: b reason)
  case (Cons e es)
  then have "(case le_EntryType e of LedgerEntryTypeCredit \<Rightarrow> le_BalanceBefore e + le_Amount e
      | LedgerEntryTypeDebit \<Rightarrow> le_BalanceBefore e - le_Amount e
      | LedgerEntryTypeOther _ \<Rightarrow> le_BalanceBefore e) = le_BalanceAfter e"
    by (auto simp: entry_balanced_def split: LedgerEntryType.splits)
  with Cons.prems Cons.IH [of "le_BalanceAfter e" "''ledger balance chain is broken for this wallet''"]
  show ?case by auto
qed simp

lemma linked_balanced: "linked b es b' \<Longrightarrow> e \<in> set es \<Longrightarrow> entry_balanced e"
  by (induction es arbitrary: b) auto

lemma topup_issues_ok:
  assumes "t_Type t = TransactionTypeTopUp"
  shows "validateTopUpTransaction env t es = [] \<longleftrightarrow> posted_ok t es"
  using assms
  by (auto simp: validateTopUpTransaction_def posted_ok_def Let_def split: list.splits option.splits)

lemma mset_pair: "mset xs = mset [a, b] \<longleftrightarrow> xs = [a, b] \<or> xs = [b, a]"
proof
  assume m: "mset xs = mset [a, b]"
  then have "length xs = length [a, b]" by (rule mset_eq_length)
  then obtain x y where "xs = [x, y]" by (auto simp: length_Suc_conv)
  with m show "xs = [a, b] \<or> xs = [b, a]" by (auto simp: add_eq_conv_ex)
qed auto

lemma transfer_issues_ok:
  assumes "t_Type t = TransactionTypeTransfer"
  shows "validateTransferTransaction env t es = [] \<longleftrightarrow> (\<exists>es'. mset es' = mset es \<and> posted_ok t es')"
proof (cases "length es = 2")
  case True
  then obtain e e' where es: "es = [e, e']"
    by (auto simp: length_Suc_conv numeral_2_eq_2)
  have perm: "mset es' = mset es \<longleftrightarrow> es' = [e, e'] \<or> es' = [e', e]" for es'
    unfolding es by (rule mset_pair)
  show ?thesis
    using assms unfolding perm
    by (cases "t_SourceWalletID t"; cases "t_DestinationWalletID t"; cases "le_EntryType e";
        cases "le_EntryType e'")
      (simp_all add: es validateTransferTransaction_def posted_ok_def Let_def, auto)
next
  case False
  then have "\<not> posted_ok t es'" if "mset es' = mset es" for es'
    using assms that by (auto simp: posted_ok_def dest: mset_eq_length)
  with False show ?thesis
    by (auto simp: validateTransferTransaction_def Let_def)
qed

lemma sortLedgerEntries_facts [simp]:
  "set (sortLedgerEntries env es) = set es" "length (sortLedgerEntries env es) = length es"
  "mset (sortLedgerEntries env es) = mset es"
  by (simp_all add: sortLedgerEntries_def)

lemma posted_ok_singleton:
  "t_Type t = TransactionTypeTopUp \<Longrightarrow> posted_ok t es' \<Longrightarrow> mset es' = mset es \<Longrightarrow> es' = es"
  by (auto simp: posted_ok_def) 

lemma transaction_issues_ok:
  "transaction_issues env t es = [] \<longleftrightarrow> (\<exists>es'. mset es' = mset es \<and> posted_ok t es')"
proof (cases "t_Type t")
  case TransactionTypeTopUp
  then show ?thesis
    by (auto simp: transaction_issues_def topup_issues_ok dest: posted_ok_singleton)
next
  case TransactionTypeTransfer
  then show ?thesis by (simp add: transaction_issues_def transfer_issues_ok)
next
  case (TransactionTypeOther s)
  then show ?thesis by (simp add: transaction_issues_def posted_ok_def)
qed

lemma entry_issues_ok:
  "entry_issues env ws ts e = [] \<longleftrightarrow>
     le_WalletID e \<in> w_ID ` set ws \<and> le_TransactionID e \<in> t_ID ` set ts \<and> entry_balanced e"
  by (auto simp: entry_issues_def walletsByID_None transactionsByID_None validateLedgerEntryMath_ok)

lemma wallet_checks_ok:
  assumes "\<forall>e \<in> set es. entry_balanced e"
  shows "validateWalletLedgerChain env w es = [] \<and> wallet_issues env w es = [] \<longleftrightarrow>
    linked 0 es (w_Balance w)"
  using derivedBalance_linked [OF assms, of 0 "w_Balance w" env
      "''first ledger entry must start from wallet genesis balance 0''"]
  by (auto simp: validateWalletLedgerChain_def wallet_issues_def walletGenesisBalance_def)

lemma report_healthy:
  "rr_Healthy (reconcileState env at ws ts es) \<longleftrightarrow>
     rr_Wallets (reconcileState env at ws ts es) = [] \<and>
     rr_Transactions (reconcileState env at ws ts es) = [] \<and>
     rr_LedgerEntries (reconcileState env at ws ts es) = []"
proof -
  have empty: "int (length as) + int (length bs) + int (length cs) = 0 \<longleftrightarrow> as = [] \<and> bs = [] \<and> cs = []"
    for as :: "WalletIssue list" and bs :: "TransactionIssue list" and cs :: "LedgerIssue list"
    by (cases as; cases bs; cases cs) simp_all
  show ?thesis
    unfolding reconcileState_def Let_def
    by (simp only: ReconciliationResponse.select_convs ReconciliationSummary.select_convs empty)
qed

lemma report_consistent:
  "rr_Healthy (reconcileState env checkedAt ws ts es) \<longleftrightarrow> consistent env ws ts es"
proof -
  let ?W = "\<lambda>w. sortLedgerEntries env (entries_of_wallet es (w_ID w))"
  let ?T = "\<lambda>t. sortLedgerEntries env (entries_of_transaction es (t_ID t))"
  have "rr_Healthy (reconcileState env checkedAt ws ts es) \<longleftrightarrow>
      (\<forall>e \<in> set es. entry_issues env ws ts e = []) \<and>
      (\<forall>w \<in> set ws. validateWalletLedgerChain env w (?W w) = [] \<and> wallet_issues env w (?W w) = []) \<and>
      (\<forall>t \<in> set ts. transaction_issues env t (?T t) = [])"
    unfolding report_healthy
    by (auto simp: reconcileState_def Let_def ledgersByWallet_row ledgersByTransaction_row)
  also have "\<dots> \<longleftrightarrow> consistent env ws ts es"
  proof (cases "\<forall>e \<in> set es. entry_issues env ws ts e = []")
    case True
    then have "\<forall>e \<in> set (?W w). entry_balanced e" for w
      by (auto simp: entry_issues_ok entries_of_wallet_def)
    from wallet_checks_ok [OF this] True show ?thesis
      by (simp only: consistent_def transaction_issues_ok entry_issues_ok sortLedgerEntries_facts) blast
  next
    case False
    then obtain e where e: "e \<in> set es" "entry_issues env ws ts e \<noteq> []" by auto
    have "\<not> consistent env ws ts es"
    proof
      assume c: "consistent env ws ts es"
      with e(1) obtain w where w: "w \<in> set ws" "le_WalletID e = w_ID w"
        by (auto simp: consistent_def)
      then have "e \<in> set (?W w)" using e(1) by (simp add: entries_of_wallet_def)
      moreover from c w(1) have "linked 0 (?W w) (w_Balance w)" by (simp add: consistent_def)
      ultimately have "entry_balanced e" by (auto intro: linked_balanced)
      with c e show False by (auto simp: consistent_def entry_issues_ok)
    qed
    with False show ?thesis by blast
  qed
  finally show ?thesis .
qed

lemma sint_exact:
  fixes a b c :: int64
  shows "sint a = sint b + sint c \<Longrightarrow> a = b + c" and "sint a = sint b - sint c \<Longrightarrow> a = b - c"
proof -
  assume "sint a = sint b + sint c"
  then have "word_of_int (sint a) = (word_of_int (sint b + sint c) :: int64)"
    by (rule arg_cong)
  then show "a = b + c" by simp
next
  assume "sint a = sint b - sint c"
  then have "word_of_int (sint a) = (word_of_int (sint b - sint c) :: int64)"
    by (rule arg_cong)
  then show "a = b - c" by simp
qed

lemma entry_math_balanced: "entry_math e \<Longrightarrow> entry_balanced e"
  by (auto simp: entry_math_def entry_balanced_def word_sless_alt sint_exact
      split: LedgerEntryType.splits)

lemma chain_linked: "chain b es b' \<Longrightarrow> linked b es b'"
  by (induction es arbitrary: b) (auto simp: entry_math_balanced)

text \<open>The entries of a wallet carry ascending times, in the order in which they were posted.\<close>

definition ascending :: "LedgerEntry list \<Rightarrow> uuid \<Rightarrow> bool" where
  "ascending es i \<longleftrightarrow> sorted_wrt (<) (map le_CreatedAt (entries_of_wallet es i))"

text \<open>Then sorting restores that order, in whatever order the entries were read.\<close>

lemma sortLedgerEntries_restores:
  assumes "mset xs = mset es" and "sorted_wrt (<) (map le_CreatedAt es)"
  shows "sortLedgerEntries env xs = es"
proof -
  let ?key = "\<lambda>e. (le_CreatedAt e, uuid_String env (le_ID e))"
  have "sorted (map ?key es)"
    using assms(2) by (simp add: sorted_wrt_map) (erule sorted_wrt_mono_rel [rotated], simp add: less_eq_prod_def)
  moreover have "distinct (map le_CreatedAt es)" using assms(2) by (simp add: strict_sorted_iff)
  then have "inj_on ?key (set xs)" using mset_eq_setD [OF assms(1)] by (auto simp: distinct_map inj_on_def)
  ultimately show ?thesis
    unfolding sortLedgerEntries_def by (intro sort_key_inj_key_eq assms(1))
qed

lemma consistent_books:
  assumes "db_ok d" and "books_ok d" and "\<forall>w \<in> set (wallets d). ascending (ledger_entries d) (w_ID w)"
    and "set ws = set (wallets d)" and "set ts = set (transactions d)"
    and es: "mset es = mset (ledger_entries d)"
  shows "consistent env ws ts es"
  unfolding consistent_def
proof (intro conjI ballI)
  fix w assume w: "w \<in> set ws"
  have "mset (entries_of_wallet es (w_ID w)) = mset (entries_of_wallet (ledger_entries d) (w_ID w))"
    using es by (simp add: entries_of_wallet_def)
  from sortLedgerEntries_restores [OF this] w assms(2,3,4)
  show "linked 0 (sortLedgerEntries env (entries_of_wallet es (w_ID w))) (w_Balance w)"
    by (simp add: ascending_def books_ok_def chains_ok_def chain_linked)
next
  fix t assume "t \<in> set ts"
  with assms(2,5) have "posted_ok t (entries_of_transaction (ledger_entries d) (t_ID t))"
    by (auto simp: books_ok_def shapes_ok_def)
  moreover have "mset (entries_of_transaction es (t_ID t)) = mset (entries_of_transaction (ledger_entries d) (t_ID t))"
    using es by (simp add: entries_of_transaction_def)
  ultimately show "\<exists>es'. mset es' = mset (entries_of_transaction es (t_ID t)) \<and> posted_ok t es'" by metis
qed (use assms(1,4,5) mset_eq_setD [OF es] in \<open>auto simp: db_ok_defs has_wallet_def has_transaction_def\<close>)

lemma derivedBalance_sum:
  "derivedBalance b es = b + word_of_int (sum_list (map entry_delta es))"
proof (induction es arbitrary: b)
  case (Cons e es)
  then show ?case by (cases "le_EntryType e") (simp_all add: entry_delta_def)
qed simp

lemma sum_list_sortLedgerEntries:
  "sum_list (map f (sortLedgerEntries env es)) = (sum_list (map f es) :: int)"
  by (metis mset_map sortLedgerEntries_facts(3) sum_mset_sum_list)

lemma aside_Reconciliation_Run: "preserves (aside w) (Reconciliation_Run env actor)"
  unfolding Reconciliation_Run_def Reconciliation_ListWallets_def Reconciliation_ListTransactions_def
    Reconciliation_ListLedgerEntries_def Let_def
  by (intro preserves_intros)

lemma Reconciliation_Run_report:
  "wp (Reconciliation_Run env actor) (\<lambda>report _. \<exists>checkedAt. report = reconcileState env checkedAt
      (sort_key (\<lambda>w. (w_CreatedAt w, w_ID w)) (wallets (db w)))
      (sort_key (\<lambda>t. (t_CreatedAt t, t_ID t)) (transactions (db w)))
      (sort_key (\<lambda>e. (le_CreatedAt e, le_ID e)) (ledger_entries (db w)))) (\<lambda>_ _. True) w"
  unfolding Reconciliation_Run_def Reconciliation_ListWallets_def Reconciliation_ListTransactions_def
    Reconciliation_ListLedgerEntries_def Audits_Create_def Let_def
  by (auto simp: wp_rules split: option.split)

text \<open>
  Without ascending times the report finds fault with books that are in order: two movements of a
  wallet at the same reading of the clock, the identifiers of their entries in the other order, or
  at a reading that went back.
\<close>

lemma clock_not_ascending:
  assumes "linked 0 [e, e'] b"
    and "(le_CreatedAt e', uuid_String env (le_ID e')) < (le_CreatedAt e, uuid_String env (le_ID e))"
  shows "validateWalletLedgerChain env wallet (sortLedgerEntries env [e, e']) \<noteq> []"
proof -
  have "sortLedgerEntries env [e, e'] = [e', e]"
    using assms(2) by (auto simp: sortLedgerEntries_def)
  moreover have "le_BalanceBefore e' \<noteq> 0"
    using assms(1) by (auto simp: entry_balanced_def split: LedgerEntryType.splits)
  ultimately show ?thesis
    by (simp add: validateWalletLedgerChain_def walletGenesisBalance_def)
qed

end
