(* ===== verification/Auth.thy ===== *)
theory Auth
  imports Responses Accounts
begin

text \<open>
  Registration and login, \<^verbatim>\<open>internal/usecase/auth.go\<close>, with the functions of the \<open>strings\<close>
  package they call, \<^verbatim>\<open>internal/pkg/hash/bcrypt.go\<close> and \<open>GenerateToken\<close> of
  \<^verbatim>\<open>internal/pkg/auth/jwt.go\<close>.

  Strings are byte strings in UTF-8. \<open>strings.ToLower\<close> maps ASCII strings byte by byte; for
  others it consults the Unicode tables, the parameter \<open>unicode_ToLower\<close>.
\<close>

section \<open>strings.TrimSpace and strings.ToLower\<close>

text \<open>The UTF-8 encodings of the white space characters of Unicode.\<close>

definition space_encodings :: "string list" where
  "space_encodings =
     map (\<lambda>n. [char_of n]) [9, 10, 11, 12, 13, 32 :: nat] @
     map (map char_of) [[194, 133], [194, 160], [225, 154, 128 :: nat]] @
     map (\<lambda>n. map char_of [226, 128, n]) [128 ..< 139 :: nat] @
     map (map char_of) [[226, 128, 168], [226, 128, 169], [226, 128, 175], [226, 129, 159],
       [227, 128, 128 :: nat]]"

function trim_left :: "string list \<Rightarrow> string \<Rightarrow> string" where
  "trim_left seps s =
     (case find (\<lambda>p. p \<noteq> [] \<and> take (length p) s = p) seps of
        None \<Rightarrow> s
      | Some p \<Rightarrow> trim_left seps (drop (length p) s))"
  by pat_completeness auto
termination
proof (relation "measure (\<lambda>(seps, s). length s)", simp)
  fix seps s p
  assume "find (\<lambda>p. p \<noteq> [] \<and> take (length p) s = p) seps = Some p"
  then have "p \<noteq> []" and "take (length p) s = p" by (auto simp: find_Some_iff)
  moreover from this have "length p \<le> length s" by (metis length_take min.cobounded1)
  ultimately have "length p \<le> length s" and "0 < length p" by simp_all
  then have "length (drop (length p) s) < length s" by (simp only: length_drop)
  then show "((seps, drop (length p) s), (seps, s)) \<in> measure (\<lambda>(seps, s). length s)"
    by (simp only: in_measure prod.case)
qed

declare trim_left.simps [simp del]

definition strings_TrimSpace :: "string \<Rightarrow> string" where
  "strings_TrimSpace s =
     rev (trim_left (map rev space_encodings) (rev (trim_left space_encodings s)))"

text \<open>A string that starts and ends with printable ASCII characters stays as it is.\<close>

definition printable :: "char \<Rightarrow> bool" where
  "printable c \<longleftrightarrow> 33 \<le> (of_char c :: nat) \<and> (of_char c :: nat) < 127"

lemma space_not_printable: "\<forall>p \<in> set space_encodings. p \<noteq> [] \<and> \<not> printable (hd p) \<and> \<not> printable (last p)"
  by (simp add: space_encodings_def printable_def upt_rec of_char_of)

lemma trim_left_id:
  assumes "\<forall>p \<in> set seps. p \<noteq> [] \<longrightarrow> hd p \<noteq> hd s" and "s \<noteq> []"
  shows "trim_left seps s = s"
proof -
  have "find (\<lambda>p. p \<noteq> [] \<and> take (length p) s = p) seps = None"
    using assms by (auto simp: find_None_iff) (metis hd_take length_greater_0_conv)
  then show ?thesis by (subst trim_left.simps) simp
qed

lemma TrimSpace_printable:
  assumes "s \<noteq> []" and "printable (hd s)" and "printable (last s)"
  shows "strings_TrimSpace s = s"
proof -
  have "trim_left space_encodings s = s"
    using assms space_not_printable by (intro trim_left_id) auto
  moreover have "trim_left (map rev space_encodings) (rev s) = rev s"
    using assms space_not_printable by (intro trim_left_id) (auto simp: hd_rev)
  ultimately show ?thesis by (simp add: strings_TrimSpace_def)
qed

definition is_ascii :: "char \<Rightarrow> bool" where
  "is_ascii c \<longleftrightarrow> (of_char c :: nat) < 128"

definition ascii_lower :: "char \<Rightarrow> char" where
  "ascii_lower c =
     (let n = (of_char c :: nat) in if 65 \<le> n \<and> n \<le> 90 then char_of (n + 32) else c)"

definition strings_ToLower :: "env \<Rightarrow> string \<Rightarrow> string" where
  "strings_ToLower env s = (if list_all is_ascii s then map ascii_lower s else unicode_ToLower env s)"

section \<open>Passwords and tokens\<close>

definition hash_Password :: "env \<Rightarrow> string \<Rightarrow> string go" where
  "hash_Password env password w =
     (bcrypt_Generate env (n_salt w) password, w\<lparr>n_salt := Suc (n_salt w)\<rparr>)"

definition hash_Compare :: "env \<Rightarrow> string \<Rightarrow> string \<Rightarrow> unit go" where
  "hash_Compare env password hashed =
     (case bcrypt_Compare env hashed password of None \<Rightarrow> ok () | Some err \<Rightarrow> throw err)"

record JWTManager =
  jm_secretKey :: string
  jm_issuer :: string
  jm_expiry :: int

definition NewJWTManager :: "string \<Rightarrow> string \<Rightarrow> int \<Rightarrow> JWTManager" where
  "NewJWTManager secret issuer expiryMinutes =
     \<lparr>jm_secretKey = secret, jm_issuer = issuer, jm_expiry = wrap64 (expiryMinutes * 60000000000)\<rparr>"

text \<open>\<open>jwt.NewNumericDate\<close> keeps whole seconds.\<close>

definition NewNumericDate :: "time \<Rightarrow> json" where
  "NewNumericDate t = JTime (t - t mod 1000000000)"

definition GenerateToken :: "env \<Rightarrow> JWTManager \<Rightarrow> User \<Rightarrow> (string \<times> time) go" where
  "GenerateToken env m user =
     and_then (now env) (\<lambda>t.
     let expiresAt = t + jm_expiry m in
     and_then (now env) (\<lambda>issued.
     case jwt_Sign env (jm_secretKey m)
            [(''user_id'', JString (uuid_String env (u_ID user))),
             (''role'', JString (role_string (u_Role user))),
             (''iss'', JString (jm_issuer m)), (''sub'', JString (uuid_String env (u_ID user))),
             (''exp'', NewNumericDate expiresAt), (''iat'', NewNumericDate issued)] of
       Inl err \<Rightarrow> throw err
     | Inr token \<Rightarrow> ok (token, expiresAt)))"

section \<open>Register\<close>

record RegisterRequest =
  rg_Name :: string
  rg_Email :: string
  rg_Password :: string

record LoginRequest =
  lg_Email :: string
  lg_Password :: string

record RegisterResponse =
  rgr_User :: UserResponse
  rgr_Wallet :: WalletResponse

record LoginResponse =
  lgr_AccessToken :: string
  lgr_ExpiresAt :: time
  lgr_User :: UserResponse

definition normal_email :: "env \<Rightarrow> string \<Rightarrow> string" where
  "normal_email env email = strings_ToLower env (strings_TrimSpace email)"

definition register_body :: "env \<Rightarrow> User \<Rightarrow> Wallet \<Rightarrow> (User \<times> Wallet) go" where
  "register_body env user0 wallet0 =
     and_then (Users_Create env user0) (\<lambda>user.
     and_then (Wallets_Create env wallet0) (\<lambda>wallet.
     and_then (new_uuid env) (\<lambda>auditID.
     and_then (now env) (\<lambda>auditTime.
     and_then (Audits_Create env
         \<lparr>al_ID = auditID, al_ActorUserID = Some (u_ID user), al_Action = ''USER_REGISTERED'',
          al_EntityType = ''user'', al_EntityID = Some (u_ID user),
          al_Metadata = JObject [(''email'', JString (u_Email user)),
                                 (''role'', JString (role_string (u_Role user)))],
          al_CreatedAt = auditTime\<rparr>) (\<lambda>_. ok (user, wallet))))))"

text \<open>From the password on, once the address is known to be free.\<close>

definition register_new :: "env \<Rightarrow> string \<Rightarrow> string \<Rightarrow> string \<Rightarrow> RegisterResponse go" where
  "register_new env name email password =
     and_then (internal_error (hash_Password env password)) (\<lambda>passwordHash.
     and_then (new_uuid env) (\<lambda>userID.
     and_then (new_uuid env) (\<lambda>walletID.
     let user = \<lparr>u_ID = userID, u_Name = name, u_Email = email, u_PasswordHash = passwordHash,
                 u_Role = RoleUser, u_CreatedAt = 0, u_UpdatedAt = 0\<rparr>;
         wallet = \<lparr>w_ID = walletID, w_UserID = userID, w_Balance = 0,
                   w_Status = WalletStatusActive, w_CreatedAt = 0, w_UpdatedAt = 0\<rparr> in
     (\<lambda>w. case WithinTransaction env (register_body env user wallet) w of
        (Inl err, w') \<Rightarrow>
          (Inl (if IsUniqueViolation err then Conflict ''email already registered''
                else Internal err), w')
      | (Inr (user', wallet'), w') \<Rightarrow>
          (Inr \<lparr>rgr_User = toUserResponse env user', rgr_Wallet = toWalletResponse env wallet'\<rparr>,
           w')))))"

definition Register :: "env \<Rightarrow> RegisterRequest \<Rightarrow> RegisterResponse go" where
  "Register env req =
     (let name = strings_TrimSpace (rg_Name req);
          email = normal_email env (rg_Email req) in
      if name = '''' \<or> email = '''' \<or> length (rg_Password req) < 8
      then throw (Validation [(''name/email/password'',
             ''name, email, and password minimum 8 chars are required'')])
      else (\<lambda>w. case Users_GetByEmail env email w of
          (Inr existing, w') \<Rightarrow> (Inl (Conflict ''email already registered''), w')
        | (Inl err, w') \<Rightarrow>
            if \<not> IsNotFound err then (Inl (Internal err), w')
            else register_new env name email (rg_Password req) w'))"

section \<open>Login\<close>

definition Login :: "env \<Rightarrow> JWTManager \<Rightarrow> LoginRequest \<Rightarrow> LoginResponse go" where
  "Login env m req =
     (let email = normal_email env (lg_Email req) in
      if email = '''' \<or> lg_Password req = ''''
      then throw (Validation [(''email/password'', ''email and password are required'')])
      else (\<lambda>w. case Users_GetByEmail env email w of
          (Inl err, w') \<Rightarrow>
            (Inl (if IsNotFound err then Unauthorized ''invalid credentials'' else Internal err), w')
        | (Inr user, w') \<Rightarrow>
            (case hash_Compare env (lg_Password req) (u_PasswordHash user) w' of
               (Inl err, w'') \<Rightarrow> (Inl (Unauthorized ''invalid credentials''), w'')
             | (Inr _, w'') \<Rightarrow>
                 and_then (internal_error (GenerateToken env m user)) (\<lambda>(token, expiresAt).
                 and_then (new_uuid env) (\<lambda>auditID.
                 and_then (now env) (\<lambda>auditTime.
                 and_then (internal_error (Audits_Create env
                     \<lparr>al_ID = auditID, al_ActorUserID = Some (u_ID user),
                      al_Action = ''USER_LOGGED_IN'', al_EntityType = ''user'',
                      al_EntityID = Some (u_ID user),
                      al_Metadata = JObject [(''email'', JString (u_Email user))],
                      al_CreatedAt = auditTime\<rparr>)) (\<lambda>_.
                 ok \<lparr>lgr_AccessToken = token, lgr_ExpiresAt = expiresAt,
                     lgr_User = toUserResponse env user\<rparr>)))) w'')))"

section \<open>Seeding the administrator\<close>

text \<open>
  \<open>seedAdmin\<close> of \<^verbatim>\<open>cmd/api/main.go\<close>, run once at start. The configuration's e-mail address is
  used as it is, not normalised.
\<close>

record seed_settings =
  sc_IsDevelopment :: bool
  sc_EnableAdminSeed :: bool
  sc_AdminName :: string
  sc_AdminEmail :: string
  sc_AdminPassword :: string

definition seed_rest :: "env \<Rightarrow> User \<Rightarrow> Wallet \<Rightarrow> unit go" where
  "seed_rest env admin wallet =
     and_then (Wallets_Create env wallet) (\<lambda>_.
     and_then (new_uuid env) (\<lambda>auditID.
     and_then (now env) (\<lambda>auditTime.
     and_then (Audits_Create env
         \<lparr>al_ID = auditID, al_ActorUserID = Some (u_ID admin), al_Action = ''ADMIN_SEEDED'',
          al_EntityType = ''user'', al_EntityID = Some (u_ID admin),
          al_Metadata = JObject [(''email'', JString (u_Email admin))],
          al_CreatedAt = auditTime\<rparr>) (\<lambda>_. ok ()))))"

definition seed_create :: "env \<Rightarrow> User \<Rightarrow> Wallet \<Rightarrow> unit go" where
  "seed_create env admin wallet w =
     (case Users_Create env admin w of
        (Inl err, w') \<Rightarrow> (if IsUniqueViolation err then Inr () else Inl err, w')
      | (Inr _, w') \<Rightarrow> seed_rest env admin wallet w')"

definition seed_new :: "env \<Rightarrow> seed_settings \<Rightarrow> unit go" where
  "seed_new env cfg =
     and_then (hash_Password env (sc_AdminPassword cfg)) (\<lambda>passwordHash.
     and_then (new_uuid env) (\<lambda>adminID.
     and_then (new_uuid env) (\<lambda>walletID.
     seed_create env
       \<lparr>u_ID = adminID, u_Name = sc_AdminName cfg, u_Email = sc_AdminEmail cfg,
        u_PasswordHash = passwordHash, u_Role = RoleAdmin, u_CreatedAt = 0, u_UpdatedAt = 0\<rparr>
       \<lparr>w_ID = walletID, w_UserID = adminID, w_Balance = 0, w_Status = WalletStatusActive,
        w_CreatedAt = 0, w_UpdatedAt = 0\<rparr>)))"

definition seed_body :: "env \<Rightarrow> seed_settings \<Rightarrow> unit go" where
  "seed_body env cfg w =
     (case Users_GetByEmail env (sc_AdminEmail cfg) w of
        (Inr existing, w') \<Rightarrow> (Inr (), w')
      | (Inl err, w') \<Rightarrow> if \<not> IsNotFound err then (Inl err, w') else seed_new env cfg w')"

definition seedAdmin :: "env \<Rightarrow> seed_settings \<Rightarrow> unit go" where
  "seedAdmin env cfg =
     (if \<not> sc_IsDevelopment cfg \<or> \<not> sc_EnableAdminSeed cfg \<or> sc_AdminEmail cfg = '''' \<or>
         sc_AdminPassword cfg = ''''
      then ok ()
      else WithinTransaction env (seed_body env cfg))"

section \<open>What a registration writes\<close>

definition registered :: "User \<Rightarrow> database \<Rightarrow> database \<Rightarrow> bool" where
  "registered user d d' \<longleftrightarrow> (\<exists>u v.
     users d' = users d @ [u] \<and> wallets d' = wallets d @ [v] \<and>
     transactions d' = transactions d \<and> ledger_entries d' = ledger_entries d \<and>
     idempotency_records d' = idempotency_records d \<and>
     webhook_deliveries d' = webhook_deliveries d \<and> (\<exists>a. audit_logs d' = audit_logs d @ [a]) \<and>
     u_ID u = u_ID user \<and> u_Email u = u_Email user \<and> u_Name u = u_Name user \<and>
     u_PasswordHash u = u_PasswordHash user \<and> u_Role u = u_Role user \<and>
     u_Email user \<notin> u_Email ` set (users d) \<and>
     w_UserID v = u_ID user \<and> w_Balance v = 0 \<and> w_Status v = WalletStatusActive \<and>
     \<not> has_wallet d (w_ID v))"

lemma register_body_spec:
  assumes ok: "db_ok (db s)" and w: "w_UserID wallet = u_ID user" "w_Balance wallet = 0"
    "w_Status wallet = WalletStatusActive"
  shows "wp (register_body env user wallet)
     (\<lambda>_ s'. db_ok (db s') \<and> registered user (db s) (db s')) (\<lambda>_ _. True) s"
  unfolding register_body_def
  apply (simp add: wp_rules repository_defs Let_def)
  apply (intro impI allI)
  subgoal premises prems for d1 d2 d3
  proof -
    have "db_ok d1" using ok prems(2) by (rule insert_user_ok)
    then have "db_ok d2" using prems(4) by (rule insert_wallet_ok)
    then have "db_ok d3" using prems(6) by (rule insert_audit_log_ok)
    moreover from prems(2,4,6) w have "registered user (db s) d3"
      by (auto simp: registered_def insert_user_def insert_wallet_def insert_audit_log_def has_wallet_def)
    ultimately show ?thesis by simp
  qed
  done

lemma registered_effect:
  assumes r: "registered user d d'" and d: "db_ok d" "books_ok d"
  obtains v where "v \<in> set (wallets d')" and "w_UserID v = u_ID user" and "\<not> has_wallet d (w_ID v)"
    and "books_ok d'" and "total_balance d' = total_balance d"
    and "balances d' = (balances d)(w_ID v \<mapsto> 0)"
proof -
  from r obtain u v where *: "wallets d' = wallets d @ [v]" "transactions d' = transactions d"
     "ledger_entries d' = ledger_entries d" "w_UserID v = u_ID user" "w_Balance v = 0"
     "\<not> has_wallet d (w_ID v)"
    unfolding registered_def by blast
  have "\<forall>e \<in> set (ledger_entries d). le_WalletID e \<noteq> w_ID v"
    using d(1) *(6) by (auto simp: db_ok_defs)
  then have "chains_ok (wallets d @ [v]) (ledger_entries d)"
    using d(2) *(5) by (intro chains_ok_new_wallet) (simp_all add: books_ok_def)
  then have books: "books_ok d'" using d(2) * by (simp add: books_ok_def)
  have "balances d (w_ID v) = None"
    using *(6) by (simp add: balances_def map_of_eq_None_iff has_wallet_def image_image)
  then have "balances d' = (balances d)(w_ID v \<mapsto> 0)"
    using *(1,5) by (auto simp: balances_def fun_eq_iff map_add_def split: option.split)
  with books * show ?thesis
    by (intro that [of v]) (simp_all add: total_balance_def)
qed

lemma register_new_cases:
  assumes ok: "db_ok (db w)" and run: "register_new env name email password w = (r, w')"
  obtains (failed) e where "r = Inl e" and "is_app_error e" and "db w' = db w"
    | (created) user where "db_ok (db w')" and "registered user (db w) (db w')"
        and "u_Email user = email" and "u_Name user = name" and "u_Role user = RoleUser"
        and "(\<exists>res. r = Inr res) \<or> (\<exists>m. r = Inl (Internal (OtherError m)))"
proof (cases "bcrypt_Generate env (n_salt w) password")
  case (Inl err)
  with run have "r = Inl (Internal err)" "db w' = db w"
    by (auto simp: register_new_def and_then_def internal_error_def hash_Password_def)
  then show ?thesis by (auto intro: failed)
next
  case (Inr hashed)
  let ?i = "uuid_New env (n_uuid w)" and ?j = "uuid_New env (Suc (n_uuid w))"
  let ?user = "\<lparr>u_ID = ?i, u_Name = name, u_Email = email, u_PasswordHash = hashed,
                 u_Role = RoleUser, u_CreatedAt = 0, u_UpdatedAt = 0\<rparr>"
  let ?wallet = "\<lparr>w_ID = ?j, w_UserID = ?i, w_Balance = 0,
                   w_Status = WalletStatusActive, w_CreatedAt = 0, w_UpdatedAt = 0\<rparr>"
  let ?w1 = "w\<lparr>n_salt := Suc (n_salt w), n_uuid := Suc (Suc (n_uuid w))\<rparr>"
  obtain r1 w2 where tx: "WithinTransaction env (register_body env ?user ?wallet) ?w1 = (r1, w2)"
    by (cases "WithinTransaction env (register_body env ?user ?wallet) ?w1")
  have r: "w' = w2" "(\<exists>err. r1 = Inl err \<and> r = Inl (if IsUniqueViolation err
        then Conflict ''email already registered'' else Internal err)) \<or> (\<exists>x res. r1 = Inr x \<and> r = Inr res)"
    using run Inr tx
    by (auto simp: register_new_def and_then_def internal_error_def hash_Password_def new_uuid_def
        Let_def split: sum.splits)
  from tx show ?thesis
  proof (cases rule: WithinTransaction_cases)
    case (failed e)
    with r that(1) show ?thesis by (auto split: if_splits)
  next
    case (ran x w3)
    have "db_ok (db w3) \<and> registered ?user (db w) (db w3)"
      using wp_Inr [OF register_body_spec ran(1)] ok by simp
    moreover have "(\<exists>res. r = Inr res) \<or> (\<exists>m. r = Inl (Internal (OtherError m)))"
      using ran(4) r(2) by (auto simp: IsUniqueViolation_def)
    ultimately show ?thesis
      using ran(2) r(1) by (intro that(2) [of ?user]) simp_all
  qed
qed

lemma Users_GetByEmail_frame: "preserves (\<lambda>w. P (db w)) (Users_GetByEmail env email)"
  unfolding Users_GetByEmail_def by (intro preserves_intros)

lemma Register_cases:
  assumes ok: "db_ok (db w)" and run: "Register env req w = (r, w')"
  obtains (failed) e where "r = Inl e" and "is_app_error e" and "db w' = db w"
    | (created) user where "db_ok (db w')" and "registered user (db w) (db w')"
        and "u_Email user = normal_email env (rg_Email req)"
        and "u_Name user = strings_TrimSpace (rg_Name req)" and "u_Role user = RoleUser"
        and "u_Email user \<noteq> ''''" and "8 \<le> length (rg_Password req)"
        and "(\<exists>res. r = Inr res) \<or> (\<exists>m. r = Inl (Internal (OtherError m)))"
proof -
  let ?name = "strings_TrimSpace (rg_Name req)" and ?email = "normal_email env (rg_Email req)"
  obtain g w1 where get: "Users_GetByEmail env ?email w = (g, w1)"
    by (cases "Users_GetByEmail env ?email w")
  from preserves_snd [OF Users_GetByEmail_frame [of "\<lambda>d. d = db w"] _ get] have w1: "db w1 = db w"
    by simp
  consider (new) "?email \<noteq> ''''" "8 \<le> length (rg_Password req)"
      "register_new env ?name ?email (rg_Password req) w1 = (r, w')"
    | (rejected) "\<exists>e. r = Inl e \<and> is_app_error e \<and> db w' = db w"
    using run get w1
    by (auto simp: Register_def Let_def throw_def not_less split: if_splits sum.splits)
  then show ?thesis
  proof cases
    case new
    from ok w1 have "db_ok (db w1)" by simp
    from this new(3) show ?thesis
      by (rule register_new_cases) (use w1 new(1,2) in \<open>auto intro: failed created\<close>)
  qed (auto intro: failed)
qed

lemma Users_Create_failed: "Users_Create env u w = (Inl err, w') \<Longrightarrow> IsUniqueViolation err \<Longrightarrow> db w' = db w"
  by (auto simp: Users_Create_def and_then_def now_def ok_def statement_def Let_def abort_block_def
      IsUniqueViolation_def split: prod.splits sum.splits if_splits option.splits fault.splits)

lemma seed_create_spec:
  assumes ok: "db_ok (db s)" and w: "w_UserID wallet = u_ID admin" "w_Balance wallet = 0"
    "w_Status wallet = WalletStatusActive"
  shows "wp (seed_create env admin wallet) (\<lambda>_ s'. db s' = db s \<or>
     db_ok (db s') \<and> registered admin (db s) (db s')) (\<lambda>_ _. True) s"
proof (rule wpI)
  fix x s' assume run: "seed_create env admin wallet s = (Inr x, s')"
  have created: "wp (and_then (Users_Create env admin) (\<lambda>_. seed_rest env admin wallet))
      (\<lambda>_ s'. db_ok (db s') \<and> registered admin (db s) (db s')) (\<lambda>_ _. True) s"
    apply (simp add: wp_rules repository_defs seed_rest_def Let_def)
    apply (intro impI allI)
    subgoal premises prems for d1 d2 d3
    proof -
      have "db_ok d1" using ok prems(2) by (rule insert_user_ok)
      then have "db_ok d2" using prems(4) by (rule insert_wallet_ok)
      then have "db_ok d3" using prems(6) by (rule insert_audit_log_ok)
      moreover from prems(2,4,6) w have "registered admin (db s) d3"
        by (auto simp: registered_def insert_user_def insert_wallet_def insert_audit_log_def has_wallet_def)
      ultimately show ?thesis by simp
    qed
    done
  obtain c w1 where c: "Users_Create env admin s = (c, w1)" by (cases "Users_Create env admin s")
  show "db s' = db s \<or> db_ok (db s') \<and> registered admin (db s) (db s')"
  proof (cases c)
    case (Inl err)
    with run c Users_Create_failed [of env admin s err w1] show ?thesis
      by (auto simp: seed_create_def split: if_splits)
  next
    case (Inr u)
    with run c wp_Inr [OF created, of x s'] show ?thesis by (simp add: seed_create_def and_then_def)
  qed
qed simp

lemma seed_new_spec:
  assumes ok: "db_ok (db s)"
  shows "wp (seed_new env cfg) (\<lambda>_ s'. db s' = db s \<or>
     db_ok (db s') \<and> (\<exists>user. u_Role user = RoleAdmin \<and> u_Email user = sc_AdminEmail cfg \<and>
       registered user (db s) (db s'))) (\<lambda>_ _. True) s"
proof (cases "bcrypt_Generate env (n_salt s) (sc_AdminPassword cfg)")
  case (Inr h)
  then show ?thesis
    unfolding seed_new_def
    apply (simp add: wp_rules)
    apply (simp add: wp_def [of "hash_Password env _"] hash_Password_def wp_rules)
    apply (rule wp_mono [OF seed_create_spec])
    using ok by (auto intro!: exI [of _ "\<lparr>u_ID = uuid_New env (n_uuid s),
       u_Name = sc_AdminName cfg, u_Email = sc_AdminEmail cfg, u_PasswordHash = h,
       u_Role = RoleAdmin, u_CreatedAt = 0, u_UpdatedAt = 0\<rparr>"])
qed (simp add: seed_new_def wp_def and_then_def hash_Password_def)

lemma seedAdmin_cases:
  assumes ok: "db_ok (db w)" and run: "seedAdmin env cfg w = (r, w')"
  obtains (unchanged) "db w' = db w"
    | (created) user where "db_ok (db w')" and "registered user (db w) (db w')"
       and "u_Role user = RoleAdmin" and "u_Email user = sc_AdminEmail cfg"
proof (cases "WithinTransaction env (seed_body env cfg) w = (r, w')")
  case True
  then show ?thesis
  proof (cases rule: WithinTransaction_cases)
    case (failed e)
    then show ?thesis by (auto intro: unchanged)
  next
    case (ran x w2)
    let ?s = "w\<lparr>n_sql := Suc (n_sql w), sql_session := InTx\<rparr>"
    obtain g w1 where get: "Users_GetByEmail env (sc_AdminEmail cfg) ?s = (g, w1)"
      by (cases "Users_GetByEmail env (sc_AdminEmail cfg) ?s")
    from preserves_snd [OF Users_GetByEmail_frame [of "\<lambda>d. d = db w"] _ get] have w1: "db w1 = db w"
      by simp
    from ran(1) get have "w2 = w1 \<or> seed_new env cfg w1 = (Inr x, w2)"
      by (auto simp: seed_body_def split: sum.splits if_splits)
    then show ?thesis
    proof
      assume "seed_new env cfg w1 = (Inr x, w2)"
      from wp_Inr [OF seed_new_spec this] ok w1 ran show ?thesis
        by (auto intro: unchanged created)
    qed (use ran w1 in \<open>auto intro: unchanged\<close>)
  qed
next
  case False
  with run show ?thesis by (auto simp: seedAdmin_def ok_def split: if_splits intro: unchanged)
qed

section \<open>Login writes nothing but the audit log\<close>

lemma aside_GenerateToken [preserves_intros]: "preserves (aside w) (GenerateToken env m user)"
  unfolding GenerateToken_def Let_def
  by (auto intro!: preserves_intros split: sum.split)

lemma aside_Login: "preserves (aside w) (Login env m req)"
  unfolding Login_def Let_def hash_Compare_def
  by (intro preserves_intros preserves_cases preserves_answer)

section \<open>The clock\<close>

lemma clock_hash_Password [preserves_intros]: "preserves (\<lambda>w. k \<le> n_time w) (hash_Password env p)"
  by (simp add: preserves_def hash_Password_def)

lemma clock_register_body [preserves_intros]:
  "preserves (\<lambda>w. k \<le> n_time w) (register_body env u v)"
  unfolding register_body_def repository_defs Let_def by (intro preserves_intros)

lemma clock_Register: "preserves (\<lambda>w. k \<le> n_time w) (Register env req)"
proof -
  have "preserves (\<lambda>w. k \<le> n_time w) (register_new env n e p)" for n e p
    unfolding register_new_def Let_def
    by (intro preserves_intros preserves_answers)
  then show ?thesis
    unfolding Register_def Let_def Users_GetByEmail_def
    by (intro preserves_intros preserves_answers)
qed

lemma clock_seedAdmin: "preserves (\<lambda>w. k \<le> n_time w) (seedAdmin env cfg)"
proof -
  have rest: "preserves (\<lambda>w. k \<le> n_time w) (seed_rest env a v)" for a v
    unfolding seed_rest_def repository_defs Let_def by (intro preserves_intros)
  have "preserves (\<lambda>w. k \<le> n_time w) (Users_Create env a)" for a
    unfolding Users_Create_def Let_def by (intro preserves_intros)
  with rest have "preserves (\<lambda>w. k \<le> n_time w) (seed_create env a v)" for a v
    unfolding seed_create_def [abs_def] by (intro preserves_answers)
  then have "preserves (\<lambda>w. k \<le> n_time w) (seed_new env cfg)"
    unfolding seed_new_def by (intro preserves_intros)
  then have "preserves (\<lambda>w. k \<le> n_time w) (seed_body env cfg)"
    unfolding seed_body_def [abs_def] Users_GetByEmail_def
    by (intro preserves_intros preserves_answers)
  then show ?thesis
    unfolding seedAdmin_def by (intro preserves_intros)
qed

end
