(* ===== verification/Queries.thy ===== *)
theory Queries
  imports Transactions
begin

text \<open>
  The reading use cases: \<^verbatim>\<open>internal/usecase/user_wallet.go\<close> (the caller's profile, wallet and
  balance) and \<^verbatim>\<open>internal/usecase/admin_health.go\<close> (the administrator's lists, each of which
  leaves an audit log entry, and the health check). They change nothing but the audit log.
\<close>

section \<open>UserUsecase and WalletUsecase\<close>

definition GetMe :: "env \<Rightarrow> string \<Rightarrow> UserResponse go" where
  "GetMe env userID =
     and_then (parse_id env ''invalid user id'' userID) (\<lambda>i.
     and_then (not_found_or_internal ''user not found'' (Users_GetByID env i)) (\<lambda>user.
     ok (toUserResponse env user)))"

definition GetMyWallet :: "env \<Rightarrow> string \<Rightarrow> WalletResponse go" where
  "GetMyWallet env userID =
     and_then (parse_id env ''invalid user id'' userID) (\<lambda>i.
     and_then (not_found_or_internal ''wallet not found'' (Wallets_GetByUserID env i)) (\<lambda>wallet.
     ok (toWalletResponse env wallet)))"

text \<open>\<open>UpdatedAt\<close> is rendered as RFC 3339 text; the model keeps the time it renders.\<close>

record BalanceResponse =
  br_WalletID :: string
  br_Balance :: int64
  br_Currency :: string
  br_UpdatedAt :: time

definition GetMyBalance :: "env \<Rightarrow> string \<Rightarrow> BalanceResponse go" where
  "GetMyBalance env userID =
     and_then (parse_id env ''invalid user id'' userID) (\<lambda>i.
     and_then (not_found_or_internal ''wallet not found'' (Wallets_GetByUserID env i)) (\<lambda>wallet.
     ok \<lparr>br_WalletID = uuid_String env (w_ID wallet), br_Balance = w_Balance wallet,
         br_Currency = ''IDR'', br_UpdatedAt = w_UpdatedAt wallet\<rparr>))"

section \<open>AdminUsecase\<close>

record AuditLogResponse =
  ar_ID :: string
  ar_ActorUserID :: "string option"
  ar_Action :: string
  ar_EntityType :: string
  ar_EntityID :: "string option"
  ar_Metadata :: json
  ar_CreatedAt :: time

record WebhookDeliveryResponse =
  wdr_ID :: string
  wdr_EventType :: string
  wdr_TransactionID :: "string option"
  wdr_TransactionRef :: string
  wdr_TargetURL :: string
  wdr_Payload :: json
  wdr_Status :: string
  wdr_RetryCount :: int
  wdr_MaxRetry :: int
  wdr_LastError :: "string option"
  wdr_LastHTTPStatus :: "int option"
  wdr_NextRetryAt :: "time option"
  wdr_DeliveredAt :: "time option"
  wdr_CreatedAt :: time
  wdr_UpdatedAt :: time

definition toAuditLogResponse :: "env \<Rightarrow> AuditLog \<Rightarrow> AuditLogResponse" where
  "toAuditLogResponse env l = \<lparr>ar_ID = uuid_String env (al_ID l),
     ar_ActorUserID = map_option (uuid_String env) (al_ActorUserID l), ar_Action = al_Action l,
     ar_EntityType = al_EntityType l,
     ar_EntityID = map_option (uuid_String env) (al_EntityID l), ar_Metadata = al_Metadata l,
     ar_CreatedAt = al_CreatedAt l\<rparr>"

definition toWebhookDeliveryResponse :: "env \<Rightarrow> WebhookDelivery \<Rightarrow> WebhookDeliveryResponse" where
  "toWebhookDeliveryResponse env v = \<lparr>wdr_ID = uuid_String env (wd_ID v),
     wdr_EventType = wd_EventType v,
     wdr_TransactionID = map_option (uuid_String env) (wd_TransactionID v),
     wdr_TransactionRef = wd_TransactionRef v, wdr_TargetURL = wd_TargetURL v,
     wdr_Payload = wd_Payload v, wdr_Status = webhook_status_string (wd_Status v),
     wdr_RetryCount = wd_RetryCount v, wdr_MaxRetry = wd_MaxRetry v,
     wdr_LastError = wd_LastError v, wdr_LastHTTPStatus = wd_LastHTTPStatus v,
     wdr_NextRetryAt = wd_NextRetryAt v, wdr_DeliveredAt = wd_DeliveredAt v,
     wdr_CreatedAt = wd_CreatedAt v, wdr_UpdatedAt = wd_UpdatedAt v\<rparr>"

text \<open>The entry an administrator's read leaves; failing to write it is not reported.\<close>

definition audit_read ::
  "env \<Rightarrow> uuid \<Rightarrow> string \<Rightarrow> string \<Rightarrow> uuid option \<Rightarrow> (string \<times> json) list \<Rightarrow> unit go" where
  "audit_read env actorID action entityType entityID metadata =
     and_then (new_uuid env) (\<lambda>auditID.
     and_then (now env) (\<lambda>auditTime.
     ignore_error (Audits_Create env
         \<lparr>al_ID = auditID, al_ActorUserID = Some actorID, al_Action = action,
          al_EntityType = entityType, al_EntityID = entityID, al_Metadata = JObject metadata,
          al_CreatedAt = auditTime\<rparr>)))"

definition page_metadata :: "Params \<Rightarrow> (string \<times> json) list" where
  "page_metadata params =
     [(''limit'', JInt (sint (Limit params))), (''page'', JInt (sint (Page params)))]"

definition ListAuditLogs :: "env \<Rightarrow> string \<Rightarrow> Params \<Rightarrow> (AuditLogResponse list \<times> json) go" where
  "ListAuditLogs env actorUserID params =
     and_then (parse_id env ''invalid user id'' actorUserID) (\<lambda>actorID.
     and_then (internal_error (Audits_List env params)) (\<lambda>(logs, n).
     and_then (audit_read env actorID ''ADMIN_READ_AUDIT_LOGS'' ''audit_log'' None
                 (page_metadata params)) (\<lambda>_.
     ok (map (toAuditLogResponse env) logs, Meta n params))))"

definition Admin_ListTransactions ::
  "env \<Rightarrow> string \<Rightarrow> Params \<Rightarrow> (TransactionResponse list \<times> json) go" where
  "Admin_ListTransactions env actorUserID params =
     and_then (parse_id env ''invalid user id'' actorUserID) (\<lambda>actorID.
     and_then (internal_error (Transactions_ListAll env params)) (\<lambda>(rows, n).
     and_then (audit_read env actorID ''ADMIN_READ_TRANSACTIONS'' ''transaction'' None
                 (page_metadata params)) (\<lambda>_.
     ok (map (toTransactionResponse env) rows, Meta n params))))"

definition ListWebhooks ::
  "env \<Rightarrow> string \<Rightarrow> WebhookDeliveryFilter \<Rightarrow> Params \<Rightarrow> (WebhookDeliveryResponse list \<times> json) go" where
  "ListWebhooks env actorUserID f params =
     and_then (parse_id env ''invalid user id'' actorUserID) (\<lambda>actorID.
     and_then (internal_error (WebhookDeliveries_List env f params)) (\<lambda>(deliveries, n).
     and_then (audit_read env actorID ''ADMIN_READ_WEBHOOKS'' ''webhook_delivery'' None
                 ([(''event_type'', JString (f_EventType f))] @ page_metadata params @
                  [(''status'', JString (f_Status f)),
                   (''transaction_ref'', JString (f_TransactionRef f))])) (\<lambda>_.
     ok (map (toWebhookDeliveryResponse env) deliveries, Meta n params))))"

definition GetWebhook :: "env \<Rightarrow> string \<Rightarrow> string \<Rightarrow> WebhookDeliveryResponse go" where
  "GetWebhook env actorUserID deliveryID =
     and_then (parse_id env ''invalid user id'' actorUserID) (\<lambda>actorID.
     and_then (parse_id env ''invalid webhook id'' deliveryID) (\<lambda>i.
     and_then (not_found_or_internal ''webhook delivery not found''
                 (WebhookDeliveries_GetByID env i)) (\<lambda>delivery.
     and_then (audit_read env actorID ''ADMIN_READ_WEBHOOK'' ''webhook_delivery'' (Some i)
                 [(''delivery_id'', JString (uuid_String env i))]) (\<lambda>_.
     ok (toWebhookDeliveryResponse env delivery)))))"

section \<open>HealthUsecase\<close>

text \<open>
  The repositories of \<^verbatim>\<open>internal/repository/health.go\<close>. The ping of PostgreSQL is a statement
  without effect, the answer of the Redis server to its \<open>PING\<close> is an argument. A check that is
  nil is \<open>None\<close>.
\<close>

definition GormHealthRepository_Ping :: "env \<Rightarrow> unit go" where
  "GormHealthRepository_Ping env = query env (\<lambda>_. ())"

definition RedisHealthRepository_Ping :: "goerror option \<Rightarrow> unit go" where
  "RedisHealthRepository_Ping answer = (case answer of None \<Rightarrow> ok () | Some err \<Rightarrow> throw err)"

fun CompositeHealthRepository_Ping :: "unit go option list \<Rightarrow> unit go" where
  "CompositeHealthRepository_Ping [] = ok ()"
| "CompositeHealthRepository_Ping (None # checks) = CompositeHealthRepository_Ping checks"
| "CompositeHealthRepository_Ping (Some check # checks) =
     and_then check (\<lambda>_. CompositeHealthRepository_Ping checks)"

definition Health_Check :: "unit go \<Rightarrow> unit go" where
  "Health_Check ping = internal_error ping"

text \<open>The checks that \<open>main\<close> configures: PostgreSQL, then Redis.\<close>

definition health_ping :: "env \<Rightarrow> goerror option \<Rightarrow> unit go" where
  "health_ping env redis = CompositeHealthRepository_Ping
     [Some (GormHealthRepository_Ping env), Some (RedisHealthRepository_Ping redis)]"

section \<open>They write nothing but the audit log\<close>

lemma aside_audit_read [preserves_intros]: "preserves (aside w) (audit_read env i a t e m)"
  unfolding audit_read_def by (intro preserves_intros)

lemmas query_defs =
  GetMe_def GetMyWallet_def GetMyBalance_def ListAuditLogs_def Admin_ListTransactions_def
  health_ping_def GormHealthRepository_Ping_def RedisHealthRepository_Ping_def CompositeHealthRepository_Ping.simps
  ListWebhooks_def GetWebhook_def Health_Check_def ListMyTransactions_def GetMyTransaction_def
  ListMyLedgers_def ListTransactionLedgers_def

lemmas list_defs =
  Users_GetByID_def Wallets_GetByUserID_def Transactions_ListByUser_def
  Transactions_GetByIDForUser_def Transactions_ListAll_def Ledgers_ListByUser_def
  Ledgers_ListByTransactionForUser_def Audits_List_def WebhookDeliveries_List_def
  WebhookDeliveries_GetByID_def

lemma queries_aside [preserves_intros]:
  "preserves (aside w) (GetMe env s)" "preserves (aside w) (GetMyWallet env s)"
  "preserves (aside w) (GetMyBalance env s)" "preserves (aside w) (ListAuditLogs env s p)"
  "preserves (aside w) (Admin_ListTransactions env s p)"
  "preserves (aside w) (ListWebhooks env s f p)" "preserves (aside w) (GetWebhook env s i)"
  "preserves (aside w) (Health_Check (health_ping env redis))" "preserves (aside w) (ListMyTransactions env s p)"
  "preserves (aside w) (GetMyTransaction env s i)" "preserves (aside w) (ListMyLedgers env s p)"
  "preserves (aside w) (ListTransactionLedgers env s i)"
  unfolding query_defs list_defs by (intro preserves_intros)+

end
