(* ===== verification/System.thy ===== *)
theory System
  imports Money Reconciliation Auth Queries
begin

text \<open>
  The whole program: the commands the HTTP routes, the webhook worker and the start-up code
  run against the world, and what holds of every world they can reach.
\<close>

section \<open>Commands\<close>

datatype query_command =
    QMe string | QMyWallet string | QMyBalance string
  | QMyTransactions string Params | QMyTransaction string string
  | QMyLedgers string Params | QTransactionLedgers string string
  | QAuditLogs string Params | QTransactions string Params
  | QWebhooks string WebhookDeliveryFilter Params | QWebhook string string | QHealth "goerror option"

datatype command =
    Seed
  | DoRegister RegisterRequest
  | DoLogin LoginRequest
  | DoTopUp TopUpRequest
  | DoTransfer TransferRequest
  | DoQuery query_command
  | DoReconcile string
  | DoWork worker_event
  | Restart

text \<open>What the configuration fixes: webhooks, tokens, the seeded administrator.\<close>

record program =
  pg_hooks :: "WebhookConfig option"
  pg_jwt :: JWTManager
  pg_seed :: seed_settings

fun run_query :: "env \<Rightarrow> query_command \<Rightarrow> world \<Rightarrow> world" where
  "run_query env (QMe s) w = snd (GetMe env s w)"
| "run_query env (QMyWallet s) w = snd (GetMyWallet env s w)"
| "run_query env (QMyBalance s) w = snd (GetMyBalance env s w)"
| "run_query env (QMyTransactions s p) w = snd (ListMyTransactions env s p w)"
| "run_query env (QMyTransaction s i) w = snd (GetMyTransaction env s i w)"
| "run_query env (QMyLedgers s p) w = snd (ListMyLedgers env s p w)"
| "run_query env (QTransactionLedgers s i) w = snd (ListTransactionLedgers env s i w)"
| "run_query env (QAuditLogs s p) w = snd (ListAuditLogs env s p w)"
| "run_query env (QTransactions s p) w = snd (Admin_ListTransactions env s p w)"
| "run_query env (QWebhooks s f p) w = snd (ListWebhooks env s f p w)"
| "run_query env (QWebhook s i) w = snd (GetWebhook env s i w)"
| "run_query env (QHealth redis) w = snd (Health_Check (health_ping env redis) w)"

text \<open>
  \<open>Start\<close> launches the worker only when webhooks are enabled. A restart of the process keeps the
  tables and loses the queue of the worker.
\<close>

fun run_command :: "env \<Rightarrow> program \<Rightarrow> command \<Rightarrow> world \<Rightarrow> world" where
  "run_command env pg Seed w = snd (seedAdmin env (pg_seed pg) w)"
| "run_command env pg (DoRegister req) w = snd (Register env req w)"
| "run_command env pg (DoLogin req) w = snd (Login env (pg_jwt pg) req w)"
| "run_command env pg (DoTopUp req) w = snd (TopUp env (configured_notifier env (pg_hooks pg)) req w)"
| "run_command env pg (DoTransfer req) w =
     snd (Transfer env (configured_notifier env (pg_hooks pg)) req w)"
| "run_command env pg (DoQuery q) w = run_query env q w"
| "run_command env pg (DoReconcile s) w = snd (Reconciliation_Run env s w)"
| "run_command env pg (DoWork ev) w =
     (case pg_hooks pg of
        None \<Rightarrow> w
      | Some cfg \<Rightarrow> if wc_Enabled cfg then worker_turn env cfg ev w else w)"
| "run_command env pg Restart w = w\<lparr>sql_session := NoTx, webhook_queue := []\<rparr>"

inductive reachable :: "env \<Rightarrow> program \<Rightarrow> world \<Rightarrow> bool" for env pg where
  start: "reachable env pg initial_world"
| step: "reachable env pg w \<Longrightarrow> reachable env pg (run_command env pg c w)"

section \<open>The invariant\<close>

text \<open>
  Besides the constraints and the books: the idempotency records and the transactions
  correspond one to one, in order, and every record is completed with an answer of success; the ledger entries carry
  readings of the clock in the order in which they were taken; the money in the wallets is
  what was topped up.
\<close>

fun endpoint_of :: "TransactionType \<Rightarrow> string" where
  "endpoint_of TransactionTypeTopUp = topUpEndpoint"
| "endpoint_of TransactionTypeTransfer = transferEndpoint"
| "endpoint_of (TransactionTypeOther _) = ''''"

definition transaction_key :: "Transaction \<Rightarrow> string \<times> uuid \<times> string" where
  "transaction_key t = (t_IdempotencyKey t, t_InitiatedByUserID t, endpoint_of (t_Type t))"

definition keys_ok :: "database \<Rightarrow> bool" where
  "keys_ok d \<longleftrightarrow>
     map idempotency_key_of (idempotency_records d) = map transaction_key (transactions d) \<and>
     (\<forall>r \<in> set (idempotency_records d). ir_StatusCode r = 200 \<and> success_body (ir_ResponseBody r))"

definition dated :: "env \<Rightarrow> nat \<Rightarrow> LedgerEntry list \<Rightarrow> bool" where
  "dated env n es \<longleftrightarrow> (\<exists>ks. sorted_wrt (<) ks \<and> (\<forall>k \<in> set ks. k < n) \<and>
     map le_CreatedAt es = map (\<lambda>k. timestamptz (time_Now env k)) ks)"

definition minted :: "Transaction list \<Rightarrow> int" where
  "minted ts = sum_list (map (\<lambda>t. case t_Type t of TransactionTypeTopUp \<Rightarrow> sint (t_Amount t) | _ \<Rightarrow> 0) ts)"

text \<open>
  A clock that moves on by at least a microsecond between any two readings. No clock promises
  that; the condition is asked of no property, it only shows when the entries are in order.
\<close>

definition clock_ok :: "env \<Rightarrow> bool" where
  "clock_ok env \<longleftrightarrow> (\<forall>k. time_Now env k \<noteq> 0) \<and>
     (\<forall>j k. j < k \<longrightarrow> timestamptz (time_Now env j) < timestamptz (time_Now env k))"

definition invariant :: "env \<Rightarrow> world \<Rightarrow> bool" where
  "invariant env w \<longleftrightarrow> db_ok (db w) \<and> books_ok (db w) \<and> keys_ok (db w) \<and>
     total_balance (db w) = minted (transactions (db w)) \<and>
     (clock_ok env \<longrightarrow> dated env (n_time w) (ledger_entries (db w)))"

lemma invariant_initial: "invariant env initial_world"
  by (simp add: invariant_def initial_world_def db_ok_empty books_ok_empty keys_ok_def dated_def
      total_balance_def minted_def empty_database_def)
    (simp add: empty_database_def [symmetric] db_ok_empty books_ok_empty)

lemma dated_later: "dated env n es \<Longrightarrow> n \<le> m \<Longrightarrow> dated env m es"
  unfolding dated_def by (meson order_less_le_trans)

lemma dated_append:
  assumes "dated env n es" and "n \<le> k" and "k < m" and "le_CreatedAt e = timestamptz (time_Now env k)"
  shows "dated env m (es @ [e])"
proof -
  from assms(1) obtain ks where ks: "sorted_wrt (<) ks" "\<forall>k \<in> set ks. k < n"
     "map le_CreatedAt es = map (\<lambda>k. timestamptz (time_Now env k)) ks"
    unfolding dated_def by blast
  with assms(2-4) show ?thesis
    unfolding dated_def by (intro exI [of _ "ks @ [k]"]) (auto simp: sorted_wrt_append)
qed

lemma invariant_aside:
  assumes "invariant env w" and "aside w w'"
  shows "invariant env w'"
  using assms dated_later
  by (auto simp: invariant_def aside_def books_ok_def keys_ok_def total_balance_def)

lemma invariant_same:
  "invariant env w \<Longrightarrow> db w' = db w \<Longrightarrow> n_time w \<le> n_time w' \<Longrightarrow> invariant env w'"
  using invariant_aside [of env w w'] by (simp add: aside_def)

lemma invariant_registered:
  assumes w: "invariant env w" and "registered user (db w) (db w')" and "db_ok (db w')"
    and "n_time w \<le> n_time w'"
  shows "invariant env w'"
proof -
  from w have "db_ok (db w)" "books_ok (db w)" by (simp_all add: invariant_def)
  with assms(2) obtain v where "books_ok (db w')" "total_balance (db w') = total_balance (db w)"
    by (rule registered_effect)
  moreover from assms(2) have "transactions (db w') = transactions (db w)"
    "ledger_entries (db w') = ledger_entries (db w)"
    "idempotency_records (db w') = idempotency_records (db w)"
    by (auto simp: registered_def)
  ultimately show ?thesis
    using w assms(3,4) by (auto simp: invariant_def keys_ok_def intro: dated_later)
qed

lemma recorded_keys:
  assumes "recorded key user h ep res d d'" and "keys_ok d"
    and "transactions d' = transactions d @ [t]" and "transaction_key t = (key, user, ep)"
  shows "keys_ok d'"
  using assms by (auto simp: recorded_def keys_ok_def)

text \<open>The part of the invariant that is about the tables alone.\<close>

definition balanced :: "database \<Rightarrow> bool" where
  "balanced d \<longleftrightarrow> db_ok d \<and> books_ok d \<and> keys_ok d \<and> total_balance d = minted (transactions d)"

lemma invariant_balanced:
  "invariant env w \<longleftrightarrow> balanced (db w) \<and> (clock_ok env \<longrightarrow> dated env (n_time w) (ledger_entries (db w)))"
  by (auto simp: invariant_def balanced_def)

lemma balanced_topup:
  assumes w: "balanced (db w)" and t: "topup_done env req userID res w w'" and ok: "db_ok (db w')"
    and a: "0 <s tu_Amount req"
  shows "balanced (db w')"
proof -
  from w have d: "db_ok (db w)" "books_ok (db w)" by (simp_all add: balanced_def)
  from t d a have books: "books_ok (db w')"
     "total_balance (db w') = total_balance (db w) + sint (tu_Amount req)"
    by (auto elim: topup_done_effect)
  from t obtain tr where tr: "transactions (db w') = transactions (db w) @ [tr]"
      "t_Type tr = TransactionTypeTopUp" "t_Amount tr = tu_Amount req"
      "t_IdempotencyKey tr = tu_IdempotencyKey req" "t_InitiatedByUserID tr = userID"
    unfolding topup_done_def topup_posted_def by blast
  have "keys_ok (db w')"
    using t w tr unfolding topup_done_def
    by (auto simp: balanced_def transaction_key_def elim!: recorded_keys)
  then show ?thesis
    using w books ok tr by (simp add: balanced_def minted_def)
qed

lemma balanced_transfer:
  assumes w: "balanced (db w)" and t: "transfer_done env req userID recipientID res w w'"
    and ok: "db_ok (db w')" and a: "0 <s tf_Amount req"
  shows "balanced (db w')"
proof -
  from w have d: "db_ok (db w)" "books_ok (db w)" by (simp_all add: balanced_def)
  from t d a have books: "books_ok (db w')" "total_balance (db w') = total_balance (db w)"
    by (auto elim: transfer_done_effect)
  from t obtain tr where tr: "transactions (db w') = transactions (db w) @ [tr]"
      "t_Type tr = TransactionTypeTransfer"
      "t_IdempotencyKey tr = tf_IdempotencyKey req" "t_InitiatedByUserID tr = userID"
    unfolding transfer_done_def transfer_posted_def by blast
  have "keys_ok (db w')"
    using t w tr unfolding transfer_done_def
    by (auto simp: balanced_def transaction_key_def elim!: recorded_keys)
  then show ?thesis
    using w books ok tr by (simp add: balanced_def minted_def)
qed

lemma invariant_topup:
  assumes w: "invariant env w" and t: "topup_done env req userID res w w'" and ok: "db_ok (db w')"
    and a: "0 <s tu_Amount req"
  shows "invariant env w'"
proof -
  from t obtain e k where e: "ledger_entries (db w') = ledger_entries (db w) @ [e]" "n_time w \<le> k"
      "k < n_time w'" "le_CreatedAt e = timestamptz (time_Now env k)"
    unfolding topup_done_def topup_posted_def by blast
  have "clock_ok env \<Longrightarrow> dated env (n_time w') (ledger_entries (db w'))"
    using w e dated_append by (auto simp: invariant_def)
  with balanced_topup [OF _ t ok a] w show ?thesis
    by (simp add: invariant_balanced)
qed

lemma invariant_transfer:
  assumes w: "invariant env w" and t: "transfer_done env req userID recipientID res w w'"
    and ok: "db_ok (db w')" and a: "0 <s tf_Amount req"
  shows "invariant env w'"
proof -
  from t obtain e e' k k' where e: "ledger_entries (db w') = ledger_entries (db w) @ [e, e']"
      "n_time w \<le> k" "k' < n_time w'" "(\<forall>m. time_Now env m \<noteq> 0) \<longrightarrow> k < k'"
      "le_CreatedAt e = timestamptz (time_Now env k)" "le_CreatedAt e' = timestamptz (time_Now env k')"
    unfolding transfer_done_def transfer_posted_def by blast
  have "dated env (n_time w') ((ledger_entries (db w) @ [e]) @ [e'])" if "clock_ok env"
  proof -
    from that e have "k < Suc k" "Suc k \<le> k'" by (auto simp: clock_ok_def)
    with that w e show ?thesis
      by (intro dated_append [of _ "Suc k" _ k'] dated_append [of _ "n_time w" _ k])
        (auto simp: invariant_def)
  qed
  with balanced_transfer [OF _ t ok a] w e(1) show ?thesis
    by (simp add: invariant_balanced)
qed

lemma run_query_aside: "aside w (run_query env q w)"
  by (cases q) (auto intro: queries_aside [THEN aside_preserves, OF surjective_pairing])

lemma command_cases:
  assumes ok: "db_ok (db w)"
  obtains (aside) "aside w (run_command env pg c w)"
    | (registered) user where "registered user (db w) (db (run_command env pg c w))"
        and "db_ok (db (run_command env pg c w))" and "n_time w \<le> n_time (run_command env pg c w)"
    | (topup) req userID res where "topup_done env req userID res w (run_command env pg c w)"
        and "db_ok (db (run_command env pg c w))" and "0 <s tu_Amount req" and "c = DoTopUp req"
    | (transfer) req userID recipientID res
      where "transfer_done env req userID recipientID res w (run_command env pg c w)"
        and "db_ok (db (run_command env pg c w))" and "0 <s tf_Amount req" and "c = DoTransfer req"
proof -
  have same: "aside w w'" if "db w' = db w" "n_time w \<le> n_time w'" for w'
    using that by (simp add: aside_def)
  note run = surjective_pairing
  show ?thesis
  proof (cases c)
    case Seed
    have t: "n_time w \<le> n_time (run_command env pg c w)"
      using Seed preserves_snd [OF clock_seedAdmin _ run] by simp
    from ok run [of "seedAdmin env (pg_seed pg) w"] show ?thesis
      by (rule seedAdmin_cases) (use Seed t same in \<open>auto intro: aside registered\<close>)
  next
    case (DoRegister req)
    have t: "n_time w \<le> n_time (run_command env pg c w)"
      using DoRegister preserves_snd [OF clock_Register _ run] by simp
    from ok run [of "Register env req w"] show ?thesis
      by (rule Register_cases) (use DoRegister t same in \<open>auto intro: aside registered\<close>)
  next
    case (DoTopUp req)
    have t: "n_time w \<le> n_time (run_command env pg c w)"
      using DoTopUp preserves_snd [OF clock_TopUp [OF configured_notifier_ok] _ run] by simp
    from configured_notifier_ok ok run [of "TopUp env (configured_notifier env (pg_hooks pg)) req w"]
    show ?thesis
      by (rule TopUp_cases) (use DoTopUp t same in \<open>auto intro: aside topup\<close>)
  next
    case (DoTransfer req)
    have t: "n_time w \<le> n_time (run_command env pg c w)"
      using DoTransfer preserves_snd [OF clock_Transfer [OF configured_notifier_ok] _ run] by simp
    from configured_notifier_ok ok run [of "Transfer env (configured_notifier env (pg_hooks pg)) req w"]
    show ?thesis
      by (rule Transfer_cases) (use DoTransfer t same in \<open>auto intro: aside transfer\<close>)
  next
    case (DoLogin req)
    then show ?thesis by (intro aside) (auto intro: aside_preserves [OF aside_Login run])
  next
    case (DoQuery q)
    then show ?thesis by (intro aside) (simp add: run_query_aside)
  next
    case (DoReconcile s)
    then show ?thesis by (intro aside) (auto intro: aside_preserves [OF aside_Reconciliation_Run run])
  next
    case (DoWork ev)
    then show ?thesis by (intro aside) (simp add: aside_worker_turn split: option.split)
  next
    case Restart
    then show ?thesis by (intro aside) (simp add: aside_def)
  qed
qed

lemma invariant_run:
  assumes w: "invariant env w"
  shows "invariant env (run_command env pg c w)"
proof -
  from w have "db_ok (db w)" by (simp add: invariant_def)
  then show ?thesis
    by (cases rule: command_cases [where env = env and pg = pg and c = c])
      (use w in \<open>blast intro: invariant_aside invariant_registered invariant_topup invariant_transfer\<close>)+
qed

lemma reachable_invariant: "reachable env pg w \<Longrightarrow> invariant env w"
  by (induction rule: reachable.induct) (simp_all add: invariant_initial invariant_run)

section \<open>Sequences of commands\<close>

definition run_commands :: "env \<Rightarrow> program \<Rightarrow> command list \<Rightarrow> world \<Rightarrow> world" where
  "run_commands env pg cs w = fold (run_command env pg) cs w"

definition extends :: "database \<Rightarrow> database \<Rightarrow> bool" where
  "extends d d' \<longleftrightarrow> (\<exists>ts es rs. transactions d' = transactions d @ ts \<and>
     ledger_entries d' = ledger_entries d @ es \<and> idempotency_records d' = idempotency_records d @ rs)"

lemma extends_refl: "extends d d"
  by (simp add: extends_def)

lemma extends_trans: "extends d d1 \<Longrightarrow> extends d1 d2 \<Longrightarrow> extends d d2"
  by (auto simp: extends_def)

lemma extends_run:
  assumes "db_ok (db w)"
  shows "extends (db w) (db (run_command env pg c w))"
  using assms
proof (cases rule: command_cases [where env = env and pg = pg and c = c])
  case (topup req userID res)
  then show ?thesis
    by (auto simp: topup_done_def topup_posted_def recorded_def extends_def)
next
  case (transfer req userID recipientID res)
  then show ?thesis
    by (auto simp: transfer_done_def transfer_posted_def recorded_def extends_def)
qed (auto simp: aside_def registered_def extends_def)

lemma invariant_run_commands:
  "invariant env w \<Longrightarrow> invariant env (run_commands env pg cs w) \<and> extends (db w) (db (run_commands env pg cs w))"
proof (induction cs arbitrary: w)
  case (Cons c cs)
  have "extends (db w) (db (run_command env pg c w))"
    using Cons.prems by (intro extends_run) (simp add: invariant_def)
  with Cons.IH [OF invariant_run [OF Cons.prems]] show ?case
    by (auto simp: run_commands_def intro: extends_trans)
qed (simp add: run_commands_def extends_refl)

lemma dated_strict:
  assumes "clock_ok env" and "dated env n es"
  shows "sorted_wrt (<) (map le_CreatedAt es)"
proof -
  from assms(2) obtain ks where ks: "sorted_wrt (<) ks"
     "map le_CreatedAt es = map (\<lambda>k. timestamptz (time_Now env k)) ks"
    unfolding dated_def by blast
  from assms(1) sorted_wrt_mono_rel [OF _ ks(1)]
  have "sorted_wrt (\<lambda>j k. timestamptz (time_Now env j) < timestamptz (time_Now env k)) ks"
    by (simp add: clock_ok_def)
  then show ?thesis by (simp add: ks(2) sorted_wrt_map)
qed

lemma clock_ascending:
  "clock_ok env \<Longrightarrow> reachable env pg w \<Longrightarrow> ascending (ledger_entries (db w)) i"
  using reachable_invariant [of env pg w] dated_strict [of env "n_time w" "ledger_entries (db w)"]
  by (simp add: invariant_def ascending_def entries_of_wallet_def sorted_wrt_map sorted_wrt_filter)

lemma healthy_database:
  assumes "invariant env w" and "\<forall>v \<in> set (wallets (db w)). ascending (ledger_entries (db w)) (w_ID v)"
    and "set ws = set (wallets (db w))" and "set ts = set (transactions (db w))"
    and "mset es = mset (ledger_entries (db w))"
  shows "rr_Healthy (reconcileState env at ws ts es)"
  unfolding report_consistent
  using assms by (intro consistent_books) (auto simp: invariant_def)

end
