(* ===== verification/Outbox.thy ===== *)
theory Outbox
  imports System
begin

text \<open>
  The table of webhook deliveries as an outbox of the transactions. \<open>TopUp\<close> and \<open>Transfer\<close>
  of \<^verbatim>\<open>internal/usecase/transaction.go\<close> create the delivery inside the database transaction
  that posts, so with webhooks configured the deliveries correspond one to one, in order, to
  the posted transactions, whatever fails; and the worker of \<^verbatim>\<open>internal/usecase/webhook.go\<close>
  keeps every delivery in a state its life cycle allows.
\<close>

section \<open>What a posting adds\<close>

definition hooks_on :: "WebhookConfig option \<Rightarrow> bool" where
  "hooks_on hooks = (case hooks of None \<Rightarrow> False | Some cfg \<Rightarrow> wc_Enabled cfg \<and> wc_TargetURL cfg \<noteq> '''')"

definition new_delivery :: "WebhookConfig \<Rightarrow> uuid \<Rightarrow> WebhookDelivery \<Rightarrow> bool" where
  "new_delivery cfg transactionID v \<longleftrightarrow> wd_TransactionID v = Some transactionID \<and>
     wd_Status v = WebhookDeliveryStatusPending \<and> wd_RetryCount v = 0 \<and>
     wd_MaxRetry v = normalizedMaxRetry cfg \<and> wd_TargetURL v = wc_TargetURL cfg \<and>
     wd_NextRetryAt v = None"

text \<open>Creating a delivery, and a whole operation, as relations between the tables.\<close>

definition delivery_created :: "WebhookConfig option \<Rightarrow> uuid \<Rightarrow> database \<Rightarrow> database \<Rightarrow> bool" where
    "delivery_created hooks i d d' \<longleftrightarrow> transactions d' = transactions d \<and>
     (if hooks_on hooks
      then \<exists>v. new_delivery (the hooks) i v \<and> webhook_deliveries d' = webhook_deliveries d @ [v]
      else webhook_deliveries d' = webhook_deliveries d)"

definition outbox_step :: "WebhookConfig option \<Rightarrow> database \<Rightarrow> database \<Rightarrow> bool" where
  "outbox_step hooks d d' \<longleftrightarrow>
     transactions d' = transactions d \<and> webhook_deliveries d' = webhook_deliveries d \<or>
     (\<exists>t. transactions d' = transactions d @ [t] \<and>
        (if hooks_on hooks
         then \<exists>v. new_delivery (the hooks) (t_ID t) v \<and> webhook_deliveries d' = webhook_deliveries d @ [v]
         else webhook_deliveries d' = webhook_deliveries d))"

lemma createDelivery_creates:
  "wp (createDelivery env cfg ev t p) (\<lambda>_ s'. delivery_created (Some cfg) (t_ID t) (db s) (db s')) (\<lambda>_ _. True) s"
  by (simp add: createDelivery_def WebhookDeliveries_Create_def wp_rules Let_def)
    (auto simp: insert_webhook_delivery_def delivery_created_def hooks_on_def new_delivery_def)

text \<open>
  Only an empty address switches deliveries off. One that consists of blanks does not, and the
  schema refuses it: with such a configuration nothing can be posted.
\<close>

lemma blank_url_fails:
  assumes "hooks_on (Some cfg)" and "list_all (\<lambda>c. c = CHR '' '') (wc_TargetURL cfg)"
  shows "\<exists>e s'. createDelivery env cfg ev t p s = (Inl e, s')"
proof -
  have "\<not> list_ex (\<lambda>c. c \<noteq> CHR '' '') (wc_TargetURL cfg)"
    using assms(2) by (auto simp: list_ex_iff list_all_iff)
  then have "wp (createDelivery env cfg ev t p) (\<lambda>_ _. False) (\<lambda>_ _. True) s"
    using assms(1) by (simp add: hooks_on_def createDelivery_def WebhookDeliveries_Create_def wp_rules Let_def
        insert_webhook_delivery_def webhook_delivery_check_def constrained_def)
  then show ?thesis by (auto simp: wp_def split: prod.splits sum.splits)
qed

lemma notifier_creates:
  "wp (CreateTopUpDelivery (configured_notifier env hooks) t v)
     (\<lambda>_ s'. delivery_created hooks (t_ID t) (db s) (db s')) (\<lambda>_ _. True) s"
  "wp (CreateTransferDelivery (configured_notifier env hooks) t v v')
     (\<lambda>_ s'. delivery_created hooks (t_ID t) (db s) (db s')) (\<lambda>_ _. True) s"
proof -
  have none: "delivery_created None i d d" for i d by (simp add: delivery_created_def hooks_on_def)
  note some = createDelivery_creates [of env _ _ t _ "s\<lparr>n_time := Suc (n_time s)\<rparr>", simplified]
  show "wp (CreateTopUpDelivery (configured_notifier env hooks) t v)
     (\<lambda>_ s'. delivery_created hooks (t_ID t) (db s) (db s')) (\<lambda>_ _. True) s"
    using some by (cases hooks) (simp_all add: configured_notifier_def usecase_notifier_def
        NoopWebhookService_def WebhookService_def service_CreateTopUpDelivery_def wp_rules none)
  show "wp (CreateTransferDelivery (configured_notifier env hooks) t v v')
     (\<lambda>_ s'. delivery_created hooks (t_ID t) (db s) (db s')) (\<lambda>_ _. True) s"
    using some by (cases hooks) (simp_all add: configured_notifier_def usecase_notifier_def
        NoopWebhookService_def WebhookService_def service_CreateTransferDelivery_def wp_rules none)
qed

lemma insert_transaction_posts:
  "insert_transaction t d = Inr (x, d') \<Longrightarrow> webhook_deliveries d' = webhook_deliveries d \<and>
     (\<exists>t'. t_ID t' = t_ID t \<and> transactions d' = transactions d @ [t'])"
  by (auto simp: insert_transaction_def)

text \<open>The other statements of a posting touch neither table.\<close>

definition outbox_frame :: "database \<Rightarrow> database \<Rightarrow> bool" where
  "outbox_frame d d' \<longleftrightarrow> transactions d' = transactions d \<and> webhook_deliveries d' = webhook_deliveries d"

lemma outbox_frames:
  "save_wallet v d = Inr (x, d') \<Longrightarrow> outbox_frame d d'"
  "insert_ledger_entries es d = Inr (y, d') \<Longrightarrow> outbox_frame d d'"
  "insert_audit_log a d = Inr (z, d') \<Longrightarrow> outbox_frame d d'"
  "complete_idempotency i c b u d = Inr (z', d') \<Longrightarrow> outbox_frame d d'"
  by (auto simp: outbox_frame_def save_wallet_def update_wallet_def insert_wallet_def
      insert_ledger_entries_def insert_audit_log_def complete_idempotency_def split: if_splits)

lemma outbox_posted:
  assumes "insert_transaction t d = Inr (x, d1)" and "delivery_created hooks i d2 d3" and "i = t_ID t"
    and "outbox_frame d1 d2" and "outbox_frame d3 d4" and "outbox_frame d0 d"
  shows "outbox_step hooks d0 d4"
  using insert_transaction_posts [OF assms(1)] assms(2-6)
  by (auto simp: outbox_frame_def delivery_created_def outbox_step_def)

lemma outbox_frame_trans: "outbox_frame d d1 \<Longrightarrow> outbox_frame d1 d2 \<Longrightarrow> outbox_frame d d2"
  by (simp add: outbox_frame_def)

lemma topup_post_outbox:
  assumes "outbox_frame d (db s)"
  shows "wp (topup_post env (configured_notifier env hooks) req u rid locked)
     (\<lambda>_ s'. outbox_step hooks d (db s')) (\<lambda>_ _. True) s"
  unfolding topup_post_def Let_def
  apply (simp add: wp_rules repository_defs Let_def)
  apply clarsimp
  apply (rule wp_mono [OF notifier_creates(1)])
   apply (clarsimp simp: wp_rules)
   apply (rule outbox_posted, assumption, assumption, simp)
     apply (blast intro: outbox_frames outbox_frame_trans)
    apply (erule outbox_frames)
   apply (rule assms)
  apply simp
  done

lemma transfer_post_outbox:
  assumes "outbox_frame d (db s)"
  shows "wp (transfer_post env (configured_notifier env hooks) req u rid sender recipient)
     (\<lambda>_ s'. outbox_step hooks d (db s')) (\<lambda>_ _. True) s"
  unfolding transfer_post_def Let_def
  apply (simp add: wp_rules repository_defs Let_def)
  apply clarsimp
  apply (rule wp_mono [OF notifier_creates(2)])
   apply (clarsimp simp: wp_rules)
   apply (rule outbox_posted, assumption, assumption, simp)
     apply (blast intro: outbox_frames outbox_frame_trans)
    apply (erule outbox_frames)
   apply (rule assms)
  apply simp
  done

lemma outbox_refl: "outbox_step hooks d d"
  by (simp add: outbox_step_def)

lemma reserve_outbox:
  assumes "db_ok (db s)"
  shows "wp (reserve_or_replay env key user h ep) (\<lambda>r s'. outbox_frame (db s) (db s')) (\<lambda>_ _. True) s"
  by (rule wp_mono [OF reserve_or_replay_spec [OF assms]])
    (auto simp: outbox_frame_def reserved_def split: sum.splits)

lemma outbox_step_frame: "outbox_frame d d1 \<Longrightarrow> outbox_step hooks d1 d2 \<Longrightarrow> outbox_step hooks d d2"
  by (auto simp: outbox_frame_def outbox_step_def)

lemma topup_body_outbox:
  assumes "db_ok (db s)"
  shows "wp (topup_body env (configured_notifier env hooks) req u)
     (\<lambda>_ s'. outbox_step hooks (db s) (db s')) (\<lambda>_ _. True) s"
  unfolding topup_body_def
  apply (simp only: wp_and_then)
  apply (rule wp_mono [OF reserve_outbox [OF assms]])
   apply (auto simp: wp_rules repository_defs Let_def outbox_refl split: sum.split list.split
      intro: outbox_step_frame [OF _ outbox_refl] intro!: topup_post_outbox)
  done

lemma transfer_body_outbox:
  assumes "db_ok (db s)"
  shows "wp (transfer_body env (configured_notifier env hooks) req u i)
     (\<lambda>_ s'. outbox_step hooks (db s) (db s')) (\<lambda>_ _. True) s"
  unfolding transfer_body_def
  apply (simp only: wp_and_then)
  apply (rule wp_mono [OF reserve_outbox [OF assms]])
   apply (auto simp: wp_rules repository_defs Let_def outbox_refl split: sum.split list.split
      intro: outbox_step_frame [OF _ outbox_refl] intro!: transfer_post_outbox)
  done

lemma finish_outbox:
  assumes n: "webhook_notifier n" and body: "\<And>s. db_ok (db s) \<Longrightarrow>
      wp body (\<lambda>_ s'. outbox_step hooks (db s) (db s')) (\<lambda>_ _. True) s"
    and ok: "db_ok (db w)"
  shows "outbox_step hooks (db w) (db (snd (finish n (WithinTransaction env body) w)))"
proof -
  obtain r w1 where tx: "WithinTransaction env body w = (r, w1)" by (cases "WithinTransaction env body w")
  have "outbox_step hooks (db w) (db w1)"
    using tx outbox_refl
  proof (rule gorm_tx.all_or_nothing)
    fix w0 x w2 assume "db w0 = db w" and "body w0 = (Inr x, w2)"
    with ok body [of w0] show "outbox_step hooks (db w) (db w2)" by (auto dest: wp_Inr)
  qed
  with tx show ?thesis
    using webhook_notifier.enqueue_touches [OF n]
    by (auto simp: finish_def split: sum.split option.split)
qed

lemma TopUp_outbox:
  "db_ok (db w) \<Longrightarrow> outbox_step hooks (db w) (db (snd (TopUp env (configured_notifier env hooks) req w)))"
  by (auto simp: TopUp_def throw_def outbox_refl split: option.split
      intro!: finish_outbox topup_body_outbox)

lemma Transfer_outbox:
  "db_ok (db w) \<Longrightarrow> outbox_step hooks (db w) (db (snd (Transfer env (configured_notifier env hooks) req w)))"
  by (auto simp: Transfer_def throw_def outbox_refl split: option.split
      intro!: finish_outbox transfer_body_outbox)

section \<open>The life of a delivery\<close>

definition lifecycle :: "WebhookDelivery \<Rightarrow> bool" where
  "lifecycle v \<longleftrightarrow> (case wd_Status v of
     WebhookDeliveryStatusPending \<Rightarrow> wd_RetryCount v = 0 \<and> 0 < wd_MaxRetry v \<and> wd_NextRetryAt v = None
   | WebhookDeliveryStatusRetrying \<Rightarrow>
       0 < wd_RetryCount v \<and> wd_RetryCount v < wd_MaxRetry v \<and> wd_NextRetryAt v \<noteq> None
   | WebhookDeliveryStatusSuccess \<Rightarrow>
       0 \<le> wd_RetryCount v \<and> wd_RetryCount v < wd_MaxRetry v \<and> wd_NextRetryAt v = None \<and>
       (\<exists>c. wd_LastHTTPStatus v = Some c \<and> 200 \<le> c \<and> c < 300)
   | WebhookDeliveryStatusFailed \<Rightarrow>
       0 < wd_MaxRetry v \<and> wd_RetryCount v = wd_MaxRetry v \<and> wd_NextRetryAt v = None
   | WebhookDeliveryStatusOther _ \<Rightarrow> False)"

definition outbox_ok :: "WebhookConfig option \<Rightarrow> database \<Rightarrow> bool" where
  "outbox_ok hooks d \<longleftrightarrow> list_all lifecycle (webhook_deliveries d) \<and>
     map wd_TransactionID (webhook_deliveries d) =
       (if hooks_on hooks then map (\<lambda>t. Some (t_ID t)) (transactions d) else [])"

lemma new_delivery_ok: "new_delivery cfg i v \<Longrightarrow> lifecycle v \<and> wd_TransactionID v = Some i"
  by (simp add: new_delivery_def lifecycle_def normalizedMaxRetry_def)

lemma delivery_step_lifecycle: "delivery_step cfg v v' \<Longrightarrow> lifecycle v \<Longrightarrow> lifecycle v'"
  by (erule delivery_stepE)
    (auto simp: lifecycle_def terminal_def same_message_def split: WebhookDeliveryStatus.splits)

lemma delivery_step_message: "delivery_step cfg v v' \<Longrightarrow> same_message v v'"
  by (erule delivery_stepE) auto

lemma outbox_step_ok: "outbox_step hooks d d' \<Longrightarrow> outbox_ok hooks d \<Longrightarrow> outbox_ok hooks d'"
  by (auto simp: outbox_step_def outbox_ok_def split: if_splits dest: new_delivery_ok)

lemma row_step_ok:
  assumes "row_step cfg i d d'" and ok: "db_ok d" and "outbox_ok hooks d"
  shows "outbox_ok hooks d'"
  using assms(1) unfolding row_step_def
proof (elim disjE exE conjE)
  fix v v' assume v: "v \<in> set (webhook_deliveries d)" "wd_ID v = i" and step: "delivery_step cfg v v'"
    and d': "d' = d\<lparr>webhook_deliveries := replace_row wd_ID v' (webhook_deliveries d)\<rparr>"
  note msg = delivery_step_message [OF step]
  have life: "lifecycle v" using v(1) assms(3) by (auto simp: outbox_ok_def list_all_iff)
  have "map wd_TransactionID (replace_row wd_ID v' (webhook_deliveries d)) =
      map wd_TransactionID (webhook_deliveries d)"
    using msg delivery_unique [OF ok v(1)] by (auto simp: replace_row_def same_message_def)
  moreover have "list_all lifecycle (replace_row wd_ID v' (webhook_deliveries d))"
    using assms(3) delivery_step_lifecycle [OF step life]
    by (auto simp: outbox_ok_def list_all_iff set_replace_row)
  ultimately show ?thesis using assms(3) d' by (simp add: outbox_ok_def)
qed (use assms(3) in simp)

section \<open>What other requests and the worker leave alone\<close>

text \<open>
  A property of the tables that survives a new audit log survives every reading request, a login
  and a reconciliation; if it also survives a step of a delivery, it survives the worker.
\<close>

locale audit_invariant =
  fixes P :: "database \<Rightarrow> bool"
  assumes audited: "P d \<Longrightarrow> insert_audit_log a d = Inr ((), d') \<Longrightarrow> P d'"
begin

lemma audit_kept [preserves_intros]: "preserves (\<lambda>w. P (db w)) (Audits_Create env log)"
  unfolding Audits_Create_def Let_def
  by (intro preserves_intros preserves_statement) (metis audited old.unit.exhaust)

lemma query_kept: "P (db w) \<Longrightarrow> P (db (run_query env q w))"
proof -
  have "preserves (\<lambda>w. P (db w)) (GetMe env s)" "preserves (\<lambda>w. P (db w)) (GetMyWallet env s)"
    "preserves (\<lambda>w. P (db w)) (GetMyBalance env s)" "preserves (\<lambda>w. P (db w)) (ListAuditLogs env s p)"
    "preserves (\<lambda>w. P (db w)) (Admin_ListTransactions env s p)"
    "preserves (\<lambda>w. P (db w)) (ListWebhooks env s f p)" "preserves (\<lambda>w. P (db w)) (GetWebhook env s i)"
    "preserves (\<lambda>w. P (db w)) (Health_Check (health_ping env redis))"
    "preserves (\<lambda>w. P (db w)) (ListMyTransactions env s p)"
    "preserves (\<lambda>w. P (db w)) (GetMyTransaction env s i)"
    "preserves (\<lambda>w. P (db w)) (ListMyLedgers env s p)"
    "preserves (\<lambda>w. P (db w)) (ListTransactionLedgers env s i)" for s p f i redis
    unfolding query_defs list_defs list_page_def audit_read_def by (intro preserves_intros)+
  note keep = this [THEN preserves_snd, OF _ surjective_pairing]
  show "P (db w) \<Longrightarrow> P (db (run_query env q w))" by (cases q) (simp_all add: keep)
qed

lemma login_kept: "preserves (\<lambda>w. P (db w)) (Login env m req)"
proof -
  have "preserves (\<lambda>w. P (db w)) (GenerateToken env m u)" for u
    unfolding GenerateToken_def Let_def by (auto intro!: preserves_intros split: sum.split)
  then show ?thesis
    unfolding Login_def Let_def hash_Compare_def Users_GetByEmail_def
    by (intro preserves_intros preserves_cases preserves_answer)
qed

lemma reconciliation_kept: "preserves (\<lambda>w. P (db w)) (Reconciliation_Run env s)"
  unfolding Reconciliation_Run_def Let_def Reconciliation_ListWallets_def
    Reconciliation_ListTransactions_def Reconciliation_ListLedgerEntries_def
  by (intro preserves_intros)

end

locale delivery_invariant = audit_invariant +
  assumes stepped: "row_step cfg i d d' \<Longrightarrow> db_ok d \<Longrightarrow> P d \<Longrightarrow> P d'"
begin

lemma each_kept: "db_ok (db w) \<Longrightarrow> P (db w) \<Longrightarrow> P (db (process_each env cfg vs w))"
proof (induction vs arbitrary: w)
  case (Cons v vs)
  let ?w1 = "snd (ProcessDelivery env cfg (wd_ID v) w)"
  have "db_ok (db ?w1)"
    using aside_preserves [OF aside_ProcessDelivery surjective_pairing] Cons.prems(1) by (auto simp: aside_def)
  moreover have "P (db ?w1)"
    using stepped [OF ProcessDelivery_row_step [OF surjective_pairing] Cons.prems] .
  ultimately show ?case using Cons.IH by simp
qed simp

lemma worker_kept:
  assumes "db_ok (db w)" and "P (db w)"
  shows "P (db (worker_turn env cfg ev w))"
proof (cases ev)
  case FromQueue
  with assms show ?thesis
    using stepped [OF ProcessDelivery_row_step [OF surjective_pairing]]
    by (auto split: list.split)
next
  case Tick
  have "preserves (\<lambda>w. db_ok (db w) \<and> P (db w)) (ProcessDue env cfg (batchSize cfg))"
  proof -
    have frame: "preserves (\<lambda>w. Q (db w)) (WebhookDeliveries_ListDue env t k)" for Q t k
      unfolding WebhookDeliveries_ListDue_def by (rule preserves_query)
    have "preserves (\<lambda>w. db_ok (db w) \<and> P (db w)) (modify_state (process_each env cfg vs))" for vs
      using aside_process_each [OF aside_refl]
      by (auto simp: preserves_def modify_state_def each_kept aside_def)
    then show ?thesis
      unfolding ProcessDue_def
      by (intro preserves_and_then frame preserves_now [of "\<lambda>d. db_ok d \<and> P d"])
  qed
  from preserves_snd [OF this _ surjective_pairing] assms Tick show ?thesis by simp
qed

end

interpretation outbox: delivery_invariant "outbox_ok hooks" for hooks
proof unfold_locales
  fix d d' a cfg i
  show "outbox_ok hooks d \<Longrightarrow> insert_audit_log a d = Inr ((), d') \<Longrightarrow> outbox_ok hooks d'"
    by (auto simp: insert_audit_log_def outbox_ok_def)
  show "row_step cfg i d d' \<Longrightarrow> db_ok d \<Longrightarrow> outbox_ok hooks d \<Longrightarrow> outbox_ok hooks d'"
    by (rule row_step_ok)
qed

section \<open>Every reachable state\<close>

lemma outbox_registered: "registered user d d' \<Longrightarrow> outbox_ok hooks d \<Longrightarrow> outbox_ok hooks d'"
  by (auto simp: registered_def outbox_ok_def)

lemma outbox_command:
  assumes ok: "db_ok (db w)" and w: "outbox_ok (pg_hooks pg) (db w)"
  shows "outbox_ok (pg_hooks pg) (db (run_command env pg c w))"
proof (cases c)
  case Seed
  from ok surjective_pairing [of "seedAdmin env (pg_seed pg) w"] show ?thesis
    by (rule seedAdmin_cases) (use Seed w in \<open>auto intro: outbox_registered\<close>)
next
  case (DoRegister req)
  from ok surjective_pairing [of "Register env req w"] show ?thesis
    by (rule Register_cases) (use DoRegister w in \<open>auto intro: outbox_registered\<close>)
next
  case (DoQuery q)
  with w show ?thesis
    by (simp add: outbox.query_kept)
next
  case (DoWork ev)
  with ok w show ?thesis by (auto intro: outbox.worker_kept split: option.split)
qed (use w outbox_step_ok [OF TopUp_outbox [OF ok] w] outbox_step_ok [OF Transfer_outbox [OF ok] w]
      preserves_snd [OF outbox.login_kept _ surjective_pairing]
      preserves_snd [OF outbox.reconciliation_kept _ surjective_pairing] in \<open>simp_all\<close>)

lemma reachable_outbox: "reachable env pg w \<Longrightarrow> outbox_ok (pg_hooks pg) (db w)"
proof (induction rule: reachable.induct)
  case start
  show ?case by (simp add: initial_world_def empty_database_def outbox_ok_def)
next
  case (step w c)
  then show ?case using reachable_invariant [of env pg w] by (intro outbox_command) (simp_all add: invariant_def)
qed

end
