(* ===== verification/Worker.thy ===== *)
theory Worker
  imports Outbox
begin

text \<open>
  What the webhook worker of \<^verbatim>\<open>internal/usecase/webhook.go\<close> achieves: the connection is idle
  between commands, so every scan runs, and a scan delivers what is due when the receiver
  answers.
\<close>

section \<open>The session between commands\<close>

text \<open>Every command leaves the connection outside a transaction block.\<close>

definition idle :: "world \<Rightarrow> bool" where
  "idle w \<longleftrightarrow> sql_session w = NoTx"

lemma idle_statement [preserves_intros]: "preserves idle (statement env q)"
  by (auto simp: preserves_def idle_def statement_def Let_def abort_block_def
      split: option.split fault.split sum.split)

lemma idle_basics [preserves_intros]:
  "preserves idle (query env f)" "preserves idle (new_uuid env)" "preserves idle (now env)"
  "preserves idle (first_or_not_found x)" "preserves idle (hash_Password env p)"
  unfolding query_def
  by (rule idle_statement)
    (auto simp: preserves_def idle_def new_uuid_def now_def first_or_not_found_def ok_def throw_def
      hash_Password_def split: option.split)

lemma idle_WithinTransaction [preserves_intros]: "preserves idle (WithinTransaction env fn)"
  by (auto simp: preserves_def idle_def WithinTransaction_def sql_commit_def sql_rollback_def Let_def
      split: option.split fault.split sum.split prod.split)

lemma idle_repositories [preserves_intros]:
  "preserves idle (Audits_Create env log)" "preserves idle (Users_GetByEmail env e)"
  "preserves idle (WebhookDeliveries_GetByID env i)" "preserves idle (WebhookDeliveries_Update env v)"
  "preserves idle (WebhookDeliveries_ListDue env t k)" "preserves idle (list_page env f g params)"
  unfolding Audits_Create_def Users_GetByEmail_def WebhookDeliveries_GetByID_def
    WebhookDeliveries_Update_def WebhookDeliveries_ListDue_def list_page_def Let_def
  by (intro preserves_intros)+

lemma idle_queries:
  "preserves idle (GetMe env s)" "preserves idle (GetMyWallet env s)"
  "preserves idle (GetMyBalance env s)" "preserves idle (ListAuditLogs env s p)"
  "preserves idle (Admin_ListTransactions env s p)" "preserves idle (ListWebhooks env s f p)"
  "preserves idle (GetWebhook env s i)" "preserves idle (Health_Check (health_ping env redis))"
  "preserves idle (ListMyTransactions env s p)" "preserves idle (GetMyTransaction env s i)"
  "preserves idle (ListMyLedgers env s p)" "preserves idle (ListTransactionLedgers env s i)"
  unfolding query_defs list_defs audit_read_def by (intro preserves_intros)+

lemma idle_Login: "preserves idle (Login env m req)"
proof -
  have "preserves idle (GenerateToken env m u)" for u
    unfolding GenerateToken_def Let_def by (auto intro!: preserves_intros split: sum.split)
  then show ?thesis
    unfolding Login_def Let_def hash_Compare_def
    by (intro preserves_intros preserves_cases preserves_answer)
qed

lemma idle_Reconciliation: "preserves idle (Reconciliation_Run env s)"
  unfolding Reconciliation_Run_def Let_def Reconciliation_ListWallets_def
    Reconciliation_ListTransactions_def Reconciliation_ListLedgerEntries_def
  by (intro preserves_intros)

lemma idle_Register: "preserves idle (Register env req)"
proof -
  have "preserves idle (register_new env n e p)" for n e p
    unfolding register_new_def Let_def by (intro preserves_intros preserves_answers)
  then show ?thesis
    unfolding Register_def Let_def by (intro preserves_intros preserves_answers)
qed

lemma idle_seedAdmin: "preserves idle (seedAdmin env cfg)"
  unfolding seedAdmin_def by (intro preserves_intros)

lemma idle_Enqueue: "idle w \<Longrightarrow> idle (Enqueue (configured_notifier env hooks) i w)"
  by (cases hooks) (simp_all add: configured_notifier_def usecase_notifier_def NoopWebhookService_def
      WebhookService_def service_Enqueue_def idle_def)

lemma idle_finish: "preserves idle (finish (configured_notifier env hooks) (WithinTransaction env body))"
proof (rule preservesI)
  fix w r w' assume "idle w" and "finish (configured_notifier env hooks) (WithinTransaction env body) w = (r, w')"
  then show "idle w'"
    using preserves_snd [OF idle_WithinTransaction, of w env body]
    by (auto simp: finish_def idle_Enqueue split: prod.splits sum.splits option.splits)
qed

lemma idle_money:
  "preserves idle (TopUp env (configured_notifier env hooks) req)"
  "preserves idle (Transfer env (configured_notifier env hooks) treq)"
  unfolding TopUp_def Transfer_def by (intro preserves_intros idle_finish)+

lemma idle_ProcessDelivery: "preserves idle (ProcessDelivery env cfg i)"
proof -
  have fail: "preserves idle (markFailure env cfg v c m)" for v c m
    unfolding markFailure_def by (intro preserves_intros)
  have deliver: "preserves idle (markDelivered env v c)" for v c
    unfolding markDelivered_def by (intro preserves_intros)
  have "preserves idle (\<lambda>w. case client_Do env rq w of
      (Inl message, w') \<Rightarrow> markFailure env cfg v 0 message w'
    | (Inr c, w') \<Rightarrow> if c < 200 \<or> c \<ge> 300 then markFailure env cfg v c (msg c) w'
        else markDelivered env v c w')" for rq v msg
    using fail deliver
    by (auto simp: preserves_def client_Do_def idle_def split: sum.split)
  with fail show ?thesis
    unfolding ProcessDelivery_def by (intro preserves_intros)
qed

lemma idle_worker_turn: "idle w \<Longrightarrow> idle (worker_turn env cfg ev w)"
proof -
  have each: "idle w \<Longrightarrow> idle (process_each env cfg vs w)" for vs w
    by (induction vs arbitrary: w) (auto intro: preserves_snd [OF idle_ProcessDelivery _ surjective_pairing])
  then have "preserves idle (modify_state (process_each env cfg vs))" for vs
    by (simp add: preserves_def modify_state_def)
  then have due: "preserves idle (ProcessDue env cfg k)" for k
    unfolding ProcessDue_def by (intro preserves_intros)
  assume w: "idle w"
  have "idle (w\<lparr>webhook_queue := q\<rparr>)" for q using w by (simp add: idle_def)
  with w due idle_ProcessDelivery show ?thesis
    by (cases ev) (auto split: list.split intro: preserves_snd [OF _ _ surjective_pairing])
qed

lemma idle_restart [simp]: "idle (w\<lparr>sql_session := NoTx, webhook_queue := q\<rparr>)"
  by (simp add: idle_def)

lemma idle_command: "idle w \<Longrightarrow> idle (run_command env pg c w)"
proof (cases c)
  case (DoQuery q)
  assume "idle w"
  with DoQuery show ?thesis
    by (cases q) (auto intro: idle_queries [THEN preserves_snd, OF _ surjective_pairing])
qed (auto intro: idle_Login [THEN preserves_snd, OF _ surjective_pairing]
      idle_Register [THEN preserves_snd, OF _ surjective_pairing]
      idle_seedAdmin [THEN preserves_snd, OF _ surjective_pairing]
      idle_money [THEN preserves_snd, OF _ surjective_pairing]
      idle_Reconciliation [THEN preserves_snd, OF _ surjective_pairing] idle_worker_turn
    split: option.split)

lemma reachable_idle: "reachable env pg w \<Longrightarrow> sql_session w = NoTx"
proof (induction rule: reachable.induct)
  case (step w c)
  then show ?case using idle_command [of w env pg c] by (simp add: idle_def)
qed (simp add: initial_world_def)

section \<open>The retry scan delivers\<close>

text \<open>A receiver that accepts every request.\<close>

definition receiver_up :: "env \<Rightarrow> bool" where
  "receiver_up env \<longleftrightarrow> (\<forall>u. http_NewRequest env u = None) \<and>
     (\<forall>k rq. \<exists>c. http_Do env k rq = Inr c \<and> 200 \<le> c \<and> c < 300)"

lemma other_rows_kept:
  assumes "row_step cfg i d d'" and "u \<in> set (webhook_deliveries d)" and "wd_ID u \<noteq> i"
  shows "u \<in> set (webhook_deliveries d')"
  using assms(1) unfolding row_step_def
proof (elim disjE exE conjE)
  fix v v' assume "wd_ID v = i" "delivery_step cfg v v'"
    "d' = d\<lparr>webhook_deliveries := replace_row wd_ID v' (webhook_deliveries d)\<rparr>"
  with assms(2,3) delivery_step_message [of cfg v v'] show ?thesis
    by (auto simp: set_replace_row same_message_def)
qed (use assms(2) in simp)

lemma successful_attempt:
  assumes env: "no_faults env" "receiver_up env" and s: "sql_session w = NoTx" and ok: "db_ok (db w)"
    and v: "v \<in> set (webhook_deliveries (db w))" "wd_Status v \<noteq> WebhookDeliveryStatusFailed"
  shows "\<exists>v' \<in> set (webhook_deliveries (db (snd (ProcessDelivery env cfg (wd_ID v) w)))).
     wd_ID v' = wd_ID v \<and> wd_Status v' = WebhookDeliveryStatusSuccess"
proof (cases "wd_Status v = WebhookDeliveryStatusSuccess")
  case True
  then have "terminal (wd_Status v)" by (simp add: terminal_def)
  from terminal_attempt [OF env(1) s ok v(1) this, of cfg] v(1) True show ?thesis by auto
next
  case False
  let ?w1 = "w\<lparr>n_sql := Suc (n_sql w), http_sent := http_sent w @ [delivery_request env v]\<rparr>"
  obtain c where c: "http_Do env (length (http_sent w)) (delivery_request env v) = Inr c" "200 \<le> c" "c < 300"
    using env(2) unfolding receiver_up_def by blast
  have run: "ProcessDelivery env cfg (wd_ID v) w = markDelivered env v c ?w1"
    using GetByID_live [OF env(1) s ok v(1)] env(2) v(2) False c
    by (simp add: ProcessDelivery_def and_then_def receiver_up_def client_Do_def)
  let ?w2 = "?w1\<lparr>n_time := Suc (n_time ?w1)\<rparr>" and ?v1 = "after_success (time_Now env (n_time w)) c v"
  have "webhook_delivery_check ?v1"
    using ok v by (auto simp: db_ok_defs webhook_delivery_check_def after_success_def)
  then obtain u where "snd (WebhookDeliveries_Update env ?v1 ?w2) = ?w2\<lparr>n_time := Suc (n_time ?w2),
     n_sql := Suc (n_sql ?w2), db := (db ?w2)\<lparr>webhook_deliveries :=
       replace_row wd_ID (stored_webhook_delivery (?v1\<lparr>wd_UpdatedAt := u\<rparr>)) (webhook_deliveries (db ?w2))\<rparr>\<rparr>"
    using Update_live [OF env(1), of ?w2 v ?v1] s ok v(1) by (auto simp: after_success_def)
  moreover have "snd (markDelivered env v c ?w1) = snd (WebhookDeliveries_Update env ?v1 ?w2)"
    by (auto simp: markDelivered_def and_then_def now_def ok_def split: prod.split sum.split)
  ultimately show ?thesis
    using v(1)
    by (intro bexI [of _ "stored_webhook_delivery (?v1\<lparr>wd_UpdatedAt := u\<rparr>)"])
      (auto simp: run set_replace_row after_success_def)
qed

lemma deliver_each:
  assumes env: "no_faults env" "receiver_up env"
  shows "idle w \<Longrightarrow> db_ok (db w) \<Longrightarrow> v \<in> set (webhook_deliveries (db w)) \<Longrightarrow>
    wd_Status v \<noteq> WebhookDeliveryStatusFailed \<Longrightarrow>
    wd_ID v \<in> wd_ID ` set vs \<or> wd_Status v = WebhookDeliveryStatusSuccess \<Longrightarrow>
    \<exists>v' \<in> set (webhook_deliveries (db (process_each env cfg vs w))).
      wd_ID v' = wd_ID v \<and> wd_Status v' = WebhookDeliveryStatusSuccess"
proof (induction vs arbitrary: w v)
  case (Cons a vs)
  let ?w1 = "snd (ProcessDelivery env cfg (wd_ID a) w)"
  have w1: "idle ?w1" "db_ok (db ?w1)"
    using preserves_snd [OF idle_ProcessDelivery Cons.prems(1) surjective_pairing]
      aside_preserves [OF aside_ProcessDelivery surjective_pairing] Cons.prems(2)
    by (auto simp: aside_def)
  obtain v1 where v1: "v1 \<in> set (webhook_deliveries (db ?w1))" "wd_ID v1 = wd_ID v"
    "wd_Status v1 \<noteq> WebhookDeliveryStatusFailed"
    "wd_ID v1 \<in> wd_ID ` set vs \<or> wd_Status v1 = WebhookDeliveryStatusSuccess"
  proof (cases "wd_ID a = wd_ID v")
    case True
    with successful_attempt [OF env, of w v cfg] Cons.prems that show ?thesis
      by (auto simp: idle_def)
  next
    case False
    then have "v \<in> set (webhook_deliveries (db ?w1))"
      by (intro other_rows_kept [OF ProcessDelivery_row_step [OF surjective_pairing] Cons.prems(3)]) simp
    from that [OF this refl Cons.prems(4)] Cons.prems(5) False show ?thesis by auto
  qed
  from Cons.IH [OF w1 v1(1,3,4)] v1(2) show ?case by simp
qed auto

lemma Tick_delivers_due:
  assumes env: "no_faults env" "receiver_up env" and w: "idle w" "db_ok (db w)"
    and v: "v \<in> set (webhook_deliveries (db w))" "due (time_Now env (n_time w)) v"
    and batch: "int (length (filter (due (time_Now env (n_time w))) (webhook_deliveries (db w)))) \<le> batchSize cfg"
  shows "\<exists>v' \<in> set (webhook_deliveries (db (worker_turn env cfg Tick w))).
     wd_ID v' = wd_ID v \<and> wd_Status v' = WebhookDeliveryStatusSuccess"
proof -
  let ?t = "time_Now env (n_time w)"
  let ?vs = "sort_key wd_CreatedAt (filter (due ?t) (webhook_deliveries (db w)))"
  let ?w1 = "w\<lparr>n_time := Suc (n_time w), n_sql := Suc (n_sql w)\<rparr>"
  have "page 0 (batchSize cfg) ?vs = ?vs"
    using batch by (auto simp: page_def batchSize_def Let_def)
  then have "worker_turn env cfg Tick w = process_each env cfg ?vs ?w1"
    using env(1) w(1)
    by (simp add: ProcessDue_def WebhookDeliveries_ListDue_def and_then_def now_def query_def
        statement_def Let_def no_faults_def idle_def modify_state_def)
  moreover have "wd_ID v \<in> wd_ID ` set ?vs" "wd_Status v \<noteq> WebhookDeliveryStatusFailed"
    using v by (auto simp: due_def)
  ultimately show ?thesis
    using deliver_each [OF env, of ?w1 v ?vs cfg] w v(1) by (simp add: idle_def)
qed

end
