(* ===== verification/Progress.thy ===== *)
theory Progress
  imports Money
begin

text \<open>
  That the money movements succeed. \<^verbatim>\<open>Money.thy\<close> says what holds if \<open>TopUp\<close> or \<open>Transfer\<close> of
  \<^verbatim>\<open>internal/usecase/transaction.go\<close> answers; here the statements are total: on a database
  that does not fail, with identifiers that do not collide and a delivery that the schema
  accepts, a valid request under an unused key is answered with status 200. The proofs run
  the whole body, so each \<open>CHECK\<close>, \<open>UNIQUE\<close> and foreign key of the schema is met on the way.

  \<open>fresh_ids env k w\<close> says that the next \<open>k\<close> identifiers are new; a top-up draws six and a
  transfer seven, the reservation's included.
\<close>

section \<open>What success needs from outside\<close>


definition database_ids :: "database \<Rightarrow> uuid set" where
  "database_ids d = t_ID ` set (transactions d) \<union> le_ID ` set (ledger_entries d) \<union>
     ir_ID ` set (idempotency_records d) \<union> al_ID ` set (audit_logs d) \<union>
     wd_ID ` set (webhook_deliveries d)"

definition fresh_ids :: "env \<Rightarrow> nat \<Rightarrow> world \<Rightarrow> bool" where
  "fresh_ids env k w \<longleftrightarrow>
     inj_on (uuid_New env) {n_uuid w ..< n_uuid w + k} \<and>
     (\<forall>n \<in> {n_uuid w ..< n_uuid w + k}.
        uuid_New env n \<notin> database_ids (db w) \<and>
        ''TXN-'' @ uuid_String env (uuid_New env n) \<notin> t_TransactionRef ` set (transactions (db w)))"

lemma fresh_idsD:
  assumes "fresh_ids env k w" and "n_uuid w \<le> n" and "n < n_uuid w + k"
  shows "uuid_New env n \<notin> t_ID ` set (transactions (db w))"
    and "uuid_New env n \<notin> le_ID ` set (ledger_entries (db w))"
    and "uuid_New env n \<notin> ir_ID ` set (idempotency_records (db w))"
    and "uuid_New env n \<notin> al_ID ` set (audit_logs (db w))"
    and "uuid_New env n \<notin> wd_ID ` set (webhook_deliveries (db w))"
    and "''TXN-'' @ uuid_String env (uuid_New env n) \<notin> t_TransactionRef ` set (transactions (db w))"
  using assms unfolding fresh_ids_def database_ids_def by auto

lemma fresh_ids_distinct:
  "fresh_ids env k w \<Longrightarrow> n_uuid w \<le> m \<Longrightarrow> m < n \<Longrightarrow> n < n_uuid w + k \<Longrightarrow>
   uuid_New env m \<noteq> uuid_New env n"
  unfolding fresh_ids_def by (auto dest: inj_onD)

definition deliverable :: "WebhookConfig option \<Rightarrow> bool" where
  "deliverable hooks = (case hooks of None \<Rightarrow> True
     | Some cfg \<Rightarrow> wc_Enabled cfg \<longrightarrow> wc_TargetURL cfg = '''' \<or> list_ex (\<lambda>c. c \<noteq> CHR '' '') (wc_TargetURL cfg))"

lemma live_no_faults: "no_faults env \<Longrightarrow> live env x \<longleftrightarrow> sql_session x \<noteq> AbortedTx"
  by (simp add: live_def no_faults_def)

lemma wp_createDelivery_total:
  assumes "no_faults env" and "sql_session s = InTx" and "has_transaction (db s) (t_ID t)"
    and "uuid_New env (n_uuid s) \<notin> wd_ID ` set (webhook_deliveries (db s))"
    and "deliverable (Some cfg)"
    and Q: "\<And>x s'. sql_session s' = InTx \<Longrightarrow> Q x s'"
  shows "wp (createDelivery env cfg ev t p) Q (\<lambda>_ _. False) s"
proof (cases "wc_Enabled cfg \<and> wc_TargetURL cfg \<noteq> ''''")
  case True
  then have "list_ex (\<lambda>c. c \<noteq> CHR '' '') (wc_TargetURL cfg)"
    using assms(5) by (auto simp: deliverable_def)
  with True assms(1-4) show ?thesis
    by (simp add: createDelivery_def WebhookDeliveries_Create_def wp_rules Let_def live_no_faults
        insert_webhook_delivery_def webhook_delivery_check_def has_webhook_delivery_def
        List.map_filter_def normalizedMaxRetry_def Q)
next
  case False
  with assms(2) show ?thesis by (auto simp: createDelivery_def wp_rules intro: Q)
qed

lemma wp_CreateDelivery_total:
  assumes "no_faults env" and "sql_session s = InTx" and "has_transaction (db s) (t_ID t)"
    and "uuid_New env (n_uuid s) \<notin> wd_ID ` set (webhook_deliveries (db s))" and "deliverable hooks"
    and Q: "\<And>x s'. sql_session s' = InTx \<Longrightarrow> Q x s'"
  shows "wp (CreateTopUpDelivery (configured_notifier env hooks) t w) Q (\<lambda>_ _. False) s"
    and "wp (CreateTransferDelivery (configured_notifier env hooks) t w w') Q (\<lambda>_ _. False) s"
proof -
  have "wp (CreateTopUpDelivery (configured_notifier env hooks) t w) Q (\<lambda>_ _. False) s \<and>
    wp (CreateTransferDelivery (configured_notifier env hooks) t w w') Q (\<lambda>_ _. False) s"
  proof (cases hooks)
    case None
    with assms(2) Q show ?thesis
      by (simp add: configured_notifier_def usecase_notifier_def NoopWebhookService_def wp_rules)
  next
    case (Some cfg)
    with assms show ?thesis
      by (auto simp: configured_notifier_def usecase_notifier_def WebhookService_def
          service_CreateTopUpDelivery_def service_CreateTransferDelivery_def wp_rules
          intro!: wp_createDelivery_total)
  qed
  then show "wp (CreateTopUpDelivery (configured_notifier env hooks) t w) Q (\<lambda>_ _. False) s"
    and "wp (CreateTransferDelivery (configured_notifier env hooks) t w w') Q (\<lambda>_ _. False) s"
    by simp_all
qed

lemma has_transaction_appended [simp]:
  "has_transaction (d\<lparr>transactions := ts @ [t]\<rparr>) i \<longleftrightarrow> i \<in> t_ID ` set ts \<or> i = t_ID t"
  by (auto simp: has_transaction_def)

lemma has_wallet_replaced [simp]:
  "has_wallet (d\<lparr>wallets := replace_row w_ID w ws\<rparr>) i \<longleftrightarrow> i \<in> w_ID ` set ws"
  by (simp add: has_wallet_def)

section \<open>The statements after the locks\<close>

lemma topup_post_total:
  assumes env: "no_faults env" and s: "sql_session s = InTx" and ok: "db_ok (db s)"
    and locked: "locked \<in> set (wallets (db s))" "w_Status locked = WalletStatusActive" "w_UserID locked = u"
    and a: "0 <s tu_Amount req" "0 \<le>s w_Balance locked + tu_Amount req"
    and fresh: "fresh_ids env 6 s" and hooks: "deliverable hooks"
  shows "wp (topup_post env (configured_notifier env hooks) req u rid locked)
     (\<lambda>(res, q) s'. \<not> or_Replay res \<and> or_StatusCode res = 200 \<and> sql_session s' = InTx) (\<lambda>_ _. False) s"
proof -
  have user: "has_user (db s) u" using ok locked by (auto simp: db_ok_defs)
  have wal: "has_wallet (db s) (w_ID locked)" using locked by (auto simp: has_wallet_def)
  have one: "\<forall>w' \<in> set (wallets (db s)). w_ID w' \<noteq> w_ID locked \<longrightarrow> w_UserID w' \<noteq> u"
    using ok locked by (auto simp: db_ok_defs distinct_map dest: inj_onD)
  note lv = live_no_faults [OF env]
  show ?thesis
    unfolding topup_post_def Let_def
    apply (simp add: wp_rules repository_defs Let_def lv s user wal one locked a wallet_check_def
       insert_transaction_def transaction_check_def save_wallet_def update_wallet_def
       insert_ledger_entries_def ledger_entry_check_def insert_audit_log_def List.map_filter_def)
    apply (intro conjI wp_CreateDelivery_total env hooks)
    using fresh_idsD [OF fresh] s wal locked(1)
    apply (simp_all add: wp_rules lv complete_idempotency_def)
    done
qed

lemma transfer_post_total:
  assumes env: "no_faults env" and s: "sql_session s = InTx" and ok: "db_ok (db s)"
    and wallets: "sender \<in> set (wallets (db s))" "w_Status sender = WalletStatusActive" "w_UserID sender = u"
      "recipient \<in> set (wallets (db s))" "w_Status recipient = WalletStatusActive"
      "w_ID sender \<noteq> w_ID recipient"
    and a: "0 <s tf_Amount req" "0 \<le>s w_Balance sender - tf_Amount req"
      "0 \<le>s w_Balance recipient + tf_Amount req"
    and fresh: "fresh_ids env 6 s" and hooks: "deliverable hooks"
  shows "wp (transfer_post env (configured_notifier env hooks) req u rid sender recipient)
     (\<lambda>(res, q) s'. \<not> or_Replay res \<and> or_StatusCode res = 200 \<and> sql_session s' = InTx) (\<lambda>_ _. False) s"
proof -
  have users: "has_user (db s) u" "has_user (db s) (w_UserID recipient)"
    using ok wallets by (auto simp: db_ok_defs)
  have wal: "has_wallet (db s) (w_ID sender)" "has_wallet (db s) (w_ID recipient)"
    using wallets by (auto simp: has_wallet_def)
  have one: "\<forall>w' \<in> set (wallets (db s)). w_ID w' \<noteq> w_ID sender \<longrightarrow> w_UserID w' \<noteq> u"
    using ok wallets by (auto simp: db_ok_defs distinct_map dest: inj_onD)
  have two: "\<forall>w' \<in> set (replace_row w_ID v (wallets (db s))).
      w_ID w' \<noteq> w_ID recipient \<longrightarrow> w_UserID w' \<noteq> w_UserID recipient"
    if "w_ID v = w_ID sender" "w_UserID v = w_UserID sender" for v
    using ok wallets that by (auto simp: db_ok_defs distinct_map set_replace_row dest: inj_onD)
  note lv = live_no_faults [OF env]
  show ?thesis
    unfolding transfer_post_def Let_def
    apply (simp add: wp_rules repository_defs Let_def lv s users wal one two wallets a wallet_check_def
       insert_transaction_def transaction_check_def save_wallet_def update_wallet_def
       insert_ledger_entries_def ledger_entry_check_def insert_audit_log_def List.map_filter_def)
    apply (intro conjI wp_CreateDelivery_total env hooks)
    using fresh_idsD [OF fresh] fresh_ids_distinct [OF fresh] s wal imageI [OF wallets(1), of w_ID] imageI [OF wallets(4), of w_ID]
      two [of "stored_wallet (sender\<lparr>w_Balance := x, w_UpdatedAt := y\<rparr>)" for x y]
    apply (simp_all add: wp_rules lv complete_idempotency_def)
    done
qed

section \<open>The bodies\<close>

lemma fresh_ids_reserved:
  assumes fresh: "fresh_ids env (Suc k) w" and n: "n_uuid w' = Suc (n_uuid w)"
    and r: "db w' = (db w)\<lparr>idempotency_records := idempotency_records (db w) @ [r]\<rparr>"
    and id: "ir_ID r = uuid_New env (n_uuid w)"
  shows "fresh_ids env k w'"
proof -
  have range: "{n_uuid w' ..< n_uuid w' + k} \<subseteq> {n_uuid w ..< n_uuid w + Suc k}" using n by auto
  have "uuid_New env m \<noteq> uuid_New env (n_uuid w)" if "m \<in> {n_uuid w' ..< n_uuid w' + k}" for m
    using fresh_ids_distinct [OF fresh, of "n_uuid w" m] that n by fastforce
  with fresh range n r id show ?thesis
    unfolding fresh_ids_def
    by (auto intro: inj_on_subset simp: database_ids_def)
qed

lemma reserve_total:
  assumes env: "no_faults env" and s: "sql_session s = InTx" and fresh: "fresh_ids env (Suc k) s"
    and user: "has_user (db s) user"
    and key: "(key, user, ep) \<notin> idempotency_key_of ` set (idempotency_records (db s))"
  shows "wp (reserve_or_replay env key user h ep) (\<lambda>r s'.
     r = Inr (uuid_New env (n_uuid s)) \<and> sql_session s' = InTx \<and> fresh_ids env k s' \<and>
     wallets (db s') = wallets (db s)) (\<lambda>_ _. False) s"
proof -
  note live = live_no_faults [OF env]
  from fresh_idsD [OF fresh] s user key show ?thesis
    by (auto simp: reserve_or_replay_def wp_rules repository_defs Let_def reservation_def live
        insert_idempotency_on_conflict_def idempotency_key_of_def intro!: fresh_ids_reserved [OF fresh])
qed

lemma reserve_succeeds:
  assumes "no_faults env" and "sql_session s = InTx" and "fresh_ids env (Suc k) s"
    and "db_ok (db s)" and "has_user (db s) user"
    and "(key, user, ep) \<notin> idempotency_key_of ` set (idempotency_records (db s))"
  shows "wp (reserve_or_replay env key user h ep) (\<lambda>r s'.
     (\<exists>rid. r = Inr rid) \<and> sql_session s' = InTx \<and> fresh_ids env k s' \<and>
     db_ok (db s') \<and> wallets (db s') = wallets (db s)) (\<lambda>_ _. False) s"
  using reserve_total [OF assms(1,2,3,5,6), of h] reserve_or_replay_spec [OF assms(4), of env key user h ep]
  unfolding wp_def by (auto split: prod.splits sum.splits)

lemma sql_first_key:
  "distinct (map f xs) \<Longrightarrow> x \<in> set xs \<Longrightarrow> sql_first k (\<lambda>y. f y = f x) xs = Some x"
  by (simp add: sql_first_def filter_key_unique)

lemma topup_body_total:
  assumes env: "no_faults env" and s: "sql_session s = InTx" and ok: "db_ok (db s)"
    and v: "v \<in> set (wallets (db s))" "w_Status v = WalletStatusActive" "w_UserID v = u"
    and a: "0 <s tu_Amount req" "0 \<le>s w_Balance v + tu_Amount req"
    and fresh: "fresh_ids env 7 s" and hooks: "deliverable hooks"
    and key: "(tu_IdempotencyKey req, u, topUpEndpoint) \<notin> idempotency_key_of ` set (idempotency_records (db s))"
  shows "wp (topup_body env (configured_notifier env hooks) req u)
     (\<lambda>(res, q) s'. \<not> or_Replay res \<and> or_StatusCode res = 200 \<and> sql_session s' = InTx) (\<lambda>_ _. False) s"
proof -
  have user: "has_user (db s) u" using ok v by (auto simp: db_ok_defs)
  have "fresh_ids env (Suc 6) s" using fresh by simp
  note reserve = reserve_succeeds [OF env s this ok user key, of "tu_RequestHash req"]
  have ws: "distinct (map w_ID (wallets (db s)))" "distinct (map w_UserID (wallets (db s)))"
    using ok by (simp_all add: db_ok_defs)
  note live = live_no_faults [OF env]
  show ?thesis
    unfolding topup_body_def
    apply (simp only: wp_and_then)
    apply (rule wp_mono [OF reserve])
     apply (elim conjE exE)
     apply (simp add: wp_rules repository_defs Let_def live 
         sql_first_key [OF ws(2) v(1), unfolded v(3)] filter_key_unique [OF ws(1) v(1)] v)
     apply (rule topup_post_total [OF env])
    using v a hooks apply (simp_all add: fresh_ids_def)
    done
qed

lemma walletMap_row:
  assumes "distinct (map w_ID ws)" and "v \<in> set ws"
  shows "walletMap ws (w_ID v) = Some v"
proof -
  have "distinct (map fst (map (\<lambda>w. (w_ID w, w)) (rev ws)))"
    using assms(1) by (simp add: comp_def rev_map [symmetric])
  with assms(2) show ?thesis unfolding walletMap_def by (force simp: map_of_eq_Some_iff)
qed

lemma locked_pair:
  assumes "distinct (map w_ID ws)" and "v \<in> set ws" and "v' \<in> set ws" and "w_ID v \<noteq> w_ID v'"
    and "locked = sort_key w_ID (filter (\<lambda>w. w_ID w = w_ID v \<or> w_ID w = w_ID v') ws)"
  shows "length locked = 2" and "walletMap locked (w_ID v) = Some v"
    and "walletMap locked (w_ID v') = Some v'"
proof -
  have "set locked = {v, v'}"
    using assms by (auto simp: distinct_map dest: inj_onD)
  moreover have ids: "distinct (map w_ID locked)"
    using assms(1,5) by (simp add: distinct_map inj_on_def)
  moreover have "length locked = card (set locked)"
    using ids by (simp add: distinct_map distinct_card)
  moreover have "v \<noteq> v'" using assms(4) by auto
  ultimately show "length locked = 2" and "walletMap locked (w_ID v) = Some v"
    and "walletMap locked (w_ID v') = Some v'"
    by (auto intro: walletMap_row)
qed

lemma transfer_body_total:
  assumes env: "no_faults env" and s: "sql_session s = InTx" and ok: "db_ok (db s)"
    and v: "v \<in> set (wallets (db s))" "w_Status v = WalletStatusActive" "w_UserID v = u"
      "v' \<in> set (wallets (db s))" "w_Status v' = WalletStatusActive" "w_ID v' = i" "w_ID v \<noteq> i"
    and a: "0 <s tf_Amount req" "\<not> w_Balance v <s tf_Amount req"
      "0 \<le>s w_Balance v - tf_Amount req" "0 \<le>s w_Balance v' + tf_Amount req"
    and fresh: "fresh_ids env 7 s" and hooks: "deliverable hooks"
    and key: "(tf_IdempotencyKey req, u, transferEndpoint) \<notin> idempotency_key_of ` set (idempotency_records (db s))"
  shows "wp (transfer_body env (configured_notifier env hooks) req u i)
     (\<lambda>(res, q) s'. \<not> or_Replay res \<and> or_StatusCode res = 200 \<and> sql_session s' = InTx) (\<lambda>_ _. False) s"
proof -
  have user: "has_user (db s) u" using ok v by (auto simp: db_ok_defs)
  have "fresh_ids env (Suc 6) s" using fresh by simp
  note reserve = reserve_succeeds [OF env s this ok user key, of "tf_RequestHash req"]
  have ws: "distinct (map w_ID (wallets (db s)))" "distinct (map w_UserID (wallets (db s)))"
    using ok by (simp_all add: db_ok_defs)
  have neq: "w_ID v \<noteq> w_ID v'" using v by simp
  note live = live_no_faults [OF env]
  note pair = locked_pair [OF ws(1) v(1,4) neq refl, unfolded v(6)]
    locked_pair [OF ws(1) v(4,1) neq [symmetric] refl, unfolded v(6)]
  note pair = pair pair(1,4) [unfolded length_sort]
  show ?thesis
    unfolding transfer_body_def
    apply (simp only: wp_and_then)
    apply (rule wp_mono [OF reserve])
     apply (elim conjE exE)
     apply (simp add: wp_rules repository_defs Let_def live pair a
         sql_first_key [OF ws(2) v(1), unfolded v(3)] v)
     apply (rule transfer_post_total [OF env])
    using v a hooks apply (simp_all add: fresh_ids_def)
    done
qed

section \<open>The operations\<close>

lemma finish_total:
  assumes env: "no_faults env" and s: "sql_session w = NoTx"
    and body: "wp body (\<lambda>(res, q) s'. P res \<and> sql_session s' = InTx) (\<lambda>_ _. False)
      (w\<lparr>n_sql := Suc (n_sql w), sql_session := InTx\<rparr>)"
  shows "\<exists>res w'. finish n (WithinTransaction env body) w = (Inr res, w') \<and> P res"
  using body env
  unfolding wp_def
  by (auto simp: finish_def WithinTransaction_def sql_commit_def no_faults_def Let_def
      split: prod.splits sum.splits)

lemma TopUp_total:
  assumes "no_faults env" and "sql_session w = NoTx" and "db_ok (db w)"
    and "uuid_Parse env (tu_UserID req) = Some u" and "tu_IdempotencyKey req \<noteq> ''''"
    and "v \<in> set (wallets (db w))" "w_Status v = WalletStatusActive" "w_UserID v = u"
    and "0 < sint (tu_Amount req)" and "sint (w_Balance v) + sint (tu_Amount req) < 2 ^ 63"
    and "(tu_IdempotencyKey req, u, topUpEndpoint) \<notin> idempotency_key_of ` set (idempotency_records (db w))"
    and "fresh_ids env 7 w" and "deliverable hooks"
  shows "\<exists>res w'. TopUp env (configured_notifier env hooks) req w = (Inr res, w') \<and>
     \<not> or_Replay res \<and> or_StatusCode res = 200"
proof -
  let ?s = "w\<lparr>n_sql := Suc (n_sql w), sql_session := InTx\<rparr>"
  have bal: "0 \<le> sint (w_Balance v)"
    using assms(3,6) by (auto simp: db_ok_defs wallet_check_def word_sle_eq)
  have "0 \<le>s w_Balance v + tu_Amount req"
    using assms(9,10) bal sint64_add [of "w_Balance v" "tu_Amount req"] 
    by (simp add: word_sle_eq)
  moreover have "0 <s tu_Amount req" "\<not> tu_Amount req \<le>s 0" using assms(9) by (simp_all add: word_sless_alt word_sle_eq)
  ultimately show ?thesis
    using assms finish_total [OF assms(1,2), where P = "\<lambda>res. \<not> or_Replay res \<and> or_StatusCode res = 200", simplified, OF topup_body_total [OF assms(1), of ?s v u req hooks], of "configured_notifier env hooks"]
    by (auto simp: TopUp_def fresh_ids_def)
qed

lemma Transfer_total:
  assumes "no_faults env" and "sql_session w = NoTx" and "db_ok (db w)"
    and "uuid_Parse env (tf_UserID req) = Some u"
    and "uuid_Parse env (tf_RecipientWalletID req) = Some (w_ID v')"
    and "tf_IdempotencyKey req \<noteq> ''''"
    and "v \<in> set (wallets (db w))" "w_Status v = WalletStatusActive" "w_UserID v = u"
    and "v' \<in> set (wallets (db w))" "w_Status v' = WalletStatusActive" "w_ID v \<noteq> w_ID v'"
    and "0 < sint (tf_Amount req)" and "sint (tf_Amount req) \<le> sint (w_Balance v)"
    and "sint (w_Balance v') + sint (tf_Amount req) < 2 ^ 63"
    and "(tf_IdempotencyKey req, u, transferEndpoint) \<notin> idempotency_key_of ` set (idempotency_records (db w))"
    and "fresh_ids env 7 w" and "deliverable hooks"
  shows "\<exists>res w'. Transfer env (configured_notifier env hooks) req w = (Inr res, w') \<and>
     \<not> or_Replay res \<and> or_StatusCode res = 200"
proof -
  let ?s = "w\<lparr>n_sql := Suc (n_sql w), sql_session := InTx\<rparr>"
  have bal: "0 \<le> sint (w_Balance v)" "0 \<le> sint (w_Balance v')"
    using assms(3,7,10) by (auto simp: db_ok_defs wallet_check_def word_sle_eq)
  have "0 \<le>s w_Balance v' + tf_Amount req"
    using assms(13,15) bal sint64_add [of "w_Balance v'" "tf_Amount req"]
    by (simp add: word_sle_eq)
  moreover have "0 \<le>s w_Balance v - tf_Amount req" 
    using assms(13,14) bal sint64_sub [of "w_Balance v" "tf_Amount req"] sint64_bounds [of "w_Balance v"]
    by (simp add: word_sle_eq)
  moreover have "0 <s tf_Amount req" "\<not> tf_Amount req \<le>s 0" "\<not> w_Balance v <s tf_Amount req"
    using assms(13,14) by (simp_all add: word_sless_alt word_sle_eq)
  ultimately show ?thesis
    using assms finish_total [OF assms(1,2),
        where P = "\<lambda>res. \<not> or_Replay res \<and> or_StatusCode res = 200", simplified,
        OF transfer_body_total [OF assms(1), of ?s v u v' "w_ID v'" req hooks],
        of "configured_notifier env hooks"]
    by (auto simp: Transfer_def fresh_ids_def)
qed

end
