(* ===== verification/Strconv.thy ===== *)
theory Strconv
  imports Prelude
begin

text \<open>
  The functions of Go's package \<^verbatim>\<open>strconv\<close> that \<^verbatim>\<open>internal/config/config.go\<close> and
  \<^verbatim>\<open>internal/delivery/http/handler/transaction_ledger.go\<close> call: \<open>Atoi\<close> and \<open>ParseBool\<close>. An
  error is \<open>None\<close>. \<open>Atoi\<close> inverts the decimal notation on the range of \<open>int\<close>.
\<close>

definition is_digit :: "char \<Rightarrow> bool" where
  "is_digit c \<longleftrightarrow> 48 \<le> (of_char c :: nat) \<and> (of_char c :: nat) \<le> 57"

definition digits_value :: "string \<Rightarrow> nat option" where
  "digits_value s =
     (if s \<noteq> [] \<and> list_all is_digit s
      then Some (foldl (\<lambda>n c. 10 * n + (of_char c - 48)) 0 s) else None)"

definition strconv_Atoi :: "string \<Rightarrow> int option" where
  "strconv_Atoi s =
     (let (sign, digits) =
        (case s of
           [] \<Rightarrow> (1, [])
         | c # rest \<Rightarrow>
             if c = CHR ''-'' then (- 1, rest) else if c = CHR ''+'' then (1, rest) else (1, s)) in
      case digits_value digits of
        None \<Rightarrow> None
      | Some n \<Rightarrow>
          let i = sign * int n in if - (2 ^ 63) \<le> i \<and> i < 2 ^ 63 then Some i else None)"

definition strconv_ParseBool :: "string \<Rightarrow> bool option" where
  "strconv_ParseBool s =
     (if s \<in> {''1'', ''t'', ''T'', ''TRUE'', ''true'', ''True''} then Some True
      else if s \<in> {''0'', ''f'', ''F'', ''FALSE'', ''false'', ''False''} then Some False
      else None)"

section \<open>Atoi inverts the decimal notation\<close>

lemma digit_char: "n < 10 \<Longrightarrow> is_digit (char_of (48 + n)) \<and> (of_char (char_of (48 + n) :: char) :: nat) = 48 + n"
  by (simp add: is_digit_def)

lemma digits_value_append:
  "list_all is_digit s \<Longrightarrow> s \<noteq> [] \<Longrightarrow> is_digit c \<Longrightarrow>
   digits_value (s @ [c]) = Some (10 * the (digits_value s) + (of_char c - 48))"
  by (simp add: digits_value_def)

lemma show_nat_digits: "list_all is_digit (show_nat n) \<and> show_nat n \<noteq> [] \<and> digits_value (show_nat n) = Some n"
proof (induction n rule: show_nat.induct)
  case (1 n)
  show ?case
  proof (cases "n < 10")
    case True
    then show ?thesis using digit_char [of n] by (simp add: show_nat.simps digits_value_def)
  next
    case False
    with 1 have IH: "list_all is_digit (show_nat (n div 10))" "show_nat (n div 10) \<noteq> []"
      "digits_value (show_nat (n div 10)) = Some (n div 10)" by auto
    have d: "is_digit (char_of (48 + n mod 10))" "(of_char (char_of (48 + n mod 10) :: char) :: nat) = 48 + n mod 10"
      using digit_char [of "n mod 10"] by simp_all
    have "show_nat n = show_nat (n div 10) @ [char_of (48 + n mod 10)]"
      using False by (simp add: show_nat.simps [of n])
    with IH d digits_value_append [OF IH(1,2) d(1)] show ?thesis by simp
  qed
qed

lemma show_nat_no_sign: "show_nat n = c # s \<Longrightarrow> c \<noteq> CHR ''-'' \<and> c \<noteq> CHR ''+''"
  using show_nat_digits [of n] by (auto simp: is_digit_def)

lemma Atoi_show_int:
  assumes "- (2 ^ 63) \<le> i" and "i < 2 ^ 63"
  shows "strconv_Atoi (show_int i) = Some i"
proof (cases "i < 0")
  case True
  with assms show_nat_digits [of "nat (- i)"] show ?thesis
    by (simp add: strconv_Atoi_def show_int_def)
next
  case False
  obtain c s where cs: "show_nat (nat i) = c # s"
    using show_nat_digits [of "nat i"] by (cases "show_nat (nat i)") auto
  with False assms show_nat_digits [of "nat i"] show_nat_no_sign [OF cs] show ?thesis
    by (simp add: strconv_Atoi_def show_int_def)
qed

end
