(* ===== verification/Demo.thy ===== *)
theory Demo
  imports Worker Progress Strconv
begin

text \<open>
  A concrete environment, for examples: identifiers are written in decimal, the clock ticks
  every second, passwords are their own hashes, nothing fails. The examples show that the
  theorems apply to runs of the model.
\<close>

definition demo_env :: env where
  "demo_env = \<lparr>uuid_Parse = (\<lambda>s. map_option word_of_nat (digits_value s)),
     uuid_String = (\<lambda>u. show_nat (unat u)), uuid_New = (\<lambda>n. word_of_nat n),
     time_Now = (\<lambda>n. int (Suc n) * 1000000000), sql_fault = (\<lambda>_. None),
     json_Marshal = (\<lambda>_. ''{}''), bcrypt_Generate = (\<lambda>_ p. Inr p),
     bcrypt_Compare = (\<lambda>h p. if h = p then None else Some (OtherError ''mismatch'')),
     hmac_SHA256_hex = (\<lambda>k m. k @ m), http_NewRequest = (\<lambda>_. None),
     http_Do = (\<lambda>_ _. Inr 200), jwt_Sign = (\<lambda>_ _. Inr ''token''), unicode_ToLower = id\<rparr>"

definition demo_hooks :: WebhookConfig where
  "demo_hooks = \<lparr>wc_Enabled = True, wc_TargetURL = ''http://a'', wc_Secret = ''k'',
      wc_MaxRetry = 3, wc_RetryIntervalSeconds = 30, wc_WorkerBatchSize = 20\<rparr>"

definition demo_program :: program where
  "demo_program = \<lparr>pg_hooks = Some demo_hooks,
     pg_jwt = NewJWTManager ''secret'' ''hermes'' 60,
     pg_seed = \<lparr>sc_IsDevelopment = False, sc_EnableAdminSeed = False, sc_AdminName = '''',
       sc_AdminEmail = '''', sc_AdminPassword = ''''\<rparr>\<rparr>"

text \<open>Two users; the first one's wallet has number 1, the second one's number 4.\<close>

definition demo_registrations :: "command list" where
  "demo_registrations =
     [DoRegister \<lparr>rg_Name = ''Ann'', rg_Email = ''ann@x'', rg_Password = ''password''\<rparr>,
      DoRegister \<lparr>rg_Name = ''Bob'', rg_Email = ''bob@x'', rg_Password = ''password''\<rparr>]"

definition demo_topup :: TopUpRequest where
  "demo_topup = \<lparr>tu_UserID = ''0'', tu_Amount = 500, tu_Description = None,
     tu_IdempotencyKey = ''k1'', tu_RequestHash = ''h1''\<rparr>"

definition demo_transfer :: TransferRequest where
  "demo_transfer = \<lparr>tf_UserID = ''0'', tf_RecipientWalletID = ''4'', tf_Amount = 200,
     tf_Description = None, tf_IdempotencyKey = ''k2'', tf_RequestHash = ''h2''\<rparr>"

definition demo_world :: world where
  "demo_world = run_commands demo_env demo_program demo_registrations initial_world"

definition demo_funded :: world where
  "demo_funded = run_command demo_env demo_program (DoTopUp demo_topup) demo_world"

lemma demo_strings:
  "strings_TrimSpace ''Ann'' = ''Ann''" "strings_TrimSpace ''ann@x'' = ''ann@x''"
  "strings_ToLower demo_env ''ann@x'' = ''ann@x''"
  "strings_TrimSpace ''Bob'' = ''Bob''" "strings_TrimSpace ''bob@x'' = ''bob@x''"
  "strings_ToLower demo_env ''bob@x'' = ''bob@x''"
  by (simp_all add: TrimSpace_printable printable_def strings_ToLower_def is_ascii_def ascii_lower_def)

lemma demo_env_sel [simp]:
  "uuid_New demo_env k = word_of_nat k" "time_Now demo_env n = int (Suc n) * 1000000000"
  "sql_fault demo_env n = None" "bcrypt_Generate demo_env n p = Inr p"
  "bcrypt_Compare demo_env h p = (if h = p then None else Some (OtherError ''mismatch''))"
  "http_NewRequest demo_env u = None" "http_Do demo_env n r = Inr 200"
  "jwt_Sign demo_env p c = Inr ''token''" 
  "uuid_String demo_env i = show_nat (unat i)"
  "uuid_Parse demo_env ''0'' = Some 0" "uuid_Parse demo_env ''4'' = Some 4"
  by (simp_all add: demo_env_def digits_value_def is_digit_def)

lemmas demo_defs =
  Let_def and_then_def ok_def throw_def query_def statement_def first_or_not_found_def
  sql_first_def initial_world_def empty_database_def internal_error_def new_uuid_def now_def
  WithinTransaction_def sql_commit_def constrained_def if_zero_def timestamptz_def stored_defs has_row_defs

lemmas demo_register_defs =
  demo_defs Register_def normal_email_def Users_GetByEmail_def register_new_def hash_Password_def
  register_body_def Users_Create_def Wallets_Create_def Audits_Create_def insert_user_def
  insert_wallet_def insert_audit_log_def wallet_check_def

lemma demo_world_eq: "demo_world =
  \<lparr>db = \<lparr>users =
      [\<lparr>u_ID = 0, u_Name = ''Ann'', u_Email = ''ann@x'', u_PasswordHash = ''password'',
         u_Role = RoleUser, u_CreatedAt = 1000000000, u_UpdatedAt = 1000000000\<rparr>,
       \<lparr>u_ID = 3, u_Name = ''Bob'', u_Email = ''bob@x'', u_PasswordHash = ''password'',
         u_Role = RoleUser, u_CreatedAt = 5000000000, u_UpdatedAt = 5000000000\<rparr>],
    wallets =
      [\<lparr>w_ID = 1, w_UserID = 0, w_Balance = 0, w_Status = WalletStatusActive,
         w_CreatedAt = 2000000000, w_UpdatedAt = 2000000000\<rparr>,
       \<lparr>w_ID = 4, w_UserID = 3, w_Balance = 0, w_Status = WalletStatusActive,
         w_CreatedAt = 6000000000, w_UpdatedAt = 6000000000\<rparr>],
    transactions = [], ledger_entries = [], idempotency_records = [],
    audit_logs =
      [\<lparr>al_ID = 2, al_ActorUserID = Some 0, al_Action = ''USER_REGISTERED'',
         al_EntityType = ''user'', al_EntityID = Some 0,
         al_Metadata = JObject [(''email'', JString ''ann@x''), (''role'', JString ''user'')],
         al_CreatedAt = 3000000000\<rparr>,
       \<lparr>al_ID = 5, al_ActorUserID = Some 3, al_Action = ''USER_REGISTERED'',
         al_EntityType = ''user'', al_EntityID = Some 3,
         al_Metadata = JObject [(''email'', JString ''bob@x''), (''role'', JString ''user'')],
         al_CreatedAt = 7000000000\<rparr>],
    webhook_deliveries = []\<rparr>,
   sql_session = NoTx, n_uuid = 6, n_time = 8, n_sql = 12, n_salt = 2, webhook_queue = [],
   http_sent = []\<rparr>"
  by (simp add: demo_world_def run_commands_def demo_registrations_def demo_strings
      demo_register_defs)

lemma demo_numbers [simp]:
  "\<not> (500 :: int64) \<le>s 0" "(0 :: int64) <s 500" "(0 :: int64) \<le>s 500"
  "\<not> (200 :: int64) \<le>s 0" "(0 :: int64) <s 200" "(0 :: int64) \<le>s 200" "(0 :: int64) \<le>s 300"
  "\<not> (500 :: int64) <s 200" "(0 :: int64) \<le>s 0"
  by (simp_all add: word_sle_eq word_sless_alt)

lemmas demo_money_defs =
  demo_defs TopUp_def Transfer_def finish_def topup_body_def transfer_body_def topup_post_def
  transfer_post_def reserve_or_replay_def replay_existing_def reservation_def repository_defs
  insert_idempotency_on_conflict_def idempotency_key_of_def insert_transaction_def
  transaction_check_def save_wallet_def update_wallet_def replace_row_def wallet_check_def
  insert_ledger_entries_def ledger_entry_check_def insert_audit_log_def complete_idempotency_def
  completed_def List.map_filter_def configured_notifier_def usecase_notifier_def
  demo_program_def demo_hooks_def WebhookService_def service_CreateTopUpDelivery_def
  service_CreateTransferDelivery_def createDelivery_def WebhookDeliveries_Create_def
  insert_webhook_delivery_def webhook_delivery_check_def normalizedMaxRetry_def service_Enqueue_def
  queue_capacity_def walletMap_def transaction_status_string.simps show_nat.simps

lemma demo_TopUp: "\<exists>res. TopUp demo_env (configured_notifier demo_env (pg_hooks demo_program)) demo_topup
    demo_world = (Inr res, demo_funded) \<and> \<not> or_Replay res"
  by (simp add: demo_funded_def demo_world_eq demo_topup_def demo_money_defs)

lemma demo_chars: "char_of (49 :: nat) = CHR ''1''" "char_of (56 :: nat) = CHR ''8''"
  by code_simp+

definition demo_transaction :: Transaction where
  "demo_transaction = \<lparr>t_ID = 7, t_TransactionRef = ''TXN-8'', t_Type = TransactionTypeTopUp,
     t_Status = TransactionStatusSuccess, t_SourceWalletID = None,
     t_DestinationWalletID = Some 1, t_Amount = 500, t_Currency = ''IDR'',
     t_IdempotencyKey = ''k1'', t_InitiatedByUserID = 0, t_Description = None,
     t_CreatedAt = 10000000000, t_UpdatedAt = 10000000000\<rparr>"

definition demo_wallet :: Wallet where
  "demo_wallet = \<lparr>w_ID = 1, w_UserID = 0, w_Balance = 500, w_Status = WalletStatusActive,
     w_CreatedAt = 2000000000, w_UpdatedAt = 11000000000\<rparr>"

lemma demo_funded_eq: "demo_funded = demo_world
  \<lparr>db := db demo_world
     \<lparr>wallets := [demo_wallet, wallets (db demo_world) ! 1],
      transactions := [demo_transaction],
      ledger_entries :=
        [\<lparr>le_ID = 9, le_TransactionID = 7, le_WalletID = 1, le_EntryType = LedgerEntryTypeCredit,
          le_Amount = 500, le_BalanceBefore = 0, le_BalanceAfter = 500,
          le_CreatedAt = 12000000000\<rparr>],
      idempotency_records :=
        [\<lparr>ir_ID = 6, ir_IdempotencyKey = ''k1'', ir_UserID = 0, ir_RequestHash = ''h1'',
          ir_Endpoint = topUpEndpoint, ir_StatusCode = 200,
          ir_ResponseBody = MustMarshalSuccess (JObject
            [(''transaction'', transaction_json (toTransactionResponse demo_env demo_transaction)),
             (''wallet'', wallet_json (toWalletResponse demo_env demo_wallet))]),
          ir_CreatedAt = 9000000000, ir_UpdatedAt = 18000000000\<rparr>],
      audit_logs := audit_logs (db demo_world) @
        [\<lparr>al_ID = 10, al_ActorUserID = Some 0, al_Action = ''WALLET_TOP_UP'',
          al_EntityType = ''transaction'', al_EntityID = Some 7,
          al_Metadata = JObject [(''amount'', json_int64 500), (''wallet_id'', JString ''1'')],
          al_CreatedAt = 14000000000\<rparr>],
      webhook_deliveries :=
        [\<lparr>wd_ID = 11, wd_EventType = ''wallet.top_up.success'', wd_TransactionID = Some 7,
          wd_TransactionRef = ''TXN-8'', wd_TargetURL = ''http://a'',
          wd_Payload = webhook_payload demo_env ''wallet.top_up.success'' demo_transaction JNull 1
            16000000000,
          wd_Secret = Some ''k'', wd_Status = WebhookDeliveryStatusPending, wd_RetryCount = 0,
          wd_MaxRetry = 3, wd_LastError = None, wd_LastHTTPStatus = None, wd_NextRetryAt = None,
          wd_DeliveredAt = None, wd_CreatedAt = 17000000000, wd_UpdatedAt = 17000000000\<rparr>]\<rparr>,
   n_uuid := 12, n_time := 18, n_sql := 23, webhook_queue := [11]\<rparr>"
  by (simp add: demo_funded_def demo_world_eq demo_topup_def demo_money_defs demo_chars
      demo_transaction_def demo_wallet_def)

lemma demo_Transfer: "\<exists>res w'. Transfer demo_env (configured_notifier demo_env (pg_hooks demo_program))
    demo_transfer demo_funded = (Inr res, w') \<and> \<not> or_Replay res"
  by (simp add: demo_funded_eq demo_world_eq demo_transfer_def demo_money_defs demo_transaction_def
      demo_wallet_def)

lemma demo_Reconciliation:
  "\<exists>report w'. Reconciliation_Run demo_env ''0'' demo_funded = (Inr report, w')"
  by (simp add: demo_funded_eq demo_world_eq demo_defs Reconciliation_Run_def parse_id_def
      Reconciliation_ListWallets_def Reconciliation_ListTransactions_def
      Reconciliation_ListLedgerEntries_def Audits_Create_def insert_audit_log_def List.map_filter_def)

lemma demo_clock: "clock_ok demo_env"
  by (simp add: clock_ok_def timestamptz_def)

lemma demo_reachable: "reachable demo_env demo_program demo_funded"
  unfolding demo_funded_def demo_world_def run_commands_def demo_registrations_def
  by (simp del: run_command.simps add: reachable.intros)

lemma demo_books: "db_ok (db demo_world)" "books_ok (db demo_world)" "db_ok (db demo_funded)"
  "books_ok (db demo_funded)"
proof -
  have "invariant demo_env demo_world"
    unfolding demo_world_def using invariant_run_commands [OF invariant_initial] by blast
  moreover have "invariant demo_env demo_funded" by (rule reachable_invariant [OF demo_reachable])
  ultimately show "db_ok (db demo_world)" "books_ok (db demo_world)" "db_ok (db demo_funded)"
    "books_ok (db demo_funded)" by (simp_all add: invariant_def)
qed

lemma demo_world_reachable: "reachable demo_env demo_program demo_world"
  unfolding demo_world_def run_commands_def demo_registrations_def
  by (simp del: run_command.simps add: reachable.intros)

lemma demo_overdraft: "\<exists>w'. Transfer demo_env (configured_notifier demo_env (pg_hooks demo_program))
    demo_transfer demo_world = (Inl (Conflict ''insufficient balance''), w')"
  by (simp add: demo_world_eq demo_transfer_def demo_money_defs sql_rollback_def app_error_defs)

lemma demo_no_faults: "no_faults demo_env"
  by (simp add: no_faults_def)

lemma demo_deliverable: "deliverable (pg_hooks demo_program)"
  by (simp add: demo_program_def demo_hooks_def deliverable_def)

lemma demo_ids_inj: "m + k \<le> 2 ^ 127 \<Longrightarrow> inj_on (\<lambda>n. word_of_nat n :: uuid) {m ..< m + k}"
  by (auto simp: inj_on_def of_nat_eq_iff word_of_nat_eq_iff take_bit_nat_eq_self)

lemma demo_fresh: "fresh_ids demo_env 7 demo_world" "fresh_ids demo_env 7 demo_funded"
proof -
  have range: "{6 ..< 13} = {6, 7, 8, 9, 10, 11, 12::nat}" "{12 ..< 19} = {12, 13, 14, 15, 16, 17, 18::nat}"
    by auto
  show "fresh_ids demo_env 7 demo_world"
    unfolding fresh_ids_def using demo_ids_inj [of 6 7]
    by (simp add: demo_world_eq database_ids_def range )
  show "fresh_ids demo_env 7 demo_funded"
    unfolding fresh_ids_def using demo_ids_inj [of 12 7]
    by (simp add: demo_funded_eq demo_world_eq database_ids_def demo_transaction_def range show_nat.simps demo_chars)
qed

definition demo_delivery :: WebhookDelivery where
  "demo_delivery = webhook_deliveries (db demo_funded) ! 0"

lemma demo_delivery: "webhook_deliveries (db demo_funded) = [demo_delivery]"
  "wd_ID demo_delivery = 11" "wd_MaxRetry demo_delivery = 3" "wd_TargetURL demo_delivery = ''http://a''"
  "wd_Status demo_delivery = WebhookDeliveryStatusPending" "wd_RetryCount demo_delivery = 0"
  "wd_TransactionID demo_delivery = Some 7" "wd_EventType demo_delivery = ''wallet.top_up.success''"
  by (simp_all add: demo_delivery_def demo_funded_eq)

lemma demo_idle: "sql_session demo_funded = NoTx" "http_sent demo_funded = []"
  by (simp_all add: demo_funded_eq demo_world_eq)

lemma demo_parse: "uuid_Parse demo_env ''7'' = Some 7" "uuid_Parse demo_env ''1'' = Some 1" "uuid_Parse demo_env ''11'' = Some 11"
  by (simp_all add: demo_env_def digits_value_def is_digit_def)

definition demo_registration :: RegisterRequest where
  "demo_registration = \<lparr>rg_Name = ''Ann'', rg_Email = ''ann@x'', rg_Password = ''password''\<rparr>"

lemma demo_Register: "\<exists>res w'. Register demo_env demo_registration initial_world = (Inr res, w')"
  by (simp add: demo_registration_def demo_strings demo_register_defs)

end
