(* ===== verification/RateLimit.thy ===== *)
theory RateLimit
  imports Entities
begin

text \<open>
  Rate limiting: the two limiters of \<^verbatim>\<open>internal/pkg/ratelimit/limiter.go\<close> and the middleware of
  \<^verbatim>\<open>internal/middleware/rate_limit.go\<close> that asks them. The clock reading is an argument; the
  Redis server is the record \<open>redis\<close>, whatever it does.

  The middleware is verified against the locale \<open>limiter\<close>, the contract of the interface
  \<open>ratelimit.Limiter\<close>, of which both limiters are interpretations.
\<close>

record Result =
  rl_Allowed :: bool
  rl_Count :: int
  rl_Limit :: int
  rl_Remaining :: int
  rl_ResetAt :: time

definition max_int :: "int \<Rightarrow> int \<Rightarrow> int" where
  "max_int v fallback = (if v > fallback then v else fallback)"

definition unlimited :: "int \<Rightarrow> Result" where
  "unlimited limit = \<lparr>rl_Allowed = True, rl_Count = 0, rl_Limit = limit, rl_Remaining = 0,
     rl_ResetAt = 0\<rparr>"

section \<open>MemoryLimiter\<close>

record memoryEntry =
  me_Count :: int
  me_ResetAt :: time

type_synonym memory = "string \<Rightarrow> memoryEntry option"

definition NewMemoryLimiter :: memory where
  "NewMemoryLimiter = (\<lambda>_. None)"

definition current_entry :: "memory \<Rightarrow> time \<Rightarrow> string \<Rightarrow> int \<Rightarrow> memoryEntry" where
  "current_entry m t key window =
     (case m key of
        None \<Rightarrow> \<lparr>me_Count = 0, me_ResetAt = t + window\<rparr>
      | Some entry \<Rightarrow>
          if t > me_ResetAt entry then \<lparr>me_Count = 0, me_ResetAt = t + window\<rparr> else entry)"

definition memory_Allow ::
  "time \<Rightarrow> string \<Rightarrow> int \<Rightarrow> int \<Rightarrow> memory \<Rightarrow> (string + Result) \<times> memory" where
  "memory_Allow t key limit window m =
     (if limit \<le> 0 then (Inr (unlimited limit), m)
      else
        let entry0 = current_entry m t key window;
            entry = entry0\<lparr>me_Count := me_Count entry0 + 1\<rparr> in
        (Inr \<lparr>rl_Allowed = (me_Count entry \<le> limit), rl_Count = me_Count entry, rl_Limit = limit,
              rl_Remaining = max_int (limit - me_Count entry) 0, rl_ResetAt = me_ResetAt entry\<rparr>,
         m(key \<mapsto> entry)))"

section \<open>RedisLimiter\<close>

text \<open>
  The server: the transaction of \<open>INCR\<close> and \<open>TTL\<close> on a key, and \<open>EXPIRE\<close>; each may fail.
\<close>

record 's redis =
  rd_IncrTTL :: "string \<Rightarrow> 's \<Rightarrow> (string + int \<times> int) \<times> 's"
  rd_Expire :: "string \<Rightarrow> int \<Rightarrow> 's \<Rightarrow> (string + unit) \<times> 's"

definition redis_result :: "time \<Rightarrow> int \<Rightarrow> int \<Rightarrow> int \<Rightarrow> Result" where
  "redis_result t limit count ttl = \<lparr>rl_Allowed = (count \<le> limit), rl_Count = count,
     rl_Limit = limit, rl_Remaining = max_int (limit - count) 0, rl_ResetAt = t + ttl\<rparr>"

definition redis_Allow ::
  "'s redis \<Rightarrow> time \<Rightarrow> string \<Rightarrow> int \<Rightarrow> int \<Rightarrow> 's \<Rightarrow> (string + Result) \<times> 's" where
  "redis_Allow rd t key limit window s =
     (if limit \<le> 0 then (Inr (unlimited limit), s)
      else
        let counterKey = ''rate_limit:'' @ key in
        case rd_IncrTTL rd counterKey s of
          (Inl err, s1) \<Rightarrow> (Inl err, s1)
        | (Inr (count, ttl), s1) \<Rightarrow>
            if count = 1 \<or> ttl < 0
            then (case rd_Expire rd counterKey window s1 of
                    (Inl err, s2) \<Rightarrow> (Inl err, s2)
                  | (Inr _, s2) \<Rightarrow> (Inr (redis_result t limit count window), s2))
            else (Inr (redis_result t limit count ttl), s1))"

section \<open>The middleware\<close>

text \<open>
  The answer: the request goes on, without or with the three rate limit headers, or it is
  answered with 429 and the headers. The text of \<open>X-RateLimit-Reset\<close> is kept as its time.
\<close>

record rate_headers =
  h_Limit :: string
  h_Remaining :: string
  h_Reset :: time

datatype verdict = Pass "rate_headers option" | TooManyRequests rate_headers

definition headers_of :: "Result \<Rightarrow> rate_headers" where
  "headers_of r = \<lparr>h_Limit = show_int (rl_Limit r), h_Remaining = show_int (rl_Remaining r),
     h_Reset = rl_ResetAt r\<rparr>"

definition rate_identifier :: "string option \<Rightarrow> string \<Rightarrow> string" where
  "rate_identifier userID ip =
     (case userID of None \<Rightarrow> ip | Some u \<Rightarrow> if u \<noteq> '''' then u else ip)"

definition RateLimit ::
  "string \<Rightarrow> (time \<Rightarrow> string \<Rightarrow> int \<Rightarrow> int \<Rightarrow> 's \<Rightarrow> (string + Result) \<times> 's) option \<Rightarrow> int \<Rightarrow> int \<Rightarrow>
   string option \<Rightarrow> string \<Rightarrow> time \<Rightarrow> 's \<Rightarrow> verdict \<times> 's" where
  "RateLimit name limiter limit window userID ip t s =
     (case limiter of
        None \<Rightarrow> (Pass None, s)
      | Some allow \<Rightarrow>
          if limit \<le> 0 then (Pass None, s)
          else
            case allow t (name @ '':'' @ rate_identifier userID ip) limit window s of
              (Inl err, s') \<Rightarrow> (Pass None, s')
            | (Inr r, s') \<Rightarrow>
                (if \<not> rl_Allowed r then TooManyRequests (headers_of r)
                 else Pass (Some (headers_of r)), s'))"

section \<open>The contract of a limiter\<close>

locale limiter =
  fixes allow :: "time \<Rightarrow> string \<Rightarrow> int \<Rightarrow> int \<Rightarrow> 's \<Rightarrow> (string + Result) \<times> 's"
  assumes no_limit: "limit \<le> 0 \<Longrightarrow> allow t key limit window s = (Inr (unlimited limit), s)"
    and counted: "0 < limit \<Longrightarrow> allow t key limit window s = (Inr r, s') \<Longrightarrow>
      (rl_Allowed r \<longleftrightarrow> rl_Count r \<le> limit) \<and> rl_Limit r = limit \<and>
      rl_Remaining r = (if rl_Count r \<le> limit then limit - rl_Count r else 0)"
begin

text \<open>
  A request is refused exactly when its limiter counted it beyond the limit; an unavailable
  limiter refuses nothing.
\<close>

lemma refused:
  "fst (RateLimit name (Some allow) limit window userID ip t s) = TooManyRequests h \<longleftrightarrow>
     0 < limit \<and> (\<exists>r s'. allow t (name @ '':'' @ rate_identifier userID ip) limit window s = (Inr r, s') \<and>
       limit < rl_Count r \<and> h = headers_of r)"
  using counted [of limit t "name @ '':'' @ rate_identifier userID ip" window s]
  by (cases "allow t (name @ '':'' @ rate_identifier userID ip) limit window s")
    (auto simp: RateLimit_def not_le split: sum.split)

lemma remaining_when_passed:
  assumes "fst (RateLimit name (Some allow) limit window userID ip t s) = Pass (Some h)"
  shows "\<exists>r s'. allow t (name @ '':'' @ rate_identifier userID ip) limit window s = (Inr r, s') \<and>
    h_Remaining h = show_int (limit - rl_Count r)"
  using assms counted [of limit t "name @ '':'' @ rate_identifier userID ip" window s]
  by (cases "allow t (name @ '':'' @ rate_identifier userID ip) limit window s")
    (auto simp: RateLimit_def headers_of_def split: sum.splits if_splits)

end

interpretation memory_limiter: limiter memory_Allow
  by unfold_locales (auto simp: memory_Allow_def max_int_def Let_def)

interpretation redis_limiter: limiter "redis_Allow rd" for rd
  by unfold_locales
    (auto simp: redis_Allow_def redis_result_def max_int_def Let_def
      split: sum.splits prod.splits if_splits)

section \<open>A window of the memory limiter\<close>

text \<open>A sequence of calls for one key.\<close>

fun memory_calls :: "string \<Rightarrow> int \<Rightarrow> int \<Rightarrow> time list \<Rightarrow> memory \<Rightarrow> bool list \<times> memory" where
  "memory_calls key limit window [] m = ([], m)"
| "memory_calls key limit window (t # ts) m =
     (case memory_Allow t key limit window m of
        (Inl err, m') \<Rightarrow> (False # fst (memory_calls key limit window ts m'),
                          snd (memory_calls key limit window ts m'))
      | (Inr r, m') \<Rightarrow> (rl_Allowed r # fst (memory_calls key limit window ts m'),
                        snd (memory_calls key limit window ts m')))"

lemma memory_calls_live:
  assumes "0 < limit" and "m key = Some e" and "\<forall>t \<in> set ts. t \<le> me_ResetAt e"
  shows "fst (memory_calls key limit window ts m) =
    map (\<lambda>i. me_Count e + int i < limit) [0 ..< length ts]"
  using assms
proof (induction ts arbitrary: m e)
  case (Cons t ts)
  let ?e = "e\<lparr>me_Count := me_Count e + 1\<rparr>"
  have call: "memory_Allow t key limit window m =
      (Inr \<lparr>rl_Allowed = (me_Count e + 1 \<le> limit), rl_Count = me_Count e + 1, rl_Limit = limit,
        rl_Remaining = max_int (limit - (me_Count e + 1)) 0, rl_ResetAt = me_ResetAt e\<rparr>, m(key \<mapsto> ?e))"
    using Cons.prems by (simp add: memory_Allow_def current_entry_def Let_def)
  have rest: "fst (memory_calls key limit window ts (m(key \<mapsto> ?e))) =
      map (\<lambda>i. me_Count e + (1 + int i) < limit) [0 ..< length ts]"
    using Cons.prems by (subst Cons.IH [of "m(key \<mapsto> ?e)" ?e]) (simp_all add: add.assoc)
  have list: "[0 ..< length (t # ts)] = 0 # map Suc [0 ..< length ts]"
    by (simp add: upt_conv_Cons map_Suc_upt del: upt_Suc)
  show ?case
    unfolding memory_calls.simps call list by (auto simp: rest comp_def simp del: upt_Suc)
qed simp

lemma memory_calls_fresh:
  assumes "0 < limit" and "case m key of None \<Rightarrow> True | Some e \<Rightarrow> me_ResetAt e < t"
    and "0 \<le> window" and "\<forall>t' \<in> set ts. t' \<le> t + window"
  shows "fst (memory_calls key limit window (t # ts) m) = map (\<lambda>i. int i < limit) [0 ..< length (t # ts)]"
proof -
  let ?e = "\<lparr>me_Count = 0, me_ResetAt = t + window\<rparr>"
  have "current_entry m t key window = ?e"
    using assms(2) by (auto simp: current_entry_def split: option.splits)
  moreover have "current_entry (m(key \<mapsto> ?e)) t key window = ?e"
    using assms(3) by (simp add: current_entry_def)
  ultimately have "memory_Allow t key limit window m = memory_Allow t key limit window (m(key \<mapsto> ?e))"
    using assms(1) by (simp add: memory_Allow_def Let_def)
  then have "memory_calls key limit window (t # ts) m = memory_calls key limit window (t # ts) (m(key \<mapsto> ?e))"
    by simp
  also have "fst \<dots> = map (\<lambda>i. me_Count ?e + int i < limit) [0 ..< length (t # ts)]"
    using assms by (intro memory_calls_live) auto
  finally show ?thesis by simp
qed

lemma memory_other_keys:
  "k \<noteq> key \<Longrightarrow> snd (memory_calls key limit window ts m) k = m k"
  by (induction ts arbitrary: m) (auto simp: memory_Allow_def Let_def split: prod.split sum.split)

text \<open>
  C38: Within one window of the memory limiter exactly the first limit calls for a key are
  allowed, and no other key's counter moves.
\<close>

theorem rate_window:
  assumes "0 < limit" and "case m key of None \<Rightarrow> True | Some e \<Rightarrow> me_ResetAt e < t"
    and "0 \<le> window" and "\<forall>t' \<in> set ts. t' \<le> t + window"
  shows "fst (memory_calls key limit window (t # ts) m) = map (\<lambda>i. int i < limit) [0 ..< length (t # ts)] \<and>
    (\<forall>k. k \<noteq> key \<longrightarrow> snd (memory_calls key limit window (t # ts) m) k = m k)"
  using assms by (blast intro: memory_calls_fresh memory_other_keys)

lemma rate_window_witness:
  "fst (memory_calls ''login:a'' 2 60 [5, 6, 7] NewMemoryLimiter) = [True, True, False]"
proof -
  have "[0 ..< 3] = [0, 1, 2::nat]" by (simp add: upt_rec)
  with rate_window [where limit = 2 and m = NewMemoryLimiter and key = "''login:a''" and t = 5 and window = 60 and ts = "[6, 7]"] show ?thesis
    by (simp add: NewMemoryLimiter_def)
qed

section \<open>A window of the Redis limiter\<close>

text \<open>
  What Redis documents of \<open>INCR\<close> and \<open>EXPIRE\<close>, for a server that answers and as long as no counter
  expires: \<open>INCR\<close> adds one to the counter of its key, a 64-bit integer, and replies with the new
  value; setting an expiry in the future changes no counter. \<open>n\<close> reads the counters.
\<close>

definition counting :: "'s redis \<Rightarrow> ('s \<Rightarrow> string \<Rightarrow> int) \<Rightarrow> bool" where
  "counting rd n \<longleftrightarrow>
     (\<forall>key s. n s key < 2 ^ 63 - 1 \<longrightarrow>
        (\<exists>ttl s'. rd_IncrTTL rd key s = (Inr (n s key + 1, ttl), s') \<and> n s' = (n s)(key := n s key + 1))) \<and>
     (\<forall>key window s. 0 < window \<longrightarrow> (\<exists>s'. rd_Expire rd key window s = (Inr (), s') \<and> n s' = n s))"

type_synonym caller = "string option \<times> string"

definition caller_of :: "caller \<times> time \<Rightarrow> string" where
  "caller_of = (\<lambda>((userID, ip), t). rate_identifier userID ip)"

definition counter :: "string \<Rightarrow> string \<Rightarrow> string" where
  "counter name i = ''rate_limit:'' @ name @ '':'' @ i"

text \<open>The verdicts on a sequence of requests of any callers.\<close>

fun verdicts :: "'s redis \<Rightarrow> string \<Rightarrow> int \<Rightarrow> int \<Rightarrow> (caller \<times> time) list \<Rightarrow> 's \<Rightarrow> verdict list" where
  "verdicts rd name limit window [] s = []"
| "verdicts rd name limit window (((userID, ip), t) # rs) s =
     (case RateLimit name (Some (redis_Allow rd)) limit window userID ip t s of
        (v, s') \<Rightarrow> v # verdicts rd name limit window rs s')"

fun is_refusal :: "verdict \<Rightarrow> bool" where
  "is_refusal (Pass h) = False"
| "is_refusal (TooManyRequests h) = True"

lemma counter_inj [simp]: "counter name i = counter name j \<longleftrightarrow> i = j"
  by (simp add: counter_def)

lemma RateLimit_redis:
  "0 < limit \<Longrightarrow> RateLimit name (Some (redis_Allow rd)) limit window userID ip t s =
     (case rd_IncrTTL rd (counter name (rate_identifier userID ip)) s of
        (Inl err, s1) \<Rightarrow> (Pass None, s1)
      | (Inr (count, ttl), s1) \<Rightarrow>
          if count = 1 \<or> ttl < 0
          then (case rd_Expire rd (counter name (rate_identifier userID ip)) window s1 of
                  (Inl err, s2) \<Rightarrow> (Pass None, s2)
                | (Inr _, s2) \<Rightarrow> (if limit < count then TooManyRequests (headers_of (redis_result t limit count window))
                    else Pass (Some (headers_of (redis_result t limit count window))), s2))
          else (if limit < count then TooManyRequests (headers_of (redis_result t limit count ttl))
                else Pass (Some (headers_of (redis_result t limit count ttl))), s1))"
  unfolding RateLimit_def redis_Allow_def Let_def counter_def
  by (auto simp: redis_result_def split: prod.split sum.split)

lemma counted_call:
  assumes rd: "counting rd n" and "0 < limit" and "0 < window"
    and "key = counter name (rate_identifier userID ip)" and k: "n s key < 2 ^ 63 - 1"
  obtains v s' where "RateLimit name (Some (redis_Allow rd)) limit window userID ip t s = (v, s')"
    and "is_refusal v \<longleftrightarrow> limit \<le> n s key" and "n s' = (n s)(key := n s key + 1)"
proof -
  from rd k obtain ttl s1 where incr: "rd_IncrTTL rd key s = (Inr (n s key + 1, ttl), s1)"
    and s1: "n s1 = (n s)(key := n s key + 1)" unfolding counting_def by blast
  from rd assms(3) obtain s2 where expire: "rd_Expire rd key window s1 = (Inr (), s2)" and s2: "n s2 = n s1"
    unfolding counting_def by blast
  show ?thesis
  proof (cases "n s key + 1 = 1 \<or> ttl < 0")
    case True
    with incr expire assms(4) that s1 s2 show ?thesis
      by (auto simp: RateLimit_redis [OF assms(2)])
  next
    case False
    with incr assms(4) that s1 show ?thesis
      by (auto simp: RateLimit_redis [OF assms(2)])
  qed
qed

text \<open>When the server fails, the request passes.\<close>

lemma unavailable_passes:
  assumes "rd_IncrTTL rd (counter name (rate_identifier userID ip)) s = (Inl err, s')"
  shows "fst (RateLimit name (Some (redis_Allow rd)) limit window userID ip t s) = Pass None"
  using assms by (cases "0 < limit") (simp_all add: RateLimit_redis, simp add: RateLimit_def)

text \<open>
  C39: Requests of any callers through the middleware with the Redis limiter, under a positive
  limit and window, while the server answers, counts as INCR documents, no counter expires and
  none leaves the range of an int64: a request is refused exactly when the counter of its caller,
  the earlier requests of the same caller included, has already reached the limit; requests of
  other callers do not count.
\<close>

theorem rate_refused:
  assumes "counting rd n" and "0 < limit" and "0 < window"
    and "\<forall>r \<in> set rs. n s (counter name (caller_of r)) + int (length rs) < 2 ^ 63"
  shows "map is_refusal (verdicts rd name limit window rs s) =
    map (\<lambda>i. limit \<le> n s (counter name (caller_of (rs ! i))) +
           int (length (filter (\<lambda>r. caller_of r = caller_of (rs ! i)) (take i rs)))) [0 ..< length rs]"
  using assms(4)
proof (induction rs arbitrary: s)
  case (Cons r rs)
  obtain userID ip t where r: "r = ((userID, ip), t)" by (cases r) auto
  let ?k = "counter name (caller_of r)"
  have id: "caller_of r = rate_identifier userID ip" by (simp add: r caller_of_def)
  have "n s ?k < 2 ^ 63 - 1" using Cons.prems by simp
  from counted_call [OF assms(1-3) _ this, where userID = userID and ip = ip and t = t] id obtain v s' where
    v: "RateLimit name (Some (redis_Allow rd)) limit window userID ip t s = (v, s')"
      "is_refusal v \<longleftrightarrow> limit \<le> n s ?k" and s': "n s' = (n s)(?k := n s ?k + 1)"
    by auto
  have "\<forall>q \<in> set rs. n s' (counter name (caller_of q)) + int (length rs) < 2 ^ 63"
    using Cons.prems by (auto simp: s')
  note rest = Cons.IH [OF this]
  have list: "[0 ..< length (r # rs)] = 0 # map Suc [0 ..< length rs]"
    by (simp add: upt_conv_Cons map_Suc_upt del: upt_Suc)
  show ?case
    unfolding list using v(2) by (simp add: r v(1) rest s' comp_def) (auto simp: r s')
qed simp

text \<open>A server with nothing but counters.\<close>

definition counter_server :: "(string \<Rightarrow> int) redis" where
  "counter_server = \<lparr>
     rd_IncrTTL = (\<lambda>key n. (Inr (n key + 1, if n key = 0 then - 1 else 60), n(key := n key + 1))),
     rd_Expire = (\<lambda>key window n. (Inr (), n))\<rparr>"

lemma rate_refused_witness:
  "map is_refusal (verdicts counter_server ''login'' 2 60 [((None, ''a''), 5), ((None, ''b''), 5), ((None, ''a''), 6),
     ((None, ''a''), 7), ((None, ''b''), 8)] (\<lambda>_. 0)) = [False, False, False, True, False]"
proof -
  have "counting counter_server (\<lambda>n. n)" by (auto simp: counting_def counter_server_def)
  moreover have "[0 ..< 5] = [0, 1, 2, 3, 4::nat]" by (simp add: upt_rec)
  ultimately show ?thesis
    by (subst rate_refused [where n = "\<lambda>n. n"]) (simp_all add: caller_of_def rate_identifier_def)
qed

end
