(* ===== verification/Middleware.thy ===== *)
theory Middleware
  imports Apperror
begin

text \<open>
  The deciding parts of the HTTP middleware: authentication and roles
  (\<^verbatim>\<open>internal/middleware/auth.go\<close>), the token that protects the metrics
  (\<^verbatim>\<open>internal/middleware/metrics_auth.go\<close>), the trace context (\<^verbatim>\<open>internal/middleware/trace.go\<close>).
  A middleware that calls \<open>c.Next()\<close> is one that answers \<open>Inr\<close>; \<^verbatim>\<open>Http.thy\<close> makes handlers of
  them. The parser of JSON web tokens is an argument.
\<close>

section \<open>Functions of package strings\<close>

text \<open>\<open>strings.SplitN(s, sep, 2)\<close> for a separator of one byte.\<close>

definition strings_SplitN2 :: "char \<Rightarrow> string \<Rightarrow> string list" where
  "strings_SplitN2 sep s =
     (case dropWhile (\<lambda>c. c \<noteq> sep) s of
        [] \<Rightarrow> [s]
      | _ # rest \<Rightarrow> [takeWhile (\<lambda>c. c \<noteq> sep) s, rest])"

text \<open>\<open>strings.Split\<close> for a separator of one byte.\<close>

fun strings_Split :: "char \<Rightarrow> string \<Rightarrow> string list" where
  "strings_Split sep [] = [[]]"
| "strings_Split sep (c # s) =
     (if c = sep then [] # strings_Split sep s
      else (c # hd (strings_Split sep s)) # tl (strings_Split sep s))"

text \<open>
  \<open>strings.EqualFold(s, "Bearer")\<close>. Unicode folds none of the letters of \<open>Bearer\<close> to a
  character outside ASCII.
\<close>

definition upper_ascii :: "char \<Rightarrow> char" where
  "upper_ascii c =
     (let n = (of_char c :: nat) in if 97 \<le> n \<and> n \<le> 122 then char_of (n - 32) else c)"

definition equal_fold_ascii :: "string \<Rightarrow> string \<Rightarrow> bool" where
  "equal_fold_ascii s s' \<longleftrightarrow> map upper_ascii s = map upper_ascii s'"

section \<open>Auth and RequireRole\<close>

record Claims =
  cl_UserID :: string
  cl_Role :: string

text \<open>The two values stored in the request's locals are the answer.\<close>

definition Auth :: "(string \<Rightarrow> Claims option) \<Rightarrow> string \<Rightarrow> goerror + Claims" where
  "Auth ParseToken header =
     (if header = '''' then Inl (Unauthorized ''missing authorization header'')
      else case strings_SplitN2 CHR '' '' header of
        [scheme, token] \<Rightarrow>
          if \<not> equal_fold_ascii scheme ''Bearer''
          then Inl (Unauthorized ''invalid authorization header'')
          else (case ParseToken token of
                  None \<Rightarrow> Inl (Unauthorized ''invalid token'')
                | Some claims \<Rightarrow> Inr claims)
      | _ \<Rightarrow> Inl (Unauthorized ''invalid authorization header''))"

definition RequireRole :: "string \<Rightarrow> string option \<Rightarrow> goerror + unit" where
  "RequireRole role currentRole =
     (if currentRole \<noteq> Some role then Inl (Forbidden ''insufficient role'') else Inr ())"

section \<open>ProtectMetrics\<close>

definition ProtectMetrics :: "string \<Rightarrow> string \<Rightarrow> string \<Rightarrow> goerror + unit" where
  "ProtectMetrics token metricsHeader header =
     (if token = '''' then Inr ()
      else if metricsHeader = token then Inr ()
      else case strings_SplitN2 CHR '' '' header of
        [scheme, value] \<Rightarrow>
          if equal_fold_ascii scheme ''Bearer'' \<and> value = token then Inr ()
          else Inl (Unauthorized ''invalid metrics token'')
      | _ \<Rightarrow> Inl (Unauthorized ''invalid metrics token''))"

section \<open>parseTraceParent\<close>

definition parseTraceParent :: "string \<Rightarrow> string" where
  "parseTraceParent header =
     (case strings_Split CHR ''-'' header of
        [version, traceID, parent, flags] \<Rightarrow>
          if length traceID \<noteq> 32 then ''''
          else if list_all (\<lambda>c. c = CHR ''0'') traceID then ''''
          else traceID
      | _ \<Rightarrow> '''')"

section \<open>Lemmas\<close>

lemma SplitN2_pair: "strings_SplitN2 sep s = [a, b] \<longleftrightarrow> s = a @ sep # b \<and> sep \<notin> set a"
proof
  assume h: "strings_SplitN2 sep s = [a, b]"
  then obtain c where d: "dropWhile (\<lambda>c. c \<noteq> sep) s = c # b" and a: "a = takeWhile (\<lambda>c. c \<noteq> sep) s"
    by (auto simp: strings_SplitN2_def split: list.splits)
  have "c = sep" using hd_dropWhile [of "\<lambda>c. c \<noteq> sep" s] d by auto
  then have "s = a @ sep # b" using takeWhile_dropWhile_id [of "\<lambda>c. c \<noteq> sep" s] d a by simp
  moreover have "sep \<notin> set a" using a by (auto dest: set_takeWhileD)
  ultimately show "s = a @ sep # b \<and> sep \<notin> set a" by simp
next
  assume h: "s = a @ sep # b \<and> sep \<notin> set a"
  then have "\<forall>c \<in> set a. c \<noteq> sep" by auto
  with h show "strings_SplitN2 sep s = [a, b]"
    by (simp add: strings_SplitN2_def takeWhile_append2 dropWhile_append2)
qed

lemma Split_not_Nil [simp]: "strings_Split sep s \<noteq> []"
  by (induction s) auto

lemma Split_members: "p \<in> set (strings_Split sep s) \<Longrightarrow> sep \<notin> set p"
proof (induction s arbitrary: p)
  case (Cons c s)
  then show ?case
    by (cases "strings_Split sep s") (auto split: if_splits)
qed simp

text \<open>Joining the parts again with the separator gives the string back.\<close>

fun strings_Join :: "char \<Rightarrow> string list \<Rightarrow> string" where
  "strings_Join sep [] = ''''"
| "strings_Join sep [p] = p"
| "strings_Join sep (p # q # ps) = p @ sep # strings_Join sep (q # ps)"

lemma Join_Split: "strings_Join sep (strings_Split sep s) = s"
proof (induction s)
  case (Cons c s)
  then show ?case
    by (cases "strings_Split sep s" rule: remdups_adj.cases) auto
qed simp

theorem Auth_accepts:
  "Auth ParseToken header = Inr claims \<longleftrightarrow>
     (\<exists>scheme token. header = scheme @ '' '' @ token \<and> CHR '' '' \<notin> set scheme \<and>
        equal_fold_ascii scheme ''Bearer'' \<and> ParseToken token = Some claims)"
proof -
  have "Auth ParseToken header = Inr claims \<longleftrightarrow>
     (\<exists>scheme token. strings_SplitN2 CHR '' '' header = [scheme, token] \<and>
        equal_fold_ascii scheme ''Bearer'' \<and> ParseToken token = Some claims)"
    by (auto simp: Auth_def strings_SplitN2_def split: list.splits option.splits if_splits)
  then show ?thesis by (simp add: SplitN2_pair)
qed

theorem ProtectMetrics_accepts:
  "ProtectMetrics token metricsHeader header = Inr () \<longleftrightarrow>
     token = '''' \<or> metricsHeader = token \<or>
     (\<exists>scheme. header = scheme @ '' '' @ token \<and> CHR '' '' \<notin> set scheme \<and> equal_fold_ascii scheme ''Bearer'')"
proof -
  have "ProtectMetrics token metricsHeader header = Inr () \<longleftrightarrow> token = '''' \<or> metricsHeader = token \<or>
     (\<exists>scheme. strings_SplitN2 CHR '' '' header = [scheme, token] \<and> equal_fold_ascii scheme ''Bearer'')"
    by (auto simp: ProtectMetrics_def strings_SplitN2_def split: list.splits if_splits)
  then show ?thesis by (simp add: SplitN2_pair)
qed

lemma Split_part: "sep \<notin> set p \<Longrightarrow> strings_Split sep (p @ sep # s) = p # strings_Split sep s"
  by (induction p) auto

lemma Split_whole: "sep \<notin> set p \<Longrightarrow> strings_Split sep p = [p]"
  by (induction p) auto

theorem parseTraceParent_accepts:
  "parseTraceParent header = t \<and> t \<noteq> '''' \<longleftrightarrow>
     (\<exists>version parent flags. header = version @ ''-'' @ t @ ''-'' @ parent @ ''-'' @ flags \<and>
        CHR ''-'' \<notin> set (version @ t @ parent @ flags) \<and> length t = 32 \<and>
        \<not> list_all (\<lambda>c. c = CHR ''0'') t)"
proof -
  have "(\<exists>version parent flags. strings_Split CHR ''-'' header = [version, t, parent, flags] \<and> length t = 32 \<and>
        \<not> list_all (\<lambda>c. c = CHR ''0'') t) \<longleftrightarrow> parseTraceParent header = t \<and> t \<noteq> ''''"
    by (auto simp: parseTraceParent_def split: list.split if_splits)
  moreover have "strings_Split CHR ''-'' header = [version, t, parent, flags] \<longleftrightarrow>
      header = version @ ''-'' @ t @ ''-'' @ parent @ ''-'' @ flags \<and> CHR ''-'' \<notin> set (version @ t @ parent @ flags)"
    for version parent flags
    using Join_Split [of "CHR ''-''" header] Split_members [of _ "CHR ''-''" header]
    by (auto simp: Split_part Split_whole)
  ultimately show ?thesis by (simp only: conj_assoc)
qed

end
