(* ===== verification/Tokens.thy ===== *)
theory Tokens
  imports Auth Middleware
begin

text \<open>
  \<open>ParseToken\<close> of \<^verbatim>\<open>internal/pkg/auth/jwt.go\<close>. The package \<^verbatim>\<open>golang-jwt/jwt/v5\<close> is the
  parameter \<open>jwt_parser\<close>: a parser is built from the accepted methods and the issuer, and is
  called with the function that finds the key for the method named in the token's header, with
  the time its clock shows, and with the token; it answers an error, or the claims and whether
  the token is valid.
\<close>

type_synonym jwt_parser =
  "string list \<Rightarrow> string \<Rightarrow> (string \<Rightarrow> goerror + string) \<Rightarrow> time \<Rightarrow> string \<Rightarrow> goerror + Claims \<times> bool"

definition signing_key :: "JWTManager \<Rightarrow> string \<Rightarrow> goerror + string" where
  "signing_key m alg =
     (if alg \<noteq> ''HS256'' then Inl (OtherError (''unexpected signing method: '' @ alg))
      else Inr (jm_secretKey m))"

definition ParseToken :: "jwt_parser \<Rightarrow> JWTManager \<Rightarrow> time \<Rightarrow> string \<Rightarrow> goerror + Claims" where
  "ParseToken parser m t tokenString =
     (case parser [''HS256''] (jm_issuer m) (signing_key m) t tokenString of
        Inl err \<Rightarrow> Inl err
      | Inr (claims, valid) \<Rightarrow>
          if \<not> valid then Inl (OtherError ''invalid token'') else Inr claims)"

text \<open>The middleware only asks whether there are claims.\<close>

definition accepted :: "jwt_parser \<Rightarrow> JWTManager \<Rightarrow> time \<Rightarrow> string \<Rightarrow> Claims option" where
  "accepted parser m t tokenString =
     (case ParseToken parser m t tokenString of Inl _ \<Rightarrow> None | Inr claims \<Rightarrow> Some claims)"

section \<open>A token that was issued is accepted\<close>

text \<open>
  What the package documents of signing and parsing together, for the claims this program signs
  and no others: \<open>user_id\<close>, \<open>role\<close>, \<open>iss\<close> and \<open>sub\<close> are strings (in ASCII, which \<^verbatim>\<open>encoding/json\<close>
  writes and reads back unchanged), \<open>exp\<close> and \<open>iat\<close> are dates in whole seconds, and there is no
  \<open>nbf\<close>. A parser for HS256 that finds the key the token was signed with, and asks for the issuer
  the token names, reads the two fields of \<open>Claims\<close> back and takes the token for valid as long as
  the clock shows a time before \<open>exp\<close>. The bound is that of a time in nanoseconds.
\<close>

definition token_claims :: "string \<Rightarrow> string \<Rightarrow> string \<Rightarrow> time \<Rightarrow> time \<Rightarrow> (string \<times> json) list" where
  "token_claims userID role issuer expiresAt issuedAt =
     [(''user_id'', JString userID), (''role'', JString role), (''iss'', JString issuer),
      (''sub'', JString userID), (''exp'', NewNumericDate expiresAt), (''iat'', NewNumericDate issuedAt)]"

definition parses_signed :: "env \<Rightarrow> jwt_parser \<Rightarrow> bool" where
  "parses_signed env parser \<longleftrightarrow> (\<forall>key userID role issuer expiresAt issuedAt token find_key t.
     jwt_Sign env key (token_claims userID role issuer expiresAt issuedAt) = Inr token \<longrightarrow>
     list_all is_ascii (userID @ role @ issuer) \<longrightarrow> find_key ''HS256'' = Inr key \<longrightarrow>
     0 \<le> t \<longrightarrow> t < expiresAt - expiresAt mod 1000000000 \<longrightarrow> expiresAt < 2 ^ 63 \<longrightarrow>
     parser [''HS256''] issuer find_key t token = Inr (\<lparr>cl_UserID = userID, cl_Role = role\<rparr>, True))"

lemma GenerateToken_parses:
  assumes "parses_signed env parser" and "GenerateToken env m user w = (Inr (token, expiresAt), w')"
    and "list_all is_ascii (uuid_String env (u_ID user) @ role_string (u_Role user) @ jm_issuer m)"
    and "0 \<le> t" "t < expiresAt - expiresAt mod 1000000000" "expiresAt < 2 ^ 63"
  shows "ParseToken parser m t token =
     Inr \<lparr>cl_UserID = uuid_String env (u_ID user), cl_Role = role_string (u_Role user)\<rparr>"
proof -
  let ?id = "uuid_String env (u_ID user)" and ?role = "role_string (u_Role user)"
  from assms(2) obtain issued where
    "jwt_Sign env (jm_secretKey m) (token_claims ?id ?role (jm_issuer m) expiresAt issued) = Inr token"
    by (auto simp: GenerateToken_def token_claims_def and_then_def now_def ok_def throw_def Let_def split: sum.splits)
  moreover have "signing_key m ''HS256'' = Inr (jm_secretKey m)"
    by (simp add: signing_key_def)
  ultimately have "parser [''HS256''] (jm_issuer m) (signing_key m) t token =
      Inr (\<lparr>cl_UserID = ?id, cl_Role = ?role\<rparr>, True)"
    using assms(1,3-6) unfolding parses_signed_def by blast
  then show ?thesis by (simp add: ParseToken_def)
qed

lemma internal_error_Inr: "internal_error m s = (Inr x, s') \<longleftrightarrow> m s = (Inr x, s')"
  by (auto simp: internal_error_def split: prod.splits sum.splits)

lemma Login_token:
  assumes "Login env m req w = (Inr res, w')"
  obtains user w1 w2 where "lgr_User res = toUserResponse env user"
    and "GenerateToken env m user w1 = (Inr (lgr_AccessToken res, lgr_ExpiresAt res), w2)"
proof -
  from assms obtain user w1 where "and_then (internal_error (GenerateToken env m user)) (\<lambda>(token, expiresAt).
                 and_then (new_uuid env) (\<lambda>auditID.
                 and_then (now env) (\<lambda>auditTime.
                 and_then (internal_error (Audits_Create env
                     \<lparr>al_ID = auditID, al_ActorUserID = Some (u_ID user),
                      al_Action = ''USER_LOGGED_IN'', al_EntityType = ''user'',
                      al_EntityID = Some (u_ID user),
                      al_Metadata = JObject [(''email'', JString (u_Email user))],
                      al_CreatedAt = auditTime\<rparr>)) (\<lambda>_.
                 ok \<lparr>lgr_AccessToken = token, lgr_ExpiresAt = expiresAt,
                     lgr_User = toUserResponse env user\<rparr>)))) w1 = (Inr res, w')"
    by (auto simp: Login_def Let_def throw_def split: if_splits prod.splits sum.splits)
  then have "lgr_User res = toUserResponse env user \<and>
      (\<exists>w2. GenerateToken env m user w1 = (Inr (lgr_AccessToken res, lgr_ExpiresAt res), w2))"
    by (auto simp: and_then_Inr internal_error_Inr ok_def)
  then show ?thesis using that by blast
qed

end
