(* ===== verification/Http.thy ===== *)
theory Http
  imports Tokens RateLimit
begin

text \<open>
  What the HTTP layer is made of: requests, the context of a request, handlers that call the
  next one, the stack of registered handlers and how a request goes through it, and the
  functions that write answers (\<^verbatim>\<open>internal/delivery/http/response/writer.go\<close>,
  \<^verbatim>\<open>internal/pkg/apiresponse/response.go\<close>, \<open>ErrorHandler\<close> of \<^verbatim>\<open>internal/app/app.go\<close>); the middleware
  of \<^verbatim>\<open>internal/middleware\<close> as handlers.

  The web framework, the validator and the token library are the record \<open>http_lib\<close>: how a
  registered prefix or pattern matches a path, what the body parsers make of a body, what
  counts as an e-mail address, and so on. How the framework runs its stack is documented
  behaviour and written out: the layers are tried in the order in which they were registered, a
  handler that calls \<open>c.Next()\<close> gives the turn to the next handler of its layer, the last one
  to the next layer that matches. A panic passes through the handlers up to the recovering one.
\<close>

section \<open>Requests and contexts\<close>

text \<open>\<open>hq_Time\<close> is what the clock shows to the libraries while the request is handled.\<close>

record http_req =
  hq_Method :: string
  hq_Path :: string
  hq_OriginalURL :: string
  hq_Header :: "string \<Rightarrow> string"
  hq_Query :: "string \<Rightarrow> string"
  hq_Body :: string
  hq_IP :: string
  hq_Time :: time

datatype http_body = NoBody | JSONBody json | RawBody json | PageBody string

record ctx =
  c_Request :: http_req
  c_Params :: "(string \<times> string) list"
  c_Route :: string
  c_UserID :: "string option"
  c_Role :: "string option"
  c_TraceID :: "string option"
  c_Status :: int
  c_Headers :: "(string \<times> string) list"
  c_Body :: http_body

datatype http_error = FiberError int string | GoError goerror

datatype outcome = Returned | Failed http_error | Panicked string

record log_entry =
  log_RequestID :: string
  log_Method :: string
  log_Path :: string
  log_Status :: int
  log_TraceID :: "string option"
  log_UserID :: "string option"

text \<open>
  The server: the world of the use cases, the Redis server, the counters of \<open>metrics.Collector\<close>
  as the lists of what was counted, and the log of requests.
\<close>

record 's server =
  sv_world :: world
  sv_redis :: 's
  sv_requests :: "(string \<times> string \<times> int) list"
  sv_limited :: "string list"
  sv_log :: "log_entry list"

type_synonym 's step = "ctx \<Rightarrow> 's server \<Rightarrow> outcome \<times> ctx \<times> 's server"
type_synonym 's handler = "'s step \<Rightarrow> 's step"

section \<open>Data transfer objects\<close>

record RegisterDTO =
  rgd_Name :: string
  rgd_Email :: string
  rgd_Password :: string

record LoginDTO =
  lgd_Email :: string
  lgd_Password :: string

record TopUpDTO =
  tud_Amount :: int64
  tud_Description :: "string option"

record TransferDTO =
  tfd_RecipientWalletID :: string
  tfd_Amount :: int64
  tfd_Description :: "string option"

section \<open>The libraries\<close>

text \<open>
  What \<open>c.SendFile\<close> makes of a file: an answer, the error of Fiber for a file that is not there,
  or another error.
\<close>

datatype file_answer = FileSent int string | FileMissing string | FileFailed string

record http_lib =
  path_prefix :: "string \<Rightarrow> string \<Rightarrow> bool"
  path_match :: "string \<Rightarrow> string \<Rightarrow> (string \<times> string) list option"
  BodyParser_Register :: "http_req \<Rightarrow> RegisterDTO option"
  BodyParser_Login :: "http_req \<Rightarrow> LoginDTO option"
  BodyParser_TopUp :: "http_req \<Rightarrow> TopUpDTO option"
  BodyParser_Transfer :: "http_req \<Rightarrow> TransferDTO option"
  is_email :: "string \<Rightarrow> bool"
  is_uuid4 :: "string \<Rightarrow> bool"
  rune_count :: "string \<Rightarrow> nat"
  jwt_ParseWithClaims :: jwt_parser
  sha256_hex :: "string \<Rightarrow> string"
  format_RFC3339 :: "time \<Rightarrow> string"
  generated_request_id :: "http_req \<Rightarrow> string"
  panic_error :: "string \<Rightarrow> string"
  promhttp_answer :: "http_req \<Rightarrow> (string \<times> string \<times> int) list \<Rightarrow> string list \<Rightarrow> int \<times> string"
  swagger_page :: string
  send_file :: "http_req \<Rightarrow> string \<Rightarrow> file_answer"

section \<open>The stack\<close>

datatype 's layer =
    Use string "'s handler list"
  | Route string string "'s handler list"

definition chain :: "'s handler list \<Rightarrow> 's step \<Rightarrow> 's step" where
  "chain hs rest = foldr (\<lambda>h k. h k) hs rest"

fun dispatch :: "http_lib \<Rightarrow> 's layer list \<Rightarrow> 's step" where
  "dispatch lib [] c s =
     (Failed (FiberError 404
        (''Cannot '' @ hq_Method (c_Request c) @ '' '' @ hq_Path (c_Request c))), c, s)"
| "dispatch lib (Use prefix hs # ls) c s =
     (if path_prefix lib prefix (hq_Path (c_Request c))
      then chain hs (dispatch lib ls) (c\<lparr>c_Route := prefix\<rparr>) s
      else dispatch lib ls c s)"
| "dispatch lib (Route method pattern hs # ls) c s =
     (if hq_Method (c_Request c) \<noteq> method then dispatch lib ls c s
      else case path_match lib pattern (hq_Path (c_Request c)) of
          None \<Rightarrow> dispatch lib ls c s
        | Some params \<Rightarrow> chain hs (dispatch lib ls) (c\<lparr>c_Route := pattern, c_Params := params\<rparr>) s)"

text \<open>Registering a handler for \<open>GET\<close> registers it for \<open>HEAD\<close> as well.\<close>

definition Get :: "string \<Rightarrow> 's handler list \<Rightarrow> 's layer list" where
  "Get pattern hs = [Route ''HEAD'' pattern hs, Route ''GET'' pattern hs]"

definition Post :: "string \<Rightarrow> 's handler list \<Rightarrow> 's layer list" where
  "Post pattern hs = [Route ''POST'' pattern hs]"

section \<open>Headers\<close>

definition set_header :: "string \<Rightarrow> string \<Rightarrow> ctx \<Rightarrow> ctx" where
  "set_header name v c =
     c\<lparr>c_Headers := (name, v) # filter (\<lambda>(n, _). n \<noteq> name) (c_Headers c)\<rparr>"

definition resp_header :: "string \<Rightarrow> ctx \<Rightarrow> string" where
  "resp_header name c = (case map_of (c_Headers c) name of None \<Rightarrow> '''' | Some v \<Rightarrow> v)"

definition request_header :: "string \<Rightarrow> ctx \<Rightarrow> string" where
  "request_header name c = hq_Header (c_Request c) name"

section \<open>Answers\<close>

text \<open>The envelopes; \<open>None\<close> is a nil interface, which \<open>omitempty\<close> leaves out.\<close>

definition omit_nil :: "string \<Rightarrow> json option \<Rightarrow> (string \<times> json) list" where
  "omit_nil name v = (case v of None \<Rightarrow> [] | Some j \<Rightarrow> [(name, j)])"

definition apiresponse_Success :: "json option \<Rightarrow> json option \<Rightarrow> json" where
  "apiresponse_Success data meta =
     JObject ([(''message'', JString ''success'')] @ omit_nil ''data'' data @ omit_nil ''meta'' meta)"

definition details_json :: "(string \<times> string) list \<Rightarrow> json" where
  "details_json ds =
     JArray (map (\<lambda>(f, m). JObject [(''field'', JString f), (''message'', JString m)]) ds)"

definition apiresponse_Error :: "string \<Rightarrow> string \<Rightarrow> (string \<times> string) list option \<Rightarrow> json" where
  "apiresponse_Error message errorCode details =
     JObject ([(''message'', JString message), (''error_code'', JString errorCode)] @
              omit_nil ''details'' (map_option details_json details))"

definition send_json :: "int \<Rightarrow> json \<Rightarrow> ctx \<Rightarrow> ctx" where
  "send_json status body c =
     set_header ''Content-Type'' ''application/json'' (c\<lparr>c_Status := status, c_Body := JSONBody body\<rparr>)"

definition response_Success :: "int \<Rightarrow> json \<Rightarrow> json option \<Rightarrow> ctx \<Rightarrow> ctx" where
  "response_Success status data meta = send_json status (apiresponse_Success (Some data) meta)"

definition response_Error :: "goerror \<Rightarrow> ctx \<Rightarrow> ctx" where
  "response_Error err =
     (let appErr = apperror_As err in
      send_json (Status appErr) (apiresponse_Error (Message appErr) (Code appErr) (Details appErr)))"

definition response_RawJSON :: "int \<Rightarrow> json \<Rightarrow> ctx \<Rightarrow> ctx" where
  "response_RawJSON status body c =
     (set_header ''Content-Type'' ''application/json; charset=utf-8'' c)\<lparr>c_Status := status,
        c_Body := RawBody body\<rparr>"

fun ErrorHandler :: "http_error \<Rightarrow> ctx \<Rightarrow> ctx" where
  "ErrorHandler (FiberError code message) =
     send_json code (apiresponse_Error message ''HTTP_ERROR'' None)"
| "ErrorHandler (GoError err) = response_Error err"

section \<open>Middleware\<close>

text \<open>The request identifier is the client's, or a new one.\<close>

definition requestid_New :: "http_lib \<Rightarrow> 's handler" where
  "requestid_New lib next c s =
     (let given = request_header ''X-Request-ID'' c;
          rid = (if given \<noteq> '''' then given else generated_request_id lib (c_Request c)) in
      next (set_header ''X-Request-ID'' rid c) s)"

definition requestid_Get :: "ctx \<Rightarrow> string" where
  "requestid_Get c =
     (let rid = resp_header ''X-Request-ID'' c in
      if rid \<noteq> '''' then rid else request_header ''X-Request-ID'' c)"

definition TraceContext :: "'s handler" where
  "TraceContext next c s =
     (let traceID = parseTraceParent (request_header ''traceparent'' c) in
      next (if traceID \<noteq> '''' then c\<lparr>c_TraceID := Some traceID\<rparr> else c) s)"

text \<open>
  Fiber's \<open>recover\<close> is documented to turn a panic of the handlers behind it into an error for the
  \<open>ErrorHandler\<close>; which text the error has is left to the library.
\<close>

definition recover_New :: "http_lib \<Rightarrow> 's handler" where
  "recover_New lib next c s =
     (case next c s of
        (Panicked m, c', s') \<Rightarrow> (Failed (GoError (OtherError (panic_error lib m))), c', s')
      | (r, c', s') \<Rightarrow> (r, c', s'))"

text \<open>What the metrics and the log take for the status of an answer.\<close>

fun error_status :: "http_error \<Rightarrow> int" where
  "error_status (FiberError code m) = code"
| "error_status (GoError err) = Status (apperror_As err)"

fun observed_status :: "outcome \<Rightarrow> ctx \<Rightarrow> int" where
  "observed_status (Failed err) c = error_status err"
| "observed_status _ c = c_Status c"

definition ObserveHTTPRequest :: "string \<Rightarrow> string \<Rightarrow> int \<Rightarrow> 's server \<Rightarrow> 's server" where
  "ObserveHTTPRequest method route statusCode s =
     s\<lparr>sv_requests := sv_requests s @ [(method, route, statusCode)]\<rparr>"

definition IncrementRateLimitExceeded :: "string \<Rightarrow> 's server \<Rightarrow> 's server" where
  "IncrementRateLimitExceeded scope s = s\<lparr>sv_limited := sv_limited s @ [scope]\<rparr>"

text \<open>A panic passes: what follows \<open>c.Next()\<close> does not run.\<close>

definition Metrics :: "bool \<Rightarrow> 's handler" where
  "Metrics collector next c s =
     (if \<not> collector then next c s
      else case next c s of
          (Panicked m, c', s') \<Rightarrow> (Panicked m, c', s')
        | (r, c', s') \<Rightarrow>
            (r, c', ObserveHTTPRequest (hq_Method (c_Request c'))
               (if c_Route c' \<noteq> '''' then c_Route c' else hq_Path (c_Request c'))
               (observed_status r c') s'))"

definition non_empty :: "string option \<Rightarrow> string option" where
  "non_empty v = (case v of None \<Rightarrow> None | Some t \<Rightarrow> if t \<noteq> '''' then Some t else None)"

definition RequestLogger :: "'s handler" where
  "RequestLogger next c s =
     (case next c s of
        (Panicked m, c', s') \<Rightarrow> (Panicked m, c', s')
      | (r, c', s') \<Rightarrow>
          (r, c', s'\<lparr>sv_log := sv_log s' @
             [\<lparr>log_RequestID = requestid_Get c', log_Method = hq_Method (c_Request c'),
               log_Path = hq_OriginalURL (c_Request c'), log_Status = observed_status r c',
               log_TraceID = non_empty (c_TraceID c'), log_UserID = non_empty (c_UserID c')\<rparr>]\<rparr>))"

definition Auth_handler :: "http_lib \<Rightarrow> JWTManager \<Rightarrow> 's handler" where
  "Auth_handler lib m next c s =
     (case Auth (accepted (jwt_ParseWithClaims lib) m (hq_Time (c_Request c)))
             (request_header ''Authorization'' c) of
        Inl err \<Rightarrow> (Failed (GoError err), c, s)
      | Inr claims \<Rightarrow> next (c\<lparr>c_UserID := Some (cl_UserID claims), c_Role := Some (cl_Role claims)\<rparr>) s)"

definition RequireRole_handler :: "Role \<Rightarrow> 's handler" where
  "RequireRole_handler role next c s =
     (case RequireRole (role_string role) (c_Role c) of
        Inl err \<Rightarrow> (Failed (GoError err), c, s)
      | Inr _ \<Rightarrow> next c s)"

definition ProtectMetrics_handler :: "string \<Rightarrow> 's handler" where
  "ProtectMetrics_handler token next c s =
     (case ProtectMetrics token (request_header ''X-Metrics-Token'' c)
             (request_header ''Authorization'' c) of
        Inl err \<Rightarrow> (Failed (GoError err), c, s)
      | Inr _ \<Rightarrow> next c s)"

definition rate_limit_headers :: "http_lib \<Rightarrow> rate_headers \<Rightarrow> ctx \<Rightarrow> ctx" where
  "rate_limit_headers lib h c =
     set_header ''X-RateLimit-Reset'' (format_RFC3339 lib (h_Reset h))
       (set_header ''X-RateLimit-Remaining'' (h_Remaining h)
         (set_header ''X-RateLimit-Limit'' (h_Limit h) c))"

definition RateLimit_handler ::
  "http_lib \<Rightarrow> string \<Rightarrow> (time \<Rightarrow> string \<Rightarrow> int \<Rightarrow> int \<Rightarrow> 's \<Rightarrow> (string + Result) \<times> 's) option \<Rightarrow> int \<Rightarrow> int \<Rightarrow>
   's handler" where
  "RateLimit_handler lib name allow limit window next c s =
     (case RateLimit name allow limit window (c_UserID c) (hq_IP (c_Request c))
             (hq_Time (c_Request c)) (sv_redis s) of
        (Pass None, r) \<Rightarrow> next c (s\<lparr>sv_redis := r\<rparr>)
      | (Pass (Some h), r) \<Rightarrow> next (rate_limit_headers lib h c) (s\<lparr>sv_redis := r\<rparr>)
      | (TooManyRequests h, r) \<Rightarrow>
          (Returned,
           send_json 429 (apiresponse_Error ''rate limit exceeded'' ''RATE_LIMIT_EXCEEDED''
               (Some [(name, ''too many requests'')])) (rate_limit_headers lib h c),
           IncrementRateLimitExceeded name (s\<lparr>sv_redis := r\<rparr>)))"

text \<open>
  \<open>FiberHandler\<close> of the collector: whatever \<open>promhttp\<close> answers with what was counted so far, its
  own error page included; or 404 without a collector.
\<close>

definition FiberHandler :: "http_lib \<Rightarrow> bool \<Rightarrow> 's handler" where
  "FiberHandler lib collector next c s =
     (if collector
      then (case promhttp_answer lib (c_Request c) (sv_requests s) (sv_limited s) of
          (status, content) \<Rightarrow> (Returned, c\<lparr>c_Status := status, c_Body := PageBody content\<rparr>, s))
      else (Returned, c\<lparr>c_Status := 404\<rparr>, s))"

end
