(* ===== verification/Config.thy ===== *)
theory Config
  imports Auth Webhook Middleware Strconv
begin

text \<open>
  The configuration, \<^verbatim>\<open>internal/config/config.go\<close>: what \<open>Load\<close> makes of the environment
  variables and what \<open>Validate\<close> accepts. The environment is the argument \<open>lookup\<close>, the
  function \<open>os.LookupEnv\<close> with its second result as an option. \<open>WebhookConfig\<close> is declared
  where it is used, in \<^verbatim>\<open>Webhook.thy\<close>.
\<close>

section \<open>The records\<close>

record AppConfig =
  ac_Name :: string
  ac_Env :: string
  ac_Port :: string

text \<open>\<open>ConnMaxLifetime\<close> is a duration, in nanoseconds.\<close>

record DBConfig =
  dc_Host :: string
  dc_Port :: string
  dc_User :: string
  dc_Password :: string
  dc_Name :: string
  dc_SSLMode :: string
  dc_TimeZone :: string
  dc_MaxOpenConns :: int
  dc_MaxIdleConns :: int
  dc_ConnMaxLifetime :: int

record JWTConfig =
  jc_Secret :: string
  jc_Issuer :: string
  jc_ExpiryMinutes :: int

record RedisConfig =
  rc_Host :: string
  rc_Port :: string
  rc_Password :: string
  rc_DB :: int

record RateLimitConfig =
  rlc_WindowSeconds :: int
  rlc_Login :: int
  rlc_TopUp :: int
  rlc_Transfer :: int

record SeedConfig =
  sdc_EnableAdminSeed :: bool
  sdc_AdminName :: string
  sdc_AdminEmail :: string
  sdc_AdminPassword :: string

record DocsConfig =
  doc_Enabled :: bool

record ObservabilityConfig =
  oc_MetricsEnabled :: bool
  oc_MetricsToken :: string

record Config =
  cf_App :: AppConfig
  cf_DB :: DBConfig
  cf_Redis :: RedisConfig
  cf_RateLimit :: RateLimitConfig
  cf_JWT :: JWTConfig
  cf_Seed :: SeedConfig
  cf_Docs :: DocsConfig
  cf_Observability :: ObservabilityConfig
  cf_Webhook :: WebhookConfig

section \<open>Reading variables\<close>

definition getEnv :: "(string \<Rightarrow> string option) \<Rightarrow> string \<Rightarrow> string \<Rightarrow> string" where
  "getEnv lookup key fallback =
     (case lookup key of None \<Rightarrow> fallback | Some v \<Rightarrow> if v \<noteq> '''' then v else fallback)"

definition getEnvAsInt :: "(string \<Rightarrow> string option) \<Rightarrow> string \<Rightarrow> int \<Rightarrow> int" where
  "getEnvAsInt lookup key fallback =
     (let v = getEnv lookup key '''' in
      if v = '''' then fallback
      else case strconv_Atoi v of None \<Rightarrow> fallback | Some parsed \<Rightarrow> parsed)"

definition getEnvAsBool :: "(string \<Rightarrow> string option) \<Rightarrow> string \<Rightarrow> bool \<Rightarrow> bool" where
  "getEnvAsBool lookup key fallback =
     (let v = getEnv lookup key '''' in
      if v = '''' then fallback
      else case strconv_ParseBool v of None \<Rightarrow> fallback | Some parsed \<Rightarrow> parsed)"

text \<open>Unicode folds none of the letters of the two names to a character outside ASCII.\<close>

definition isDevelopmentEnv :: "string \<Rightarrow> bool" where
  "isDevelopmentEnv e \<longleftrightarrow> equal_fold_ascii e ''development'' \<or> equal_fold_ascii e ''dev''"

definition IsDevelopment :: "AppConfig \<Rightarrow> bool" where
  "IsDevelopment c = isDevelopmentEnv (ac_Env c)"

section \<open>Load\<close>

definition Load :: "(string \<Rightarrow> string option) \<Rightarrow> Config" where
  "Load lookup =
     (let appEnv = getEnv lookup ''APP_ENV'' ''development'';
          enableAdminSeedByDefault = isDevelopmentEnv appEnv in
      \<lparr>cf_App = \<lparr>ac_Name = getEnv lookup ''APP_NAME'' ''go-hermes'', ac_Env = appEnv,
         ac_Port = getEnv lookup ''APP_PORT'' ''8080''\<rparr>,
       cf_DB = \<lparr>dc_Host = getEnv lookup ''DB_HOST'' ''localhost'',
         dc_Port = getEnv lookup ''DB_PORT'' ''5432'',
         dc_User = getEnv lookup ''DB_USER'' ''postgres'',
         dc_Password = getEnv lookup ''DB_PASSWORD'' ''postgres'',
         dc_Name = getEnv lookup ''DB_NAME'' ''go_hermes'',
         dc_SSLMode = getEnv lookup ''DB_SSLMODE'' ''disable'',
         dc_TimeZone = getEnv lookup ''DB_TIMEZONE'' ''Asia/Jakarta'',
         dc_MaxOpenConns = getEnvAsInt lookup ''DB_MAX_OPEN_CONNS'' 25,
         dc_MaxIdleConns = getEnvAsInt lookup ''DB_MAX_IDLE_CONNS'' 25,
         dc_ConnMaxLifetime =
           wrap64 (getEnvAsInt lookup ''DB_CONN_MAX_LIFETIME_MINUTES'' 30 * 60000000000)\<rparr>,
       cf_Redis = \<lparr>rc_Host = getEnv lookup ''REDIS_HOST'' ''localhost'',
         rc_Port = getEnv lookup ''REDIS_PORT'' ''6379'',
         rc_Password = getEnv lookup ''REDIS_PASSWORD'' '''',
         rc_DB = getEnvAsInt lookup ''REDIS_DB'' 0\<rparr>,
       cf_RateLimit = \<lparr>rlc_WindowSeconds = getEnvAsInt lookup ''RATE_LIMIT_WINDOW_SECONDS'' 60,
         rlc_Login = getEnvAsInt lookup ''RATE_LIMIT_LOGIN'' 10,
         rlc_TopUp = getEnvAsInt lookup ''RATE_LIMIT_TOPUP'' 20,
         rlc_Transfer = getEnvAsInt lookup ''RATE_LIMIT_TRANSFER'' 20\<rparr>,
       cf_JWT = \<lparr>jc_Secret = getEnv lookup ''JWT_SECRET'' ''change-me'',
         jc_Issuer = getEnv lookup ''JWT_ISSUER'' ''go-hermes'',
         jc_ExpiryMinutes = getEnvAsInt lookup ''JWT_EXPIRY_MINUTES'' 60\<rparr>,
       cf_Seed = \<lparr>sdc_EnableAdminSeed =
           getEnvAsBool lookup ''SEED_ADMIN_ENABLED'' enableAdminSeedByDefault,
         sdc_AdminName = getEnv lookup ''SEED_ADMIN_NAME'' ''System Admin'',
         sdc_AdminEmail = getEnv lookup ''SEED_ADMIN_EMAIL'' ''admin@gohermes.local'',
         sdc_AdminPassword = getEnv lookup ''SEED_ADMIN_PASSWORD'' ''ChangeMe123!''\<rparr>,
       cf_Docs = \<lparr>doc_Enabled = getEnvAsBool lookup ''DOCS_ENABLED'' True\<rparr>,
       cf_Observability = \<lparr>oc_MetricsEnabled = getEnvAsBool lookup ''METRICS_ENABLED'' True,
         oc_MetricsToken = getEnv lookup ''METRICS_TOKEN'' ''''\<rparr>,
       cf_Webhook = \<lparr>wc_Enabled = getEnvAsBool lookup ''WEBHOOK_ENABLED'' False,
         wc_TargetURL = getEnv lookup ''WEBHOOK_TARGET_URL'' '''',
         wc_Secret = getEnv lookup ''WEBHOOK_SECRET'' '''',
         wc_MaxRetry = getEnvAsInt lookup ''WEBHOOK_MAX_RETRY'' 3,
         wc_RetryIntervalSeconds = getEnvAsInt lookup ''WEBHOOK_RETRY_INTERVAL_SECONDS'' 30,
         wc_WorkerBatchSize = getEnvAsInt lookup ''WEBHOOK_WORKER_BATCH_SIZE'' 20\<rparr>\<rparr>)"

section \<open>Validate\<close>

definition minJWTSecretLength :: nat where
  "minJWTSecretLength = 32"

definition isWeakJWTSecret :: "env \<Rightarrow> string \<Rightarrow> bool" where
  "isWeakJWTSecret env secret =
     (let s = strings_TrimSpace secret in
      if length s < minJWTSecretLength then True
      else strings_ToLower env s \<in> {''change-me'', ''super-secret-change-me'',
             ''dev-only-change-me'', ''jwt-secret'', ''secret'', ''test-secret''})"

text \<open>\<open>None\<close> is the nil error.\<close>

definition Validate :: "env \<Rightarrow> Config \<Rightarrow> string option" where
  "Validate env c =
     (if strings_TrimSpace (jc_Issuer (cf_JWT c)) = '''' then Some ''JWT_ISSUER must be set''
      else if \<not> IsDevelopment (cf_App c) \<and> isWeakJWTSecret env (jc_Secret (cf_JWT c))
      then Some (''JWT_SECRET must be set to a non-default value with at least '' @
                 show_nat minJWTSecretLength @ '' characters outside development'')
      else if oc_MetricsEnabled (cf_Observability c) \<and> \<not> IsDevelopment (cf_App c) \<and>
              strings_TrimSpace (oc_MetricsToken (cf_Observability c)) = ''''
      then Some ''METRICS_TOKEN must be set when metrics are enabled outside development''
      else None)"

section \<open>Addresses\<close>

definition DSN :: "DBConfig \<Rightarrow> string" where
  "DSN c = ''host='' @ dc_Host c @ '' port='' @ dc_Port c @ '' user='' @ dc_User c @
     '' password='' @ dc_Password c @ '' dbname='' @ dc_Name c @ '' sslmode='' @ dc_SSLMode c @
     '' TimeZone='' @ dc_TimeZone c"

definition Address :: "RedisConfig \<Rightarrow> string" where
  "Address c = rc_Host c @ '':'' @ rc_Port c"

section \<open>What main makes of it\<close>

text \<open>
  The parts of the program that \<open>main\<close> of \<^verbatim>\<open>cmd/api/main.go\<close> constructs from the
  configuration: the webhook service is always there, its configuration may disable it.
\<close>

definition seed_of :: "Config \<Rightarrow> seed_settings" where
  "seed_of c = \<lparr>sc_IsDevelopment = IsDevelopment (cf_App c),
     sc_EnableAdminSeed = sdc_EnableAdminSeed (cf_Seed c), sc_AdminName = sdc_AdminName (cf_Seed c),
     sc_AdminEmail = sdc_AdminEmail (cf_Seed c), sc_AdminPassword = sdc_AdminPassword (cf_Seed c)\<rparr>"

definition jwt_of :: "Config \<Rightarrow> JWTManager" where
  "jwt_of c = NewJWTManager (jc_Secret (cf_JWT c)) (jc_Issuer (cf_JWT c)) (jc_ExpiryMinutes (cf_JWT c))"

definition rate_window_of :: "Config \<Rightarrow> int" where
  "rate_window_of c = wrap64 (rlc_WindowSeconds (cf_RateLimit c) * 1000000000)"

section \<open>What Validate accepts\<close>

lemma listed_secrets_short:
  "s \<in> {''change-me'', ''super-secret-change-me'', ''dev-only-change-me'', ''jwt-secret'', ''secret'',
      ''test-secret''} \<Longrightarrow> length s < minJWTSecretLength"
  by (auto simp: minJWTSecretLength_def)

text \<open>For ASCII secrets the length decides: every listed word is shorter than the minimum.\<close>

lemma isWeakJWTSecret_length:
  assumes "list_all is_ascii (strings_TrimSpace secret)"
  shows "isWeakJWTSecret env secret \<longleftrightarrow> length (strings_TrimSpace secret) < minJWTSecretLength"
  using assms listed_secrets_short [of "strings_ToLower env (strings_TrimSpace secret)"]
  by (auto simp: isWeakJWTSecret_def Let_def strings_ToLower_def)

lemma Validate_conditions:
  assumes "list_all is_ascii (strings_TrimSpace (jc_Secret (cf_JWT c)))"
  shows "Validate env c = None \<longleftrightarrow> strings_TrimSpace (jc_Issuer (cf_JWT c)) \<noteq> '''' \<and>
    (IsDevelopment (cf_App c) \<or>
     32 \<le> length (strings_TrimSpace (jc_Secret (cf_JWT c))) \<and>
     (oc_MetricsEnabled (cf_Observability c) \<longrightarrow> strings_TrimSpace (oc_MetricsToken (cf_Observability c)) \<noteq> ''''))"
  by (auto simp: Validate_def isWeakJWTSecret_length [OF assms] minJWTSecretLength_def)

text \<open>Without a secret of its own no production server starts: the default is refused.\<close>

lemma default_secret_weak: "isWeakJWTSecret env ''change-me''"
proof -
  have "strings_TrimSpace ''change-me'' = ''change-me''"
    by (rule TrimSpace_printable) (simp_all add: printable_def)
  then show ?thesis by (simp add: isWeakJWTSecret_def minJWTSecretLength_def)
qed

lemma unconfigured_production_refused:
  assumes "lookup ''JWT_SECRET'' = None" and "\<not> isDevelopmentEnv (getEnv lookup ''APP_ENV'' ''development'')"
  shows "Validate env (Load lookup) \<noteq> None"
  using assms default_secret_weak
  by (auto simp: Validate_def Load_def Let_def IsDevelopment_def getEnv_def)

end
