(* ===== verification/Handlers.thy ===== *)
theory Handlers
  imports Http Config System
begin

text \<open>
  The handlers of \<^verbatim>\<open>internal/delivery/http/handler\<close>, with the validation of
  \<^verbatim>\<open>internal/pkg/validator/validator.go\<close> under the tags of \<^verbatim>\<open>internal/delivery/http/dto\<close> and the
  request hash of \<^verbatim>\<open>internal/pkg/idempotency/hash.go\<close>. A handler calls one use case and writes
  its result or its error; none of them calls \<open>c.Next()\<close>.
\<close>

section \<open>What the handlers have at hand\<close>

record 's api =
  ap_env :: env
  ap_program :: program
  ap_lib :: http_lib
  ap_redis :: "'s redis"
  ap_ping :: "'s \<Rightarrow> goerror option"

definition ap_notifier :: "'s api \<Rightarrow> notifier" where
  "ap_notifier api = configured_notifier (ap_env api) (pg_hooks (ap_program api))"

section \<open>Validation\<close>

text \<open>
  The validator checks the fields in their order and the tags of a field in theirs; a field is
  reported with the first tag it fails. The tags: \<open>required\<close> refuses the zero value, \<open>min\<close> of a
  string counts runes.
\<close>

datatype validation = Valid | ValidationErrors "(string \<times> string) list" | InvalidValidation string

definition failed_tag :: "(string \<times> bool) list \<Rightarrow> string option" where
  "failed_tag tags = map_option fst (find (\<lambda>(tag, holds). \<not> holds) tags)"

definition validate_Struct :: "(string \<times> (string \<times> bool) list) list \<Rightarrow> validation" where
  "validate_Struct rules =
     (let errors = List.map_filter (\<lambda>(field, tags). map_option (Pair field) (failed_tag tags)) rules in
      if errors = [] then Valid else ValidationErrors errors)"

fun validator_Struct :: "validation \<Rightarrow> (string \<times> string) list" where
  "validator_Struct Valid = []"
| "validator_Struct (InvalidValidation message) = [(''unknown'', message)]"
| "validator_Struct (ValidationErrors errors) =
     map (\<lambda>(field, tag). (field, ''failed on '' @ tag)) errors"

definition RegisterDTO_rules :: "http_lib \<Rightarrow> RegisterDTO \<Rightarrow> (string \<times> (string \<times> bool) list) list" where
  "RegisterDTO_rules lib req =
     [(''Name'', [(''required'', rgd_Name req \<noteq> '''')]),
      (''Email'', [(''required'', rgd_Email req \<noteq> ''''), (''email'', is_email lib (rgd_Email req))]),
      (''Password'', [(''required'', rgd_Password req \<noteq> ''''),
                      (''min'', 8 \<le> rune_count lib (rgd_Password req))])]"

definition LoginDTO_rules :: "http_lib \<Rightarrow> LoginDTO \<Rightarrow> (string \<times> (string \<times> bool) list) list" where
  "LoginDTO_rules lib req =
     [(''Email'', [(''required'', lgd_Email req \<noteq> ''''), (''email'', is_email lib (lgd_Email req))]),
      (''Password'', [(''required'', lgd_Password req \<noteq> '''')])]"

definition TopUpDTO_rules :: "http_lib \<Rightarrow> TopUpDTO \<Rightarrow> (string \<times> (string \<times> bool) list) list" where
  "TopUpDTO_rules lib req =
     [(''Amount'', [(''required'', tud_Amount req \<noteq> 0), (''gt'', 0 <s tud_Amount req)])]"

definition TransferDTO_rules :: "http_lib \<Rightarrow> TransferDTO \<Rightarrow> (string \<times> (string \<times> bool) list) list" where
  "TransferDTO_rules lib req =
     [(''RecipientWalletID'', [(''required'', tfd_RecipientWalletID req \<noteq> ''''),
                               (''uuid4'', is_uuid4 lib (tfd_RecipientWalletID req))]),
      (''Amount'', [(''required'', tfd_Amount req \<noteq> 0), (''gt'', 0 <s tfd_Amount req)])]"

section \<open>HashPayload\<close>

text \<open>\<open>json.Marshal\<close> of these structs of strings and integers does not fail.\<close>

definition HashPayload :: "'s api \<Rightarrow> json \<Rightarrow> string" where
  "HashPayload api payload = sha256_hex (ap_lib api) (json_Marshal (ap_env api) payload)"

definition TopUpDTO_json :: "TopUpDTO \<Rightarrow> json" where
  "TopUpDTO_json req = JObject
     [(''amount'', json_int64 (tud_Amount req)), (''description'', json_nullable (tud_Description req))]"

definition TransferDTO_json :: "TransferDTO \<Rightarrow> json" where
  "TransferDTO_json req = JObject
     [(''recipient_wallet_id'', JString (tfd_RecipientWalletID req)),
      (''amount'', json_int64 (tfd_Amount req)), (''description'', json_nullable (tfd_Description req))]"

section \<open>JSON of the remaining responses\<close>

definition user_json :: "UserResponse \<Rightarrow> json" where
  "user_json u = JObject
     [(''id'', JString (ur_ID u)), (''name'', JString (ur_Name u)), (''email'', JString (ur_Email u)),
      (''role'', JString (ur_Role u)), (''created_at'', JTime (ur_CreatedAt u))]"

definition balance_json :: "BalanceResponse \<Rightarrow> json" where
  "balance_json b = JObject
     [(''wallet_id'', JString (br_WalletID b)), (''balance'', json_int64 (br_Balance b)),
      (''currency'', JString (br_Currency b)), (''updated_at'', JTime (br_UpdatedAt b))]"

definition register_json :: "RegisterResponse \<Rightarrow> json" where
  "register_json r = JObject
     [(''user'', user_json (rgr_User r)), (''wallet'', wallet_json (rgr_Wallet r))]"

definition login_json :: "LoginResponse \<Rightarrow> json" where
  "login_json r = JObject
     [(''access_token'', JString (lgr_AccessToken r)), (''expires_at'', JTime (lgr_ExpiresAt r)),
      (''user'', user_json (lgr_User r))]"

definition ledger_json :: "LedgerResponse \<Rightarrow> json" where
  "ledger_json l = JObject
     [(''id'', JString (lr_ID l)), (''transaction_id'', JString (lr_TransactionID l)),
      (''wallet_id'', JString (lr_WalletID l)), (''entry_type'', JString (lr_EntryType l)),
      (''amount'', json_int64 (lr_Amount l)), (''balance_before'', json_int64 (lr_BalanceBefore l)),
      (''balance_after'', json_int64 (lr_BalanceAfter l)), (''created_at'', JTime (lr_CreatedAt l))]"

definition audit_log_json :: "AuditLogResponse \<Rightarrow> json" where
  "audit_log_json l = JObject
     [(''id'', JString (ar_ID l)), (''actor_user_id'', json_nullable (ar_ActorUserID l)),
      (''action'', JString (ar_Action l)), (''entity_type'', JString (ar_EntityType l)),
      (''entity_id'', json_nullable (ar_EntityID l)), (''metadata'', ar_Metadata l),
      (''created_at'', JTime (ar_CreatedAt l))]"

definition json_pointer :: "('a \<Rightarrow> json) \<Rightarrow> 'a option \<Rightarrow> json" where
  "json_pointer f v = (case v of None \<Rightarrow> JNull | Some x \<Rightarrow> f x)"

definition webhook_delivery_json :: "WebhookDeliveryResponse \<Rightarrow> json" where
  "webhook_delivery_json d = JObject
     [(''id'', JString (wdr_ID d)), (''event_type'', JString (wdr_EventType d)),
      (''transaction_id'', json_nullable (wdr_TransactionID d)),
      (''transaction_ref'', JString (wdr_TransactionRef d)),
      (''target_url'', JString (wdr_TargetURL d)), (''payload'', wdr_Payload d),
      (''status'', JString (wdr_Status d)), (''retry_count'', JInt (wdr_RetryCount d)),
      (''max_retry'', JInt (wdr_MaxRetry d)), (''last_error'', json_nullable (wdr_LastError d)),
      (''last_http_status'', json_pointer JInt (wdr_LastHTTPStatus d)),
      (''next_retry_at'', json_pointer JTime (wdr_NextRetryAt d)),
      (''delivered_at'', json_pointer JTime (wdr_DeliveredAt d)),
      (''created_at'', JTime (wdr_CreatedAt d)), (''updated_at'', JTime (wdr_UpdatedAt d))]"

text \<open>
  A slice that was never appended to is nil and rendered as null. The lists of the report start
  as nil; the lists of the other responses are made with \<open>make\<close>.
\<close>

definition json_nil_slice :: "('a \<Rightarrow> json) \<Rightarrow> 'a list \<Rightarrow> json" where
  "json_nil_slice f xs = (if xs = [] then JNull else JArray (map f xs))"

definition json_slice :: "('a \<Rightarrow> json) \<Rightarrow> 'a list \<Rightarrow> json" where
  "json_slice f xs = JArray (map f xs)"

definition wallet_issue_json :: "WalletIssue \<Rightarrow> json" where
  "wallet_issue_json i = JObject
     [(''wallet_id'', JString (wi_WalletID i)), (''user_id'', JString (wi_UserID i)),
      (''stored_balance'', json_int64 (wi_StoredBalance i)),
      (''derived_balance'', json_int64 (wi_DerivedBalance i)),
      (''ledger_entry_count'', JInt (wi_LedgerEntryCount i)), (''reason'', JString (wi_Reason i))]"

definition transaction_issue_json :: "TransactionIssue \<Rightarrow> json" where
  "transaction_issue_json i = JObject
     [(''transaction_id'', JString (ti_TransactionID i)),
      (''transaction_ref'', JString (ti_TransactionRef i)), (''type'', JString (ti_Type i)),
      (''amount'', json_int64 (ti_Amount i)),
      (''ledger_entry_ids'', json_slice JString (ti_LedgerEntryIDs i)),
      (''reason'', JString (ti_Reason i))]"

definition ledger_issue_json :: "LedgerIssue \<Rightarrow> json" where
  "ledger_issue_json i = JObject
     [(''ledger_entry_id'', JString (li_LedgerEntryID i)),
      (''transaction_id'', JString (li_TransactionID i)), (''wallet_id'', JString (li_WalletID i)),
      (''reason'', JString (li_Reason i))]"

definition summary_json :: "ReconciliationSummary \<Rightarrow> json" where
  "summary_json s = JObject
     [(''wallets_checked'', JInt (rs_WalletsChecked s)),
      (''transactions_checked'', JInt (rs_TransactionsChecked s)),
      (''ledger_entries_checked'', JInt (rs_LedgerEntriesChecked s)),
      (''wallet_balance_mismatch_count'', JInt (rs_WalletBalanceMismatchCount s)),
      (''transaction_issue_count'', JInt (rs_TransactionIssueCount s)),
      (''ledger_issue_count'', JInt (rs_LedgerIssueCount s)),
      (''issue_count'', JInt (rs_IssueCount s))]"

definition reconciliation_json :: "ReconciliationResponse \<Rightarrow> json" where
  "reconciliation_json r = JObject
     [(''checked_at'', JTime (rr_CheckedAt r)), (''healthy'', JBool (rr_Healthy r)),
      (''summary'', summary_json (rr_Summary r)),
      (''wallets'', json_nil_slice wallet_issue_json (rr_Wallets r)),
      (''transactions'', json_nil_slice transaction_issue_json (rr_Transactions r)),
      (''ledger_entries'', json_nil_slice ledger_issue_json (rr_LedgerEntries r))]"

section \<open>The idioms of the handlers\<close>

definition reply :: "(ctx \<Rightarrow> ctx) \<Rightarrow> 's step" where
  "reply f c s = (Returned, f c, s)"

text \<open>\<open>result, err := usecase(...)\<close>, then the error or the result is written.\<close>

definition answer :: "'a go \<Rightarrow> ('a \<Rightarrow> ctx \<Rightarrow> ctx) \<Rightarrow> 's step" where
  "answer usecase f c s =
     (case usecase (sv_world s) of
        (Inl err, w) \<Rightarrow> (Returned, response_Error err c, s\<lparr>sv_world := w\<rparr>)
      | (Inr x, w) \<Rightarrow> (Returned, f x c, s\<lparr>sv_world := w\<rparr>))"

text \<open>\<open>c.Locals(middleware.ContextUserID).(string)\<close> panics when no user is there.\<close>

definition with_user :: "(string \<Rightarrow> 's step) \<Rightarrow> 's step" where
  "with_user k c s =
     (case c_UserID c of
        None \<Rightarrow> (Panicked ''interface conversion: interface {} is nil, not string'', c, s)
      | Some userID \<Rightarrow> k userID c s)"

text \<open>Parsing and validating a body.\<close>

definition with_request ::
  "(http_req \<Rightarrow> 'r option) \<Rightarrow> ('r \<Rightarrow> (string \<times> (string \<times> bool) list) list) \<Rightarrow> ('r \<Rightarrow> 's step) \<Rightarrow> 's step" where
  "with_request BodyParser rules k c s =
     (case BodyParser (c_Request c) of
        None \<Rightarrow> reply (response_Error (Validation [(''body'', ''invalid request body'')])) c s
      | Some req \<Rightarrow>
          (let details = validator_Struct (validate_Struct (rules req)) in
           if details \<noteq> [] then reply (response_Error (Validation details)) c s else k req c s))"

definition parseInt :: "string \<Rightarrow> int \<Rightarrow> int" where
  "parseInt v fallback = (case strconv_Atoi v of None \<Rightarrow> fallback | Some parsed \<Rightarrow> parsed)"

definition query_params :: "ctx \<Rightarrow> Params" where
  "query_params c =
     Params_New (word_of_int (parseInt (hq_Query (c_Request c) ''page'') 1))
                (word_of_int (parseInt (hq_Query (c_Request c) ''limit'') 10))"

definition path_param :: "string \<Rightarrow> ctx \<Rightarrow> string" where
  "path_param name c = (case map_of (c_Params c) name of None \<Rightarrow> '''' | Some v \<Rightarrow> v)"

definition write_data :: "('a \<Rightarrow> json) \<Rightarrow> 'a \<Rightarrow> ctx \<Rightarrow> ctx" where
  "write_data f x = response_Success 200 (f x) None"

definition write_list :: "('a \<Rightarrow> json) \<Rightarrow> 'a list \<times> json \<Rightarrow> ctx \<Rightarrow> ctx" where
  "write_list f = (\<lambda>(xs, meta). response_Success 200 (json_slice f xs) (Some meta))"

definition write_operation :: "OperationResult \<Rightarrow> ctx \<Rightarrow> ctx" where
  "write_operation r = response_RawJSON (or_StatusCode r) (or_Body r)"

section \<open>AuthHandler\<close>

definition AuthHandler_Register :: "'s api \<Rightarrow> 's handler" where
  "AuthHandler_Register api next =
     with_request (BodyParser_Register (ap_lib api)) (RegisterDTO_rules (ap_lib api)) (\<lambda>req.
       answer (Register (ap_env api)
           \<lparr>rg_Name = rgd_Name req, rg_Email = rgd_Email req, rg_Password = rgd_Password req\<rparr>)
         (\<lambda>r. response_Success 201 (register_json r) None))"

definition AuthHandler_Login :: "'s api \<Rightarrow> 's handler" where
  "AuthHandler_Login api next =
     with_request (BodyParser_Login (ap_lib api)) (LoginDTO_rules (ap_lib api)) (\<lambda>req.
       answer (Login (ap_env api) (pg_jwt (ap_program api))
           \<lparr>lg_Email = lgd_Email req, lg_Password = lgd_Password req\<rparr>)
         (write_data login_json))"

section \<open>UserHandler and WalletHandler\<close>

definition UserHandler_Me :: "'s api \<Rightarrow> 's handler" where
  "UserHandler_Me api next = with_user (\<lambda>u. answer (GetMe (ap_env api) u) (write_data user_json))"

definition WalletHandler_Me :: "'s api \<Rightarrow> 's handler" where
  "WalletHandler_Me api next = with_user (\<lambda>u. answer (GetMyWallet (ap_env api) u) (write_data wallet_json))"

definition WalletHandler_Balance :: "'s api \<Rightarrow> 's handler" where
  "WalletHandler_Balance api next =
     with_user (\<lambda>u. answer (GetMyBalance (ap_env api) u) (write_data balance_json))"

definition WalletHandler_TopUp :: "'s api \<Rightarrow> 's handler" where
  "WalletHandler_TopUp api next c =
     with_request (BodyParser_TopUp (ap_lib api)) (TopUpDTO_rules (ap_lib api)) (\<lambda>req.
       with_user (\<lambda>u.
         answer (TopUp (ap_env api) (ap_notifier api)
             \<lparr>tu_UserID = u, tu_Amount = tud_Amount req, tu_Description = tud_Description req,
              tu_IdempotencyKey = request_header ''Idempotency-Key'' c,
              tu_RequestHash = HashPayload api (TopUpDTO_json req)\<rparr>)
           write_operation)) c"

section \<open>TransactionHandler and LedgerHandler\<close>

definition TransactionHandler_Transfer :: "'s api \<Rightarrow> 's handler" where
  "TransactionHandler_Transfer api next c =
     with_request (BodyParser_Transfer (ap_lib api)) (TransferDTO_rules (ap_lib api)) (\<lambda>req.
       with_user (\<lambda>u.
         answer (Transfer (ap_env api) (ap_notifier api)
             \<lparr>tf_UserID = u, tf_RecipientWalletID = tfd_RecipientWalletID req,
              tf_Amount = tfd_Amount req, tf_Description = tfd_Description req,
              tf_IdempotencyKey = request_header ''Idempotency-Key'' c,
              tf_RequestHash = HashPayload api (TransferDTO_json req)\<rparr>)
           write_operation)) c"

definition TransactionHandler_ListMine :: "'s api \<Rightarrow> 's handler" where
  "TransactionHandler_ListMine api next c =
     with_user (\<lambda>u. answer (ListMyTransactions (ap_env api) u (query_params c))
       (write_list transaction_json)) c"

definition TransactionHandler_GetOne :: "'s api \<Rightarrow> 's handler" where
  "TransactionHandler_GetOne api next c =
     with_user (\<lambda>u. answer (GetMyTransaction (ap_env api) u (path_param ''id'' c))
       (write_data transaction_json)) c"

definition LedgerHandler_ListMine :: "'s api \<Rightarrow> 's handler" where
  "LedgerHandler_ListMine api next c =
     with_user (\<lambda>u. answer (ListMyLedgers (ap_env api) u (query_params c)) (write_list ledger_json)) c"

definition LedgerHandler_ListByTransaction :: "'s api \<Rightarrow> 's handler" where
  "LedgerHandler_ListByTransaction api next c =
     with_user (\<lambda>u. answer (ListTransactionLedgers (ap_env api) u (path_param ''transactionId'' c))
       (write_data (json_slice ledger_json))) c"

section \<open>AdminHandler and HealthHandler\<close>

definition AdminHandler_AuditLogs :: "'s api \<Rightarrow> 's handler" where
  "AdminHandler_AuditLogs api next c =
     with_user (\<lambda>u. answer (ListAuditLogs (ap_env api) u (query_params c)) (write_list audit_log_json)) c"

definition AdminHandler_Transactions :: "'s api \<Rightarrow> 's handler" where
  "AdminHandler_Transactions api next c =
     with_user (\<lambda>u. answer (Admin_ListTransactions (ap_env api) u (query_params c))
       (write_list transaction_json)) c"

definition webhook_filter :: "ctx \<Rightarrow> WebhookDeliveryFilter" where
  "webhook_filter c = \<lparr>f_EventType = hq_Query (c_Request c) ''event_type'',
     f_Status = hq_Query (c_Request c) ''status'',
     f_TransactionRef = hq_Query (c_Request c) ''transaction_ref''\<rparr>"

definition AdminHandler_Webhooks :: "'s api \<Rightarrow> 's handler" where
  "AdminHandler_Webhooks api next c =
     with_user (\<lambda>u. answer (ListWebhooks (ap_env api) u (webhook_filter c) (query_params c))
       (write_list webhook_delivery_json)) c"

definition AdminHandler_Webhook :: "'s api \<Rightarrow> 's handler" where
  "AdminHandler_Webhook api next c =
     with_user (\<lambda>u. answer (GetWebhook (ap_env api) u (path_param ''id'' c))
       (write_data webhook_delivery_json)) c"

definition AdminHandler_Reconciliation :: "'s api \<Rightarrow> 's handler" where
  "AdminHandler_Reconciliation api next =
     with_user (\<lambda>u. answer (Reconciliation_Run (ap_env api) u) (write_data reconciliation_json))"

definition HealthHandler_Check :: "'s api \<Rightarrow> 's handler" where
  "HealthHandler_Check api next c s =
     answer (Health_Check (health_ping (ap_env api) (ap_ping api (sv_redis s))))
       (\<lambda>_. response_Success 200 (JObject [(''status'', JString ''ok'')]) None) c s"

end
