(* ===== verification/Router.thy ===== *)
theory Router
  imports Handlers
begin

text \<open>
  The routes of \<^verbatim>\<open>internal/delivery/http/router.go\<close>, the application of \<^verbatim>\<open>internal/app/app.go\<close>,
  and how \<open>main\<close> of \<^verbatim>\<open>cmd/api/main.go\<close> puts the server together from its configuration.
\<close>

section \<open>RegisterRoutes\<close>

record 's RouteMiddleware =
  rm_Login :: "'s handler option"
  rm_TopUp :: "'s handler option"
  rm_Transfer :: "'s handler option"

record 's Instrumentation =
  in_TraceContext :: "'s handler option"
  in_Metrics :: "'s handler option"
  in_MetricsAuth :: "'s handler option"
  in_MetricsEndpoint :: "'s handler option"

text \<open>A handler that is nil is left out.\<close>

definition optional :: "'s handler option \<Rightarrow> 's handler list" where
  "optional h = (case h of None \<Rightarrow> [] | Some f \<Rightarrow> [f])"

definition use_all :: "string \<Rightarrow> 's handler option \<Rightarrow> 's layer list" where
  "use_all prefix h = (case h of None \<Rightarrow> [] | Some f \<Rightarrow> [Use prefix [f]])"

definition common_layers :: "http_lib \<Rightarrow> 's handler \<Rightarrow> 's Instrumentation \<Rightarrow> 's layer list" where
  "common_layers lib requestLogger instr =
     [Use ''/'' [requestid_New lib]] @ use_all ''/'' (in_TraceContext instr) @
     [Use ''/'' [recover_New lib]] @ use_all ''/'' (in_Metrics instr) @ [Use ''/'' [requestLogger]]"

definition metrics_layers :: "'s Instrumentation \<Rightarrow> 's layer list" where
  "metrics_layers instr =
     (case in_MetricsEndpoint instr of
        None \<Rightarrow> []
      | Some endpoint \<Rightarrow> Get ''/metrics'' (optional (in_MetricsAuth instr) @ [endpoint]))"

text \<open>The text of the page and what \<open>SendFile\<close> makes of a file are left to \<open>http_lib\<close>.\<close>

definition swagger_handler :: "http_lib \<Rightarrow> 's handler" where
  "swagger_handler lib next =
     reply (\<lambda>c. set_header ''Content-Type'' ''text/html'' (c\<lparr>c_Body := PageBody (swagger_page lib)\<rparr>))"

definition SendFile :: "http_lib \<Rightarrow> string \<Rightarrow> 's handler" where
  "SendFile lib file next c s =
     (case send_file lib (c_Request c) file of
        FileSent status content \<Rightarrow> (Returned, c\<lparr>c_Status := status, c_Body := PageBody content\<rparr>, s)
      | FileMissing m \<Rightarrow> (Failed (FiberError 404 m), c, s)
      | FileFailed m \<Rightarrow> (Failed (GoError (OtherError m)), c, s))"

definition docs_layers :: "http_lib \<Rightarrow> bool \<Rightarrow> 's layer list" where
  "docs_layers lib docsEnabled =
     (if docsEnabled
      then Get ''/swagger'' [swagger_handler lib] @
           Get ''/swagger/openapi.yaml'' [SendFile lib ''./docs/openapi.yaml'']
      else [])"

definition v1 :: string where
  "v1 = ''/api/v1''"

definition auth_layers :: "'s api \<Rightarrow> 's RouteMiddleware \<Rightarrow> 's layer list" where
  "auth_layers api rm =
     Post (v1 @ ''/auth/register'') [AuthHandler_Register api] @
     Post (v1 @ ''/auth/login'') (optional (rm_Login rm) @ [AuthHandler_Login api])"

definition protected_layers :: "'s api \<Rightarrow> JWTManager \<Rightarrow> 's RouteMiddleware \<Rightarrow> 's layer list" where
  "protected_layers api jwtManager rm =
     [Use v1 [Auth_handler (ap_lib api) jwtManager]] @
     Get (v1 @ ''/users/me'') [UserHandler_Me api] @
     Get (v1 @ ''/wallets/me'') [WalletHandler_Me api] @
     Get (v1 @ ''/wallets/me/balance'') [WalletHandler_Balance api] @
     Post (v1 @ ''/wallets/me/top-up'') (optional (rm_TopUp rm) @ [WalletHandler_TopUp api]) @
     Post (v1 @ ''/transfers'') (optional (rm_Transfer rm) @ [TransactionHandler_Transfer api]) @
     Get (v1 @ ''/transactions/me'') [TransactionHandler_ListMine api] @
     Get (v1 @ ''/transactions/:id'') [TransactionHandler_GetOne api] @
     Get (v1 @ ''/ledgers/me'') [LedgerHandler_ListMine api] @
     Get (v1 @ ''/ledgers/transactions/:transactionId'') [LedgerHandler_ListByTransaction api]"

definition admin :: string where
  "admin = v1 @ ''/admin''"

definition admin_layers :: "'s api \<Rightarrow> 's layer list" where
  "admin_layers api =
     [Use admin [RequireRole_handler RoleAdmin]] @
     Get (admin @ ''/audit-logs'') [AdminHandler_AuditLogs api] @
     Get (admin @ ''/reconciliation'') [AdminHandler_Reconciliation api] @
     Get (admin @ ''/transactions'') [AdminHandler_Transactions api] @
     Get (admin @ ''/webhooks'') [AdminHandler_Webhooks api] @
     Get (admin @ ''/webhooks/:id'') [AdminHandler_Webhook api]"

definition not_found :: "'s handler" where
  "not_found next c s =
     (Failed (FiberError 404 (''route '' @ hq_Path (c_Request c) @ '' not found'')), c, s)"

text \<open>What is registered behind the middleware that every request goes through.\<close>

definition route_layers ::
  "'s api \<Rightarrow> JWTManager \<Rightarrow> 's RouteMiddleware \<Rightarrow> 's Instrumentation \<Rightarrow> bool \<Rightarrow> 's layer list" where
  "route_layers api jwtManager rm instr docsEnabled =
     Get ''/health'' [HealthHandler_Check api] @ metrics_layers instr @
     docs_layers (ap_lib api) docsEnabled @ auth_layers api rm @
     protected_layers api jwtManager rm @ admin_layers api @ [Use ''/'' [not_found]]"

definition RegisterRoutes ::
  "'s api \<Rightarrow> JWTManager \<Rightarrow> 's handler \<Rightarrow> 's RouteMiddleware \<Rightarrow> 's Instrumentation \<Rightarrow> bool \<Rightarrow> 's layer list" where
  "RegisterRoutes api jwtManager requestLogger rm instr docsEnabled =
     common_layers (ap_lib api) requestLogger instr @
     route_layers api jwtManager rm instr docsEnabled"

section \<open>The application\<close>

text \<open>
  A request starts with the framework's defaults. An error that reaches the framework goes to
  the \<open>ErrorHandler\<close>; a panic that reaches it ends the process, without an answer.
\<close>

definition new_ctx :: "http_req \<Rightarrow> ctx" where
  "new_ctx q = \<lparr>c_Request = q, c_Params = [], c_Route = '''', c_UserID = None, c_Role = None,
     c_TraceID = None, c_Status = 200, c_Headers = [], c_Body = NoBody\<rparr>"

definition serve :: "http_lib \<Rightarrow> 's layer list \<Rightarrow> http_req \<Rightarrow> 's server \<Rightarrow> ctx option \<times> 's server" where
  "serve lib layers q s =
     (case dispatch lib layers (new_ctx q) s of
        (Returned, c, s') \<Rightarrow> (Some c, s')
      | (Failed err, c, s') \<Rightarrow> (Some (ErrorHandler err c), s')
      | (Panicked m, c, s') \<Rightarrow> (None, s'))"

section \<open>What main puts together\<close>

definition program_of :: "Config \<Rightarrow> program" where
  "program_of cfg = \<lparr>pg_hooks = Some (cf_Webhook cfg), pg_jwt = jwt_of cfg, pg_seed = seed_of cfg\<rparr>"

definition instrumentation_of :: "http_lib \<Rightarrow> Config \<Rightarrow> 's Instrumentation" where
  "instrumentation_of lib cfg =
     (if oc_MetricsEnabled (cf_Observability cfg)
      then \<lparr>in_TraceContext = Some TraceContext, in_Metrics = Some (Metrics True),
            in_MetricsAuth = Some (ProtectMetrics_handler (oc_MetricsToken (cf_Observability cfg))),
            in_MetricsEndpoint = Some (FiberHandler lib True)\<rparr>
      else \<lparr>in_TraceContext = Some TraceContext, in_Metrics = None, in_MetricsAuth = None,
            in_MetricsEndpoint = None\<rparr>)"

definition route_middleware_of :: "http_lib \<Rightarrow> 's redis \<Rightarrow> Config \<Rightarrow> 's RouteMiddleware" where
  "route_middleware_of lib redis cfg =
     (let rate = (\<lambda>name limit.
            Some (RateLimit_handler lib name (Some (redis_Allow redis)) limit (rate_window_of cfg))) in
      \<lparr>rm_Login = rate ''login'' (rlc_Login (cf_RateLimit cfg)),
       rm_TopUp = rate ''topup'' (rlc_TopUp (cf_RateLimit cfg)),
       rm_Transfer = rate ''transfer'' (rlc_Transfer (cf_RateLimit cfg))\<rparr>)"

definition api_of :: "env \<Rightarrow> http_lib \<Rightarrow> 's redis \<Rightarrow> ('s \<Rightarrow> goerror option) \<Rightarrow> Config \<Rightarrow> 's api" where
  "api_of env lib redis ping cfg = \<lparr>ap_env = env, ap_program = program_of cfg, ap_lib = lib,
     ap_redis = redis, ap_ping = ping\<rparr>"

definition layers_of :: "'s api \<Rightarrow> Config \<Rightarrow> 's layer list" where
  "layers_of api cfg =
     RegisterRoutes api (pg_jwt (ap_program api)) RequestLogger
       (route_middleware_of (ap_lib api) (ap_redis api) cfg) (instrumentation_of (ap_lib api) cfg)
       (doc_Enabled (cf_Docs cfg))"

definition http_server ::
  "'s api \<Rightarrow> Config \<Rightarrow> http_req \<Rightarrow> 's server \<Rightarrow> ctx option \<times> 's server" where
  "http_server api cfg = serve (ap_lib api) (layers_of api cfg)"

end
