(* ===== verification/Requests.thy ===== *)
theory Requests
  imports Router
begin

text \<open>
  What a request can do. \<open>meets I P k\<close> says that from every context with \<open>I\<close> the step \<open>k\<close> ends
  with an outcome, a status and worlds related by \<open>P\<close>; the rules follow the stack of handlers.
  With them: the world a request leaves is the one it found, or what one command made of it, a
  command the request's token permits; who has no token gets 401 from everything that is
  protected, who is no administrator 403 from everything under \<open>/admin\<close>. The locale \<open>routes\<close> says
  what of the endpoints and the middleware is enough.
\<close>

section \<open>Steps through the stack\<close>

type_synonym ending = "world \<Rightarrow> outcome \<Rightarrow> ctx \<Rightarrow> world \<Rightarrow> bool"

definition meets :: "(ctx \<Rightarrow> bool) \<Rightarrow> ending \<Rightarrow> 's step \<Rightarrow> bool" where
  "meets I P k \<longleftrightarrow> (\<forall>c s. I c \<longrightarrow> (case k c s of (r, c', s') \<Rightarrow> P (sv_world s) r c' (sv_world s')))"

lemma meetsI: "(\<And>c s r c' s'. I c \<Longrightarrow> k c s = (r, c', s') \<Longrightarrow> P (sv_world s) r c' (sv_world s')) \<Longrightarrow> meets I P k"
  by (auto simp: meets_def split: prod.split)

lemma meetsD: "meets I P k \<Longrightarrow> I c \<Longrightarrow> k c s = (r, c', s') \<Longrightarrow> P (sv_world s) r c' (sv_world s')"
  by (auto simp: meets_def split: prod.splits)

lemma meets_weaken: "meets I P k \<Longrightarrow> (\<And>c. J c \<Longrightarrow> I c) \<Longrightarrow> meets J P k"
  by (auto simp: meets_def)

text \<open>
  What the invariants of a context are about: the request, the user, the role, the body written
  so far. The middleware in front of the routes changes none of them.
\<close>

definition same_caller :: "ctx \<Rightarrow> ctx \<Rightarrow> bool" where
  "same_caller c c' \<longleftrightarrow> c_Request c' = c_Request c \<and> c_UserID c' = c_UserID c \<and> c_Role c' = c_Role c \<and>
     c_Body c' = c_Body c"

definition caller_inv :: "http_req \<Rightarrow> (ctx \<Rightarrow> bool) \<Rightarrow> bool" where
  "caller_inv q I \<longleftrightarrow> (\<forall>c. I c \<longrightarrow> c_Request c = q) \<and> (\<forall>c c'. same_caller c c' \<longrightarrow> I c = I c')"

lemma caller_inv_request: "caller_inv q I \<Longrightarrow> I c \<Longrightarrow> c_Request c = q"
  by (simp add: caller_inv_def)

lemma caller_invD: "caller_inv q I \<Longrightarrow> I c \<Longrightarrow> same_caller c c' \<Longrightarrow> I c'"
  by (auto simp: caller_inv_def)

lemma same_caller_updates [simp]:
  "same_caller c (c\<lparr>c_Route := p\<rparr>)" "same_caller c (c\<lparr>c_Route := p, c_Params := ps\<rparr>)"
  "same_caller c (c\<lparr>c_TraceID := t\<rparr>)" "same_caller c (set_header n v c)" "same_caller c c"
  "same_caller c (rate_limit_headers lib h c)"
  by (simp_all add: same_caller_def set_header_def rate_limit_headers_def)

text \<open>A handler passes \<open>P\<close> on when it meets \<open>P\<close> given that the rest does.\<close>

definition passes :: "(ctx \<Rightarrow> bool) \<Rightarrow> (ctx \<Rightarrow> bool) \<Rightarrow> ending \<Rightarrow> 's handler \<Rightarrow> bool" where
  "passes I J P h \<longleftrightarrow> (\<forall>next. meets J P next \<longrightarrow> meets I P (h next))"

lemma passes_requestid: "caller_inv q I \<Longrightarrow> passes I I P (requestid_New lib)"
  unfolding passes_def
  by (auto intro!: meetsI elim!: meetsD caller_invD simp: requestid_New_def Let_def)

lemma passes_TraceContext: "caller_inv q I \<Longrightarrow> passes I I P TraceContext"
  unfolding passes_def
  by (auto intro!: meetsI elim!: meetsD caller_invD simp: TraceContext_def Let_def)

lemma passes_recover:
  assumes "\<And>w m m' c w'. P w (Panicked m) c w' \<Longrightarrow> P w (Failed (GoError (OtherError m'))) c w'"
  shows "passes I I P (recover_New lib)"
  unfolding passes_def
  by (auto intro!: meetsI assms elim: meetsD simp: recover_New_def split: prod.splits outcome.splits)

lemma passes_Metrics: "passes I I P (Metrics b)"
  unfolding passes_def
  by (auto intro!: meetsI elim: meetsD dest: meetsD simp: Metrics_def ObserveHTTPRequest_def
      split: if_splits prod.splits outcome.splits)

lemma passes_RequestLogger: "passes I I P RequestLogger"
  unfolding passes_def
  by (auto intro!: meetsI elim: meetsD dest: meetsD simp: RequestLogger_def split: prod.splits outcome.splits)

abbreviation too_many_requests :: "string \<Rightarrow> ctx \<Rightarrow> ctx" where
  "too_many_requests name \<equiv> send_json 429 (apiresponse_Error ''rate limit exceeded'' ''RATE_LIMIT_EXCEEDED''
     (Some [(name, ''too many requests'')]))"

lemma passes_RateLimit:
  assumes "caller_inv q I" and "\<And>w c n. I c \<Longrightarrow> P w Returned (too_many_requests n c) w"
  shows "passes I I P (RateLimit_handler lib name allow limit window)"
  unfolding passes_def
proof (intro allI impI meetsI)
  fix "next" :: "'a step" and c s r c' s'
  assume rest: "meets I P next" and I: "I c"
    and run: "RateLimit_handler lib name allow limit window next c s = (r, c', s')"
  have "I (rate_limit_headers lib h c)" for h using caller_invD [OF assms(1) I] by simp
  with run assms(2) I meetsD [OF rest] show "P (sv_world s) r c' (sv_world s')"
    by (fastforce simp: RateLimit_handler_def IncrementRateLimitExceeded_def
        split: prod.splits verdict.splits option.splits)
qed

lemma meets_chain_Nil: "meets I P rest \<Longrightarrow> meets I P (chain [] rest)"
  by (simp add: chain_def)

lemma meets_chain_Cons: "passes I J P h \<Longrightarrow> meets J P (chain hs rest) \<Longrightarrow> meets I P (chain (h # hs) rest)"
  by (simp add: chain_def passes_def)

lemma passes_weaken: "passes I K P h \<Longrightarrow> (\<And>c. K c \<Longrightarrow> J c) \<Longrightarrow> passes I J P h"
  unfolding passes_def by (blast intro: meets_weaken)

text \<open>An endpoint ignores what comes after it.\<close>

lemma meets_endpoint: "(\<And>next. meets I P (h next)) \<Longrightarrow> meets I P (chain [h] rest)"
  by (simp add: chain_def)

lemma meets_Use:
  assumes "caller_inv q I"
    and "path_prefix lib prefix (hq_Path q) \<Longrightarrow> meets I P (chain hs (dispatch lib ls))"
    and "\<not> path_prefix lib prefix (hq_Path q) \<Longrightarrow> meets I P (dispatch lib ls)"
  shows "meets I P (dispatch lib (Use prefix hs # ls))"
proof (rule meetsI)
  fix c s r c' s' assume I: "I c" and run: "dispatch lib (Use prefix hs # ls) c s = (r, c', s')"
  have "I (c\<lparr>c_Route := prefix\<rparr>)" using caller_invD [OF assms(1) I] by simp
  with run I caller_inv_request [OF assms(1) I] meetsD [OF assms(2)] meetsD [OF assms(3)]
  show "P (sv_world s) r c' (sv_world s')"
    by (cases "path_prefix lib prefix (hq_Path q)") simp_all
qed

lemma meets_Route:
  assumes "caller_inv q I"
    and "hq_Method q = method \<Longrightarrow> path_match lib pattern (hq_Path q) \<noteq> None \<Longrightarrow>
      meets I P (chain hs (dispatch lib ls))"
    and "meets I P (dispatch lib ls)"
  shows "meets I P (dispatch lib (Route method pattern hs # ls))"
proof (rule meetsI)
  fix c s r c' s' assume I: "I c" and run: "dispatch lib (Route method pattern hs # ls) c s = (r, c', s')"
  note q = caller_inv_request [OF assms(1) I]
  show "P (sv_world s) r c' (sv_world s')"
  proof (cases "hq_Method q = method \<and> path_match lib pattern (hq_Path q) \<noteq> None")
    case True
    then obtain ps where ps: "path_match lib pattern (hq_Path q) = Some ps" by auto
    have "I (c\<lparr>c_Route := pattern, c_Params := ps\<rparr>)" using caller_invD [OF assms(1) I] by simp
    moreover have "chain hs (dispatch lib ls) (c\<lparr>c_Route := pattern, c_Params := ps\<rparr>) s = (r, c', s')"
      using run True ps q by simp
    ultimately show ?thesis using True by (intro meetsD [OF assms(2)]) auto
  next
    case False
    with run q have "dispatch lib ls c s = (r, c', s')" by (auto split: if_splits option.splits)
    with I show ?thesis by (rule meetsD [OF assms(3)])
  qed
qed

text \<open>The rest of the stack is only reached by requests that do not match.\<close>

lemma meets_Get:
  assumes "caller_inv q I"
    and "\<And>rest. path_match lib pattern (hq_Path q) \<noteq> None \<Longrightarrow> meets I P rest \<Longrightarrow> meets I P (chain hs rest)"
    and "meets I P (dispatch lib ls)"
  shows "meets I P (dispatch lib (Get pattern hs @ ls))"
proof -
  have get: "meets I P (dispatch lib (Route ''GET'' pattern hs # ls))"
    by (rule meets_Route [OF assms(1) _ assms(3)]) (rule assms(2) [OF _ assms(3)])
  show ?thesis
    unfolding Get_def append_Cons append_Nil
    by (rule meets_Route [OF assms(1) _ get]) (rule assms(2) [OF _ get])
qed

lemma meets_Post:
  assumes "caller_inv q I"
    and "\<And>rest. hq_Method q = ''POST'' \<Longrightarrow> path_match lib pattern (hq_Path q) \<noteq> None \<Longrightarrow> meets I P rest \<Longrightarrow>
      meets I P (chain hs rest)"
    and "meets I P (dispatch lib ls)"
  shows "meets I P (dispatch lib (Post pattern hs @ ls))"
  unfolding Post_def append_Cons append_Nil
  using assms(2,3) by (intro meets_Route [OF assms(1)])

section \<open>Through the layers\<close>

lemma meets_Use_all:
  assumes "caller_inv q I" and "\<And>f. h = Some f \<Longrightarrow> passes I I P f"
    and "meets I P (dispatch lib ls)"
  shows "meets I P (dispatch lib (use_all prefix h @ ls))"
  using assms
  by (cases h) (auto simp: use_all_def intro!: meets_Use [of q] meets_chain_Cons meets_chain_Nil)

lemma meets_Use_one:
  assumes "caller_inv q I" and "passes I I P h" and "meets I P (dispatch lib ls)"
  shows "meets I P (dispatch lib ([Use prefix [h]] @ ls))"
  using meets_Use_all [of q I "Some h" P lib ls prefix] assms by (simp add: use_all_def)

lemma common_layers_meet:
  assumes "caller_inv q I"
    and "\<And>w m m' c w'. P w (Panicked m) c w' \<Longrightarrow> P w (Failed (GoError (OtherError m'))) c w'"
    and "meets I P (dispatch lib ls)"
  shows "meets I P (dispatch lib (common_layers lib RequestLogger (instrumentation_of lib cfg) @ ls))"
  unfolding common_layers_def append_assoc
  using assms(2,3)
  by (intro meets_Use_one [OF assms(1)] meets_Use_all [OF assms(1)] passes_requestid [OF assms(1)]
      passes_recover passes_RequestLogger)
    (auto simp: instrumentation_of_def intro: passes_TraceContext [OF assms(1)] passes_Metrics split: if_splits)

text \<open>The endpoints: a step that answers, under the locals it needs.\<close>

lemma meets_reply: "(\<And>w c. I c \<Longrightarrow> P w Returned (f c) w) \<Longrightarrow> meets I P (reply f)"
  by (auto simp: meets_def reply_def)

lemma meets_answer:
  assumes "\<And>w c err. I c \<Longrightarrow> fst (usecase w) = Inl err \<Longrightarrow> P w Returned (response_Error err c) (snd (usecase w))"
    and "\<And>w c x. I c \<Longrightarrow> fst (usecase w) = Inr x \<Longrightarrow> P w Returned (f x c) (snd (usecase w))"
  shows "meets I P (answer usecase f)"
proof (rule meetsI)
  fix c s r c' s' assume "I c" and "answer usecase f c s = (r, c', s')"
  with assms [of c "sv_world s"] show "P (sv_world s) r c' (sv_world s')"
    by (cases "usecase (sv_world s)") (auto simp: answer_def split: sum.splits)
qed

lemma meets_with_user:
  assumes "\<And>w m c. I c \<Longrightarrow> c_UserID c = None \<Longrightarrow> P w (Panicked m) c w"
    and "\<And>u. meets (\<lambda>c. I c \<and> c_UserID c = Some u) P (k u)"
  shows "meets I P (with_user k)"
  using assms by (fastforce simp: meets_def with_user_def split: option.splits prod.splits)

lemma meets_with_request:
  assumes "\<And>w c d. I c \<Longrightarrow> P w Returned (response_Error (Validation d) c) w" and "\<And>req. meets I P (k req)"
  shows "meets I P (with_request parse rules k)"
  using assms by (auto simp: meets_def with_request_def reply_def Let_def split: option.split)

lemma meets_read: "(\<And>c. I c \<Longrightarrow> meets (\<lambda>c'. c' = c) P (k c)) \<Longrightarrow> meets I P (\<lambda>c. k c c)"
  by (auto simp: meets_def)

text \<open>A route without and with rate limiting.\<close>

lemma Get_endpoint:
  assumes "caller_inv q I" and "meets I P (dispatch lib ls)"
    and "path_match lib pattern (hq_Path q) \<noteq> None \<Longrightarrow> (\<And>next. meets I P (e next))"
  shows "meets I P (dispatch lib (Get pattern [e] @ ls))"
  using assms by (intro meets_Get [OF assms(1)] meets_endpoint)

lemma Post_endpoint:
  assumes "caller_inv q I" and "meets I P (dispatch lib ls)"
    and "path_match lib pattern (hq_Path q) \<noteq> None \<Longrightarrow> (\<And>next. meets I P (e next))"
  shows "meets I P (dispatch lib (Post pattern [e] @ ls))"
  using assms by (intro meets_Post [OF assms(1)] meets_endpoint)

lemma Post_limited:
  assumes "caller_inv q I" and "meets I P (dispatch lib ls)"
    and "path_match lib pattern (hq_Path q) \<noteq> None \<Longrightarrow> (\<And>next. meets I P (e next))"
    and "path_match lib pattern (hq_Path q) \<noteq> None \<Longrightarrow>
      (\<And>w c n. I c \<Longrightarrow> P w Returned (too_many_requests n c) w)"
  shows "meets I P (dispatch lib
    (Post pattern (optional (Some (RateLimit_handler lib' name allow limit window)) @ [e]) @ ls))"
  unfolding optional_def option.case append_Cons append_Nil
  using assms(2-4)
  by (intro meets_Post [OF assms(1)] meets_chain_Cons [OF passes_RateLimit [OF assms(1)]] meets_endpoint)

section \<open>All routes\<close>

text \<open>
  What the routes need of their endpoints and of the middleware in front of them so that every
  request meets \<open>P\<close>. \<open>I\<close> holds of the contexts in front of \<open>Auth\<close>, \<open>U\<close> of those behind it, in front of
  the endpoints of a user, \<open>K\<close> of those in front of the endpoints of an administrator.
\<close>

locale routes =
  fixes api :: "'s api" and q :: http_req and I U K :: "ctx \<Rightarrow> bool" and P :: ending
  assumes inv: "caller_inv q I" "caller_inv q U" "caller_inv q K"
    and recovered: "P w (Panicked m) c w' \<Longrightarrow> P w (Failed (GoError (OtherError m'))) c w'"
    and limited: "I c \<Longrightarrow> P w Returned (too_many_requests n c) w" "U c \<Longrightarrow> P w Returned (too_many_requests n c) w"
    and no_route: "P w (Failed (FiberError 404 m)) c w"
    and pages: "meets I P (FiberHandler lib b next :: 's step)" "meets I P (swagger_handler lib next :: 's step)"
      "meets I P (SendFile lib name next :: 's step)"
    and protect: "passes I I P (ProtectMetrics_handler token :: 's handler)"
    and public: "meets I P (HealthHandler_Check api next)" "meets I P (AuthHandler_Register api next)"
      "meets I P (AuthHandler_Login api next)"
    and auth: "passes I U P (Auth_handler (ap_lib api) (pg_jwt (ap_program api)) :: 's handler)"
    and user: "meets U P (UserHandler_Me api next)" "meets U P (WalletHandler_Me api next)"
      "meets U P (WalletHandler_Balance api next)" "meets U P (WalletHandler_TopUp api next)"
      "meets U P (TransactionHandler_Transfer api next)" "meets U P (TransactionHandler_ListMine api next)"
      "meets U P (TransactionHandler_GetOne api next)" "meets U P (LedgerHandler_ListMine api next)"
      "meets U P (LedgerHandler_ListByTransaction api next)"
    and role: "passes U K P (RequireRole_handler RoleAdmin :: 's handler)"
      "passes I I P (RequireRole_handler RoleAdmin :: 's handler)"
    and admins: "meets K P (AdminHandler_AuditLogs api next)" "meets K P (AdminHandler_Reconciliation api next)"
      "meets K P (AdminHandler_Transactions api next)" "meets K P (AdminHandler_Webhooks api next)"
      "meets K P (AdminHandler_Webhook api next)"
begin

lemma not_found_meets: "caller_inv q J \<Longrightarrow> meets J P (dispatch lib [Use p [not_found]])"
  by (rule meets_Use) (auto simp: chain_def meets_def not_found_def no_route)

abbreviation unknown_route :: "'s layer list" where
  "unknown_route \<equiv> [Use ''/'' [not_found]]"

lemma admin_endpoints_meet: "meets K P (dispatch lib (tl (admin_layers api) @ unknown_route))"
  unfolding admin_layers_def append_assoc append_Cons append_Nil list.sel
  by (intro Get_endpoint [OF inv(3)] admins not_found_meets [OF inv(3)])

lemma admin_unmatched:
  assumes "caller_inv q J" and "\<And>p. path_match lib (admin @ p) (hq_Path q) = None"
  shows "meets J P (dispatch lib (tl (admin_layers api) @ unknown_route))"
  unfolding admin_layers_def append_assoc append_Cons append_Nil list.sel
  using assms(2) by (intro Get_endpoint [OF assms(1)] not_found_meets [OF assms(1)]) simp_all

lemma admin_layers_split: "admin_layers api = Use admin [RequireRole_handler RoleAdmin] # tl (admin_layers api)"
  by (simp add: admin_layers_def)

text \<open>An endpoint of an administrator is only reached through \<open>RequireRole\<close>, or with \<open>K\<close> anyway.\<close>

lemma admin_layers_meet:
  assumes "\<And>p. path_match lib (admin @ p) (hq_Path q) \<noteq> None \<Longrightarrow>
     path_prefix lib admin (hq_Path q) \<or> (\<forall>c. U c \<longrightarrow> K c)"
  shows "meets U P (dispatch lib (admin_layers api @ unknown_route))"
proof -
  have "meets U P (dispatch lib (tl (admin_layers api) @ unknown_route))"
    if out: "\<not> path_prefix lib admin (hq_Path q)"
  proof (cases "\<forall>c. U c \<longrightarrow> K c")
    case True
    with admin_endpoints_meet show ?thesis by (blast intro: meets_weaken)
  next
    case False
    with assms out show ?thesis by (intro admin_unmatched [OF inv(2)]) blast
  qed
  then show ?thesis
    by (subst admin_layers_split, unfold append_Cons, intro meets_Use [OF inv(2)])
      (intro meets_chain_Cons [OF role(1) meets_chain_Nil [OF admin_endpoints_meet]])
qed

text \<open>An endpoint of a user is only reached through \<open>Auth\<close>, or with \<open>U\<close> anyway.\<close>

lemma user_endpoints_meet:
  assumes "caller_inv q J" and "\<And>p. path_match lib (v1 @ p) (hq_Path q) \<noteq> None \<Longrightarrow> (\<forall>c. J c \<longrightarrow> U c)"
    and "meets J P (dispatch lib ls)"
  shows "meets J P (dispatch lib
      (tl (protected_layers api jwt (route_middleware_of lib' redis cfg)) @ ls))"
proof -
  have behind: "meets J P h" if "path_match lib (v1 @ p) (hq_Path q) \<noteq> None" "meets U P h" for h :: "'s step" and p
    using assms(2) [OF that(1)] that(2) by (blast intro: meets_weaken)
  have refusal: "P w Returned (too_many_requests n c) w"
    if "path_match lib (v1 @ p) (hq_Path q) \<noteq> None" "J c" for p n c w
    using assms(2) [OF that(1)] that(2) limited(2) by blast
  show ?thesis
    unfolding protected_layers_def append_assoc route_middleware_of_def Let_def RouteMiddleware.simps
      append_Cons append_Nil list.sel
    by (intro Get_endpoint [OF assms(1)] Post_limited [OF assms(1)] assms(3))
      (erule behind, rule user | erule refusal, assumption)+
qed

lemma protected_layers_meet:
  assumes "\<And>p. path_match lib (v1 @ p) (hq_Path q) \<noteq> None \<Longrightarrow>
     path_prefix lib v1 (hq_Path q) \<or> (\<forall>c. I c \<longrightarrow> U c)"
    and "\<And>p. path_match lib (admin @ p) (hq_Path q) \<noteq> None \<Longrightarrow>
     path_prefix lib admin (hq_Path q) \<or> (\<forall>c. U c \<longrightarrow> K c)"
  shows "meets I P (dispatch lib
      (protected_layers api (pg_jwt (ap_program api)) (route_middleware_of lib' redis cfg) @
       admin_layers api @ unknown_route))"
    (is "meets I P (dispatch lib (?layers @ _))")
proof -
  have split: "?layers = Use v1 [Auth_handler (ap_lib api) (pg_jwt (ap_program api))] # tl ?layers"
    by (simp add: protected_layers_def)
  have behind: "meets U P (dispatch lib (tl ?layers @ admin_layers api @ unknown_route))"
    by (intro user_endpoints_meet [OF inv(2)] admin_layers_meet assms(2)) simp_all
  have beside: "meets I P (dispatch lib (tl ?layers @ admin_layers api @ unknown_route))"
    if out: "\<not> path_prefix lib v1 (hq_Path q)"
  proof (cases "\<forall>c. I c \<longrightarrow> U c")
    case True
    with behind show ?thesis by (blast intro: meets_weaken)
  next
    case False
    with assms(1) out have none: "path_match lib (v1 @ p) (hq_Path q) = None" for p by blast
    then have "meets I P (dispatch lib (tl (admin_layers api) @ unknown_route))"
      by (intro admin_unmatched [OF inv(1)]) (simp add: admin_def)
    then have "meets I P (dispatch lib (admin_layers api @ unknown_route))"
      by (subst admin_layers_split, unfold append_Cons, intro meets_Use [OF inv(1)])
        (intro meets_chain_Cons [OF role(2)] meets_chain_Nil)
    with none show ?thesis by (intro user_endpoints_meet [OF inv(1)]) simp_all
  qed
  show ?thesis
    by (subst split, unfold append_Cons, intro meets_Use [OF inv(1)] beside)
      (intro meets_chain_Cons [OF auth meets_chain_Nil [OF behind]])
qed

lemma public_layers_meet:
  assumes rest: "meets I P (dispatch lib ls)"
  shows "meets I P (dispatch lib
    (Get ''/health'' [HealthHandler_Check api] @ metrics_layers (instrumentation_of lib' cfg) @
     docs_layers lib' docs @ auth_layers api (route_middleware_of lib' redis cfg) @ ls))"
proof -
  have auth: "meets I P (dispatch lib (auth_layers api (route_middleware_of lib' redis cfg) @ ls))"
    unfolding auth_layers_def append_assoc route_middleware_of_def Let_def RouteMiddleware.simps
    by (intro Post_endpoint [OF inv(1)] Post_limited [OF inv(1)] public limited(1) rest)
  have docs: "meets I P (dispatch lib (docs_layers lib' docs @ auth_layers api (route_middleware_of lib' redis cfg) @ ls))"
    using auth by (auto simp: docs_layers_def intro!: Get_endpoint [OF inv(1)] pages)
  then have "meets I P (dispatch lib (metrics_layers (instrumentation_of lib' cfg) @ docs_layers lib' docs @
      auth_layers api (route_middleware_of lib' redis cfg) @ ls))"
    by (auto simp: metrics_layers_def instrumentation_of_def optional_def
        intro!: meets_Get [OF inv(1)] meets_chain_Cons [OF protect] meets_endpoint pages)
  then show ?thesis
    by (intro Get_endpoint [OF inv(1)] public)
qed

lemma routes_meet:
  assumes "\<And>p. path_match (ap_lib api) (v1 @ p) (hq_Path q) \<noteq> None \<Longrightarrow>
     path_prefix (ap_lib api) v1 (hq_Path q) \<or> (\<forall>c. I c \<longrightarrow> U c)"
    and "\<And>p. path_match (ap_lib api) (admin @ p) (hq_Path q) \<noteq> None \<Longrightarrow>
     path_prefix (ap_lib api) admin (hq_Path q) \<or> (\<forall>c. U c \<longrightarrow> K c)"
  shows "meets I P (dispatch (ap_lib api) (route_layers api (pg_jwt (ap_program api))
    (route_middleware_of (ap_lib api) (ap_redis api) cfg) (instrumentation_of (ap_lib api) cfg) docs))"
  unfolding route_layers_def by (intro public_layers_meet protected_layers_meet assms)

lemma layers_meet:
  assumes "\<And>p. path_match (ap_lib api) (v1 @ p) (hq_Path q) \<noteq> None \<Longrightarrow>
     path_prefix (ap_lib api) v1 (hq_Path q) \<or> (\<forall>c. I c \<longrightarrow> U c)"
    and "\<And>p. path_match (ap_lib api) (admin @ p) (hq_Path q) \<noteq> None \<Longrightarrow>
     path_prefix (ap_lib api) admin (hq_Path q) \<or> (\<forall>c. U c \<longrightarrow> K c)"
  shows "meets I P (dispatch (ap_lib api) (layers_of api cfg))"
  unfolding layers_of_def RegisterRoutes_def
  by (intro common_layers_meet [OF inv(1)] routes_meet assms) (rule recovered)

end

text \<open>What a request that was dispatched is answered with.\<close>

lemma serve_meets:
  assumes "meets I P (dispatch (ap_lib api) (layers_of api cfg))" and "I (new_ctx q)"
    and "http_server api cfg q s = (a, s')"
  obtains r c where "P (sv_world s) r c (sv_world s')"
    and "a = (case r of Returned \<Rightarrow> Some c | Failed err \<Rightarrow> Some (ErrorHandler err c) | Panicked m \<Rightarrow> None)"
proof -
  obtain r c s1 where run: "dispatch (ap_lib api) (layers_of api cfg) (new_ctx q) s = (r, c, s1)"
    by (rule prod_cases3)
  with assms(3) have "s1 = s'"
    and a: "a = (case r of Returned \<Rightarrow> Some c | Failed err \<Rightarrow> Some (ErrorHandler err c) | Panicked m \<Rightarrow> None)"
    by (auto simp: http_server_def serve_def split: outcome.splits)
  with meetsD [OF assms(1,2) run] show ?thesis by (auto intro: that)
qed

section \<open>What a request does to the world\<close>

fun query_caller :: "query_command \<Rightarrow> string option" where
  "query_caller (QMe u) = Some u"
| "query_caller (QMyWallet u) = Some u"
| "query_caller (QMyBalance u) = Some u"
| "query_caller (QMyTransactions u p) = Some u"
| "query_caller (QMyTransaction u i) = Some u"
| "query_caller (QMyLedgers u p) = Some u"
| "query_caller (QTransactionLedgers u i) = Some u"
| "query_caller (QAuditLogs u p) = Some u"
| "query_caller (QTransactions u p) = Some u"
| "query_caller (QWebhooks u f p) = Some u"
| "query_caller (QWebhook u i) = Some u"
| "query_caller (QHealth r) = None"

fun admin_query :: "query_command \<Rightarrow> bool" where
  "admin_query (QAuditLogs u p) = True"
| "admin_query (QTransactions u p) = True"
| "admin_query (QWebhooks u f p) = True"
| "admin_query (QWebhook u i) = True"
| "admin_query _ = False"

definition is_caller :: "Claims option \<Rightarrow> string \<Rightarrow> bool" where
  "is_caller T u \<longleftrightarrow> (case T of None \<Rightarrow> False | Some claims \<Rightarrow> cl_UserID claims = u)"

definition is_admin :: "Claims option \<Rightarrow> bool" where
  "is_admin T \<longleftrightarrow> (case T of None \<Rightarrow> False | Some claims \<Rightarrow> cl_Role claims = ''admin'')"

text \<open>What the claims of a token, if there are any, permit.\<close>

fun permitted :: "Claims option \<Rightarrow> command \<Rightarrow> bool" where
  "permitted T Seed = False"
| "permitted T (DoRegister req) = True"
| "permitted T (DoLogin req) = True"
| "permitted T (DoTopUp req) = is_caller T (tu_UserID req)"
| "permitted T (DoTransfer req) = is_caller T (tf_UserID req)"
| "permitted T (DoQuery q) = (case query_caller q of
      None \<Rightarrow> True
    | Some u \<Rightarrow> is_caller T u \<and> (admin_query q \<longrightarrow> is_admin T))"
| "permitted T (DoReconcile u) = (is_caller T u \<and> is_admin T)"
| "permitted T (DoWork ev) = False"
| "permitted T Restart = False"

definition effect :: "env \<Rightarrow> program \<Rightarrow> Claims option \<Rightarrow> ending" where
  "effect env pg T w r c w' \<longleftrightarrow> w' = w \<or> (\<exists>cmd. permitted T cmd \<and> w' = run_command env pg cmd w)"

text \<open>The locals are those of the request's token, or none.\<close>

definition token_of :: "'s api \<Rightarrow> http_req \<Rightarrow> Claims option" where
  "token_of api q =
     (case Auth (accepted (jwt_ParseWithClaims (ap_lib api)) (pg_jwt (ap_program api)) (hq_Time q))
             (hq_Header q ''Authorization'') of
        Inl err \<Rightarrow> None | Inr claims \<Rightarrow> Some claims)"

definition knows :: "http_req \<Rightarrow> Claims option \<Rightarrow> ctx \<Rightarrow> bool" where
  "knows q T c \<longleftrightarrow> c_Request c = q \<and>
     (c_UserID c = None \<and> c_Role c = None \<or>
      (\<exists>claims. T = Some claims \<and> c_UserID c = Some (cl_UserID claims) \<and> c_Role c = Some (cl_Role claims)))"

definition knows_admin :: "http_req \<Rightarrow> Claims option \<Rightarrow> ctx \<Rightarrow> bool" where
  "knows_admin q T c \<longleftrightarrow> knows q T c \<and> c_Role c = Some ''admin''"

lemma caller_inv_knows: "caller_inv q (knows q T)" "caller_inv q (knows_admin q T)"
  by (auto simp: caller_inv_def same_caller_def knows_def knows_admin_def)

lemma knows_new: "knows q T (new_ctx q)"
  by (simp add: knows_def new_ctx_def)

lemma knows_caller: "knows q T c \<Longrightarrow> c_UserID c = Some u \<Longrightarrow> is_caller T u"
  by (auto simp: knows_def is_caller_def)

lemma knows_admin_caller: "knows_admin q T c \<Longrightarrow> c_UserID c = Some u \<Longrightarrow> is_caller T u \<and> is_admin T"
  by (auto simp: knows_admin_def knows_def is_caller_def is_admin_def)

lemma effect_refl: "effect env pg T w r c w"
  by (simp add: effect_def)

lemma passes_Auth: "passes (knows q (token_of api q)) (knows q (token_of api q)) (effect env pg T)
    (Auth_handler (ap_lib api) (pg_jwt (ap_program api)))"
  unfolding passes_def
proof (intro allI impI meetsI)
  fix "next" :: "'a step" and c s r c' s'
  let ?auth = "Auth (accepted (jwt_ParseWithClaims (ap_lib api)) (pg_jwt (ap_program api)) (hq_Time q))
     (hq_Header q ''Authorization'')"
  assume rest: "meets (knows q (token_of api q)) (effect env pg T) next" and c: "knows q (token_of api q) c"
    and run: "Auth_handler (ap_lib api) (pg_jwt (ap_program api)) next c s = (r, c', s')"
  note q = caller_inv_request [OF caller_inv_knows(1) c]
  show "effect env pg T (sv_world s) r c' (sv_world s')"
  proof (cases ?auth)
    case (Inl err)
    with run q show ?thesis by (auto simp: Auth_handler_def request_header_def effect_refl)
  next
    case (Inr claims)
    with q have "knows q (token_of api q) (c\<lparr>c_UserID := Some (cl_UserID claims), c_Role := Some (cl_Role claims)\<rparr>)"
      by (simp add: knows_def token_of_def)
    moreover from Inr run q
    have "next (c\<lparr>c_UserID := Some (cl_UserID claims), c_Role := Some (cl_Role claims)\<rparr>) s = (r, c', s')"
      by (simp add: Auth_handler_def request_header_def)
    ultimately show ?thesis by (rule meetsD [OF rest])
  qed
qed

lemma passes_RequireRole: "passes (knows q T) (knows_admin q T) (effect env pg T') (RequireRole_handler RoleAdmin)"
  unfolding passes_def
proof (intro allI impI meetsI)
  fix "next" :: "'a step" and c s r c' s'
  assume rest: "meets (knows_admin q T) (effect env pg T') next" and c: "knows q T c"
    and run: "RequireRole_handler RoleAdmin next c s = (r, c', s')"
  show "effect env pg T' (sv_world s) r c' (sv_world s')"
  proof (cases "c_Role c = Some ''admin''")
    case True
    with c run show ?thesis
      by (intro meetsD [OF rest, of c]) (simp_all add: knows_admin_def RequireRole_handler_def RequireRole_def)
  next
    case False
    with run show ?thesis by (auto simp: RequireRole_handler_def RequireRole_def effect_refl)
  qed
qed

section \<open>The endpoints\<close>

lemma command_endpoint:
  assumes "permitted T cmd" and "\<And>w. snd (usecase w) = run_command env pg cmd w"
  shows "meets I (effect env pg T) (answer usecase f)"
  using assms by (intro meets_answer) (auto simp: effect_def)

lemma user_endpoint:
  assumes "\<And>c u. I c \<Longrightarrow> c_UserID c = Some u \<Longrightarrow> permitted T (cmd c u)"
    and "\<And>c u w. snd (m c u w) = run_command env pg (cmd c u) w"
  shows "meets I (effect env pg T) (\<lambda>c. with_user (\<lambda>u. answer (m c u) (f c)) c)"
proof (rule meetsI)
  fix c s r c' s'
  assume c: "I c" and run: "with_user (\<lambda>u. answer (m c u) (f c)) c s = (r, c', s')"
  show "effect env pg T (sv_world s) r c' (sv_world s')"
  proof (cases "c_UserID c")
    case None
    with run show ?thesis by (auto simp: with_user_def effect_refl)
  next
    case (Some u)
    with run have "answer (m c u) (f c) c s = (r, c', s')" by (simp add: with_user_def)
    with assms(1) [OF c Some] assms(2) show ?thesis
      by (auto simp: effect_def answer_def split: prod.splits sum.splits)
        (metis snd_conv)+
  qed
qed

lemma request_endpoint:
  assumes "\<And>req. meets I (effect env pg T) (\<lambda>c. k c req c)"
  shows "meets I (effect env pg T) (\<lambda>c. with_request parse rules (k c) c)"
  using assms
  by (auto simp: meets_def with_request_def reply_def Let_def effect_refl split: option.split)

lemmas handler_defs =
  AuthHandler_Register_def [abs_def] AuthHandler_Login_def [abs_def] UserHandler_Me_def [abs_def]
  WalletHandler_Me_def [abs_def] WalletHandler_Balance_def [abs_def]
  WalletHandler_TopUp_def [abs_def] TransactionHandler_Transfer_def [abs_def]
  TransactionHandler_ListMine_def [abs_def] TransactionHandler_GetOne_def [abs_def]
  LedgerHandler_ListMine_def [abs_def] LedgerHandler_ListByTransaction_def [abs_def]
  AdminHandler_AuditLogs_def [abs_def] AdminHandler_Transactions_def [abs_def]
  AdminHandler_Webhooks_def [abs_def] AdminHandler_Webhook_def [abs_def]
  AdminHandler_Reconciliation_def [abs_def] HealthHandler_Check_def [abs_def]

lemma public_endpoints:
  "meets I (effect (ap_env api) (ap_program api) T) (AuthHandler_Register api next)"
  "meets I (effect (ap_env api) (ap_program api) T) (AuthHandler_Login api next)"
  "meets I (effect (ap_env api) (ap_program api) T) (HealthHandler_Check api next)"
proof -
  show "meets I (effect (ap_env api) (ap_program api) T) (AuthHandler_Register api next)"
    unfolding handler_defs by (intro request_endpoint command_endpoint [OF permitted.simps(2) [THEN iffD2]]) simp_all
  show "meets I (effect (ap_env api) (ap_program api) T) (AuthHandler_Login api next)"
    unfolding handler_defs by (intro request_endpoint command_endpoint [OF permitted.simps(3) [THEN iffD2]]) simp_all
  have "effect (ap_env api) (ap_program api) T w r c (snd (Health_Check (health_ping (ap_env api) redis) w))" for w r c redis
    unfolding effect_def by (intro disjI2 exI [of _ "DoQuery (QHealth redis)"]) simp
  then show "meets I (effect (ap_env api) (ap_program api) T) (HealthHandler_Check api next)"
    by (auto simp: meets_def HealthHandler_Check_def answer_def split: prod.split sum.split) (metis snd_conv)+
qed

lemma money_endpoints:
  "meets (knows q T) (effect (ap_env api) (ap_program api) T) (WalletHandler_TopUp api next)"
  "meets (knows q T) (effect (ap_env api) (ap_program api) T) (TransactionHandler_Transfer api next)"
proof -
  have "meets (knows q T) (effect (ap_env api) (ap_program api) T) (\<lambda>c. WalletHandler_TopUp api next c)"
    unfolding handler_defs
    by (intro request_endpoint user_endpoint [where cmd = "\<lambda>c u. DoTopUp (r c u)" for r])
      (auto simp: ap_notifier_def intro: knows_caller)
  then show "meets (knows q T) (effect (ap_env api) (ap_program api) T) (WalletHandler_TopUp api next)" by simp
  have "meets (knows q T) (effect (ap_env api) (ap_program api) T) (\<lambda>c. TransactionHandler_Transfer api next c)"
    unfolding handler_defs
    by (intro request_endpoint user_endpoint [where cmd = "\<lambda>c u. DoTransfer (r c u)" for r])
      (auto simp: ap_notifier_def intro: knows_caller)
  then show "meets (knows q T) (effect (ap_env api) (ap_program api) T) (TransactionHandler_Transfer api next)" by simp
qed

lemma query_endpoint:
  assumes "\<And>c u. I c \<Longrightarrow> c_UserID c = Some u \<Longrightarrow> permitted T (DoQuery (cmd c u))"
    and "\<And>c u w. snd (m c u w) = run_query env (cmd c u) w"
  shows "meets I (effect env pg T) (\<lambda>c. with_user (\<lambda>u. answer (m c u) (f c)) c)"
  using assms by (intro user_endpoint [where cmd = "\<lambda>c u. DoQuery (cmd c u)"]) simp_all

lemma reading_endpoints:
  "meets (knows q T) (effect (ap_env api) pg T) (UserHandler_Me api next)"
  "meets (knows q T) (effect (ap_env api) pg T) (WalletHandler_Me api next)"
  "meets (knows q T) (effect (ap_env api) pg T) (WalletHandler_Balance api next)"
  "meets (knows q T) (effect (ap_env api) pg T) (TransactionHandler_ListMine api next)"
  "meets (knows q T) (effect (ap_env api) pg T) (TransactionHandler_GetOne api next)"
  "meets (knows q T) (effect (ap_env api) pg T) (LedgerHandler_ListMine api next)"
  "meets (knows q T) (effect (ap_env api) pg T) (LedgerHandler_ListByTransaction api next)"
  unfolding handler_defs
  by (rule query_endpoint [rotated], rule run_query.simps [symmetric], simp add: knows_caller)+

lemma admin_endpoints:
  "meets (knows_admin q T) (effect (ap_env api) pg T) (AdminHandler_AuditLogs api next)"
  "meets (knows_admin q T) (effect (ap_env api) pg T) (AdminHandler_Transactions api next)"
  "meets (knows_admin q T) (effect (ap_env api) pg T) (AdminHandler_Webhooks api next)"
  "meets (knows_admin q T) (effect (ap_env api) pg T) (AdminHandler_Webhook api next)"
  "meets (knows_admin q T) (effect (ap_env api) pg T) (AdminHandler_Reconciliation api next)"
  unfolding handler_defs
  by (rule query_endpoint [rotated], rule run_query.simps [symmetric], simp add: knows_admin_caller)+
    (rule user_endpoint [rotated], rule run_command.simps [symmetric], simp add: knows_admin_caller)

section \<open>Every request is at most one permitted command\<close>

text \<open>
  The framework's documented way to match a registered prefix: a path that matches a pattern
  starting with the prefix also matches the prefix.
\<close>

definition prefix_of_routes :: "http_lib \<Rightarrow> string \<Rightarrow> bool" where
  "prefix_of_routes lib prefix \<longleftrightarrow>
     (\<forall>rest path. path_match lib (prefix @ rest) path \<noteq> None \<longrightarrow> path_prefix lib prefix path)"

interpretation effects: routes api q "knows q (token_of api q)" "knows q (token_of api q)" "knows_admin q (token_of api q)"
  "effect (ap_env api) (ap_program api) (token_of api q)" for api q
proof unfold_locales
  show "meets (knows q (token_of api q)) (effect (ap_env api) (ap_program api) (token_of api q)) (FiberHandler lib b next)"
    and "meets (knows q (token_of api q)) (effect (ap_env api) (ap_program api) (token_of api q)) (swagger_handler lib next)"
    and "meets (knows q (token_of api q)) (effect (ap_env api) (ap_program api) (token_of api q)) (SendFile lib name next)"
    for lib b name "next"
    by (auto simp: meets_def FiberHandler_def swagger_handler_def SendFile_def reply_def effect_refl split: prod.split
        file_answer.split)
  show "passes (knows q (token_of api q)) (knows q (token_of api q))
      (effect (ap_env api) (ap_program api) (token_of api q)) (ProtectMetrics_handler token)" for token
    by (auto simp: passes_def meets_def ProtectMetrics_handler_def effect_refl split: sum.split)
  show "passes (knows q (token_of api q)) (knows q (token_of api q))
      (effect (ap_env api) (ap_program api) (token_of api q)) (RequireRole_handler RoleAdmin)"
    by (rule passes_weaken [OF passes_RequireRole]) (simp add: knows_admin_def)
qed (simp_all add: effect_refl public_endpoints money_endpoints reading_endpoints admin_endpoints passes_Auth
    passes_RequireRole caller_inv_knows, simp add: effect_def)

lemma request_effect:
  assumes "prefix_of_routes (ap_lib api) admin" and "http_server api cfg q s = (a, s')"
  shows "sv_world s' = sv_world s \<or>
    (\<exists>cmd. permitted (token_of api q) cmd \<and> sv_world s' = run_command (ap_env api) (ap_program api) cmd (sv_world s))"
proof -
  have "meets (knows q (token_of api q)) (effect (ap_env api) (ap_program api) (token_of api q))
      (dispatch (ap_lib api) (layers_of api cfg))"
    using assms(1) unfolding prefix_of_routes_def by (blast intro: effects.layers_meet)
  from serve_meets [where I = "knows q (token_of api q)", OF this knows_new assms(2)] show ?thesis
    by (metis effect_def)
qed

section \<open>What is refused\<close>

definition public_patterns :: "string list" where
  "public_patterns = [''/health'', ''/metrics'', ''/swagger'', ''/swagger/openapi.yaml'',
     v1 @ ''/auth/register'', v1 @ ''/auth/login'']"

definition user_patterns :: "string list" where
  "user_patterns = map ((@) v1) [''/users/me'', ''/wallets/me'', ''/wallets/me/balance'',
     ''/wallets/me/top-up'', ''/transfers'', ''/transactions/me'', ''/transactions/:id'', ''/ledgers/me'',
     ''/ledgers/transactions/:transactionId'']"

definition unmatched :: "http_lib \<Rightarrow> string list \<Rightarrow> string \<Rightarrow> bool" where
  "unmatched lib patterns path \<longleftrightarrow> (\<forall>p \<in> set patterns. path_match lib p path = None)"

text \<open>The request ends with an error of the given status and code and no change.\<close>

definition refused :: "int \<Rightarrow> string \<Rightarrow> ending" where
  "refused status code w r c w' \<longleftrightarrow> w' = w \<and> (\<exists>m. r = Failed (GoError (AppError status code m None None)))"

lemma unmatched_public:
  assumes "caller_inv q I" and "unmatched lib public_patterns (hq_Path q)" and "meets I P (dispatch lib ls)"
  shows "meets I P (dispatch lib
    (Get ''/health'' [HealthHandler_Check api] @ metrics_layers instr @ docs_layers lib' docs @
     auth_layers api rm @ ls))"
proof -
  have "path_match lib p (hq_Path q) = None" if "p \<in> set public_patterns" for p
    using assms(2) that by (simp add: unmatched_def)
  then have none: "path_match lib ''/health'' (hq_Path q) = None" "path_match lib ''/metrics'' (hq_Path q) = None"
    "path_match lib ''/swagger'' (hq_Path q) = None" "path_match lib ''/swagger/openapi.yaml'' (hq_Path q) = None"
    "path_match lib (v1 @ ''/auth/register'') (hq_Path q) = None" "path_match lib (v1 @ ''/auth/login'') (hq_Path q) = None"
    by (simp_all add: public_patterns_def)
  have "meets I P (dispatch lib (auth_layers api rm @ ls))"
    unfolding auth_layers_def append_assoc
    by (intro meets_Post [OF assms(1)] assms(3)) (simp_all add: none)
  then have "meets I P (dispatch lib (docs_layers lib' docs @ auth_layers api rm @ ls))"
    by (auto simp: docs_layers_def none intro!: meets_Get [OF assms(1)])
  then have "meets I P (dispatch lib (metrics_layers instr @ docs_layers lib' docs @ auth_layers api rm @ ls))"
    by (auto simp: metrics_layers_def none intro!: meets_Get [OF assms(1)] split: option.split)
  then show ?thesis
    by (intro meets_Get [OF assms(1)]) (simp_all add: none)
qed

lemma refused_request:
  assumes "meets (knows q T) (refused status code) (dispatch (ap_lib api)
      (protected_layers api (pg_jwt (ap_program api)) (route_middleware_of (ap_lib api) (ap_redis api) cfg) @
       admin_layers api @ [Use ''/'' [not_found]]))"
    and "unmatched (ap_lib api) public_patterns (hq_Path q)"
  shows "\<exists>c s' m. http_server api cfg q s = (Some c, s') \<and> sv_world s' = sv_world s \<and> c_Status c = status \<and>
    c_Body c = JSONBody (apiresponse_Error m code None)"
proof -
  obtain r c s' where run: "dispatch (ap_lib api) (layers_of api cfg) (new_ctx q) s = (r, c, s')"
    by (cases "dispatch (ap_lib api) (layers_of api cfg) (new_ctx q) s") auto
  have "meets (knows q T) (refused status code) (dispatch (ap_lib api) (layers_of api cfg))"
    unfolding layers_of_def RegisterRoutes_def route_layers_def append_assoc
    by (intro common_layers_meet [OF caller_inv_knows(1)] unmatched_public [OF caller_inv_knows(1)] assms)
      (simp add: refused_def)
  from meetsD [OF this knows_new run] run show ?thesis
    by (auto simp: refused_def http_server_def serve_def response_Error_def send_json_def set_header_def)
qed

lemma Auth_error: "Auth parse h = Inl err \<Longrightarrow> \<exists>m. err = AppError 401 ''UNAUTHORIZED'' m None None"
  by (auto simp: Auth_def Unauthorized_def New_def split: if_splits list.splits option.splits)

lemma unauthenticated:
  assumes "token_of api q = None" and "path_prefix (ap_lib api) v1 (hq_Path q)"
  shows "meets (knows q None) (refused 401 ''UNAUTHORIZED'')
    (dispatch (ap_lib api) (protected_layers api (pg_jwt (ap_program api)) rm @ ls))"
proof (rule meetsI)
  fix c s r c' s'
  assume c: "knows q None c"
    and run: "dispatch (ap_lib api) (protected_layers api (pg_jwt (ap_program api)) rm @ ls) c s = (r, c', s')"
  note q = caller_inv_request [OF caller_inv_knows(1) c]
  from assms(1) obtain err where err: "Auth (accepted (jwt_ParseWithClaims (ap_lib api)) (pg_jwt (ap_program api)) (hq_Time q))
      (hq_Header q ''Authorization'') = Inl err"
    by (auto simp: token_of_def split: sum.splits)
  with run q assms(2) Auth_error [OF err] show "refused 401 ''UNAUTHORIZED'' (sv_world s) r c' (sv_world s')"
    by (auto simp: protected_layers_def chain_def Auth_handler_def request_header_def refused_def)
qed

lemma not_admin:
  assumes "token_of api q = Some claims" and "cl_Role claims \<noteq> ''admin''"
    and "path_prefix (ap_lib api) v1 (hq_Path q)" and "path_prefix (ap_lib api) admin (hq_Path q)"
    and "unmatched (ap_lib api) user_patterns (hq_Path q)"
  shows "meets (knows q (Some claims)) (refused 403 ''FORBIDDEN'') (dispatch (ap_lib api)
    (protected_layers api (pg_jwt (ap_program api)) rm @ admin_layers api @ ls))"
    (is "meets ?I ?P _")
proof -
  have role: "meets ?I ?P (dispatch (ap_lib api) (admin_layers api @ ls))"
    using assms(2,4)
    by (auto simp: meets_def admin_layers_def chain_def RequireRole_handler_def RequireRole_def refused_def
        Forbidden_def New_def knows_def)
  have none: "path_match (ap_lib api) (v1 @ p) (hq_Path q) = None" if "v1 @ p \<in> set user_patterns" for p
    using assms(5) that by (simp add: unmatched_def)
  have "meets ?I ?P (dispatch (ap_lib api) (tl (protected_layers api (pg_jwt (ap_program api)) rm) @ admin_layers api @ ls))"
    unfolding protected_layers_def append_assoc append_Cons append_Nil list.sel
    by (intro meets_Get [OF caller_inv_knows(1)] meets_Post [OF caller_inv_knows(1)] role)
      (simp_all add: none user_patterns_def)
  moreover have "passes ?I ?I ?P (Auth_handler (ap_lib api) (pg_jwt (ap_program api)))"
    using assms(1)
    by (fastforce simp: passes_def meets_def Auth_handler_def token_of_def request_header_def knows_def split: sum.splits)
  moreover have "protected_layers api (pg_jwt (ap_program api)) rm =
      [Use v1 [Auth_handler (ap_lib api) (pg_jwt (ap_program api))]] @ tl (protected_layers api (pg_jwt (ap_program api)) rm)"
    by (simp add: protected_layers_def)
  ultimately show ?thesis
    using meets_Use_one [OF caller_inv_knows(1)] by (metis append_assoc)
qed

end
