(* ===== verification/Serving.thy ===== *)
theory Serving
  imports Requests
begin

text \<open>
  The process from its start on: \<open>main\<close> of \<^verbatim>\<open>cmd/api/main.go\<close> validates the configuration, seeds
  the administrator and then serves requests while the webhook worker runs. Whatever it does
  to the world is a sequence of the commands of \<^verbatim>\<open>System.thy\<close>, so that everything proved of
  reachable worlds holds of a server that answers HTTP requests. And no handler of it panics.
\<close>

section \<open>Start and service\<close>

text \<open>
  Connecting to PostgreSQL and Redis is left out. A \<open>log.Fatal\<close> ends the process: \<open>None\<close>. The
  world is the one an earlier process left.
\<close>

definition main_start :: "'s api \<Rightarrow> Config \<Rightarrow> 's \<Rightarrow> world \<Rightarrow> 's server option" where
  "main_start api cfg redis w =
     (case Validate (ap_env api) cfg of
        Some err \<Rightarrow> None
      | None \<Rightarrow>
          (case seedAdmin (ap_env api) (seed_of cfg) (run_command (ap_env api) (program_of cfg) Restart w) of
             (Inl err, w') \<Rightarrow> None
           | (Inr _, w') \<Rightarrow> Some \<lparr>sv_world = w', sv_redis = redis, sv_requests = [], sv_limited = [],
               sv_log = []\<rparr>))"

datatype event = Arrives http_req | WorkerTurn worker_event

fun handle_event :: "'s api \<Rightarrow> Config \<Rightarrow> event \<Rightarrow> 's server \<Rightarrow> 's server" where
  "handle_event api cfg (Arrives q) s = snd (http_server api cfg q s)"
| "handle_event api cfg (WorkerTurn ev) s =
     s\<lparr>sv_world := run_command (ap_env api) (ap_program api) (DoWork ev) (sv_world s)\<rparr>"

definition run_events :: "'s api \<Rightarrow> Config \<Rightarrow> event list \<Rightarrow> 's server \<Rightarrow> 's server" where
  "run_events api cfg evs s = fold (handle_event api cfg) evs s"

section \<open>Serving stays within the reachable worlds\<close>

lemma main_start_reachable:
  assumes "ap_program api = program_of cfg" and "reachable (ap_env api) (program_of cfg) w"
    and "main_start api cfg redis w = Some s"
  shows "reachable (ap_env api) (program_of cfg) (sv_world s)"
proof -
  let ?run = "run_command (ap_env api) (program_of cfg)"
  have "sv_world s = ?run Seed (?run Restart w)"
    using assms(3) by (auto simp: main_start_def program_of_def split: option.splits prod.splits sum.splits)
  then show ?thesis
    using reachable.step [OF reachable.step [OF assms(2), of Restart], of Seed] by simp
qed

lemma handle_event_reachable:
  assumes "prefix_of_routes (ap_lib api) admin" and "reachable (ap_env api) (ap_program api) (sv_world s)"
  shows "reachable (ap_env api) (ap_program api) (sv_world (handle_event api cfg ev s))"
proof (cases ev)
  case (Arrives q)
  obtain a s' where run: "http_server api cfg q s = (a, s')" by (cases "http_server api cfg q s")
  from request_effect [OF assms(1) run] assms(2) run Arrives show ?thesis
    by (auto simp del: run_command.simps intro: reachable.step)
next
  case (WorkerTurn t)
  then show ?thesis
    using reachable.step [OF assms(2), of "DoWork t"] by (simp del: run_command.simps)
qed

lemma run_events_reachable:
  assumes "prefix_of_routes (ap_lib api) admin" and "reachable (ap_env api) (ap_program api) (sv_world s)"
  shows "reachable (ap_env api) (ap_program api) (sv_world (run_events api cfg evs s))"
  using assms(2)
proof (induction evs arbitrary: s)
  case (Cons ev evs)
  from Cons.IH [OF handle_event_reachable [OF assms(1) Cons.prems]] show ?case
    by (simp add: run_events_def)
qed (simp add: run_events_def)

section \<open>No handler panics\<close>

text \<open>
  The endpoints of a user take the caller from the locals with a type assertion that is not
  checked: without a caller they panic. \<open>Auth\<close> is what puts the caller there.
\<close>

definition asked :: "http_req \<Rightarrow> ctx \<Rightarrow> bool" where
  "asked q c \<longleftrightarrow> c_Request c = q"

definition caller_known :: "http_req \<Rightarrow> ctx \<Rightarrow> bool" where
  "caller_known q c \<longleftrightarrow> c_Request c = q \<and> c_UserID c \<noteq> None"

definition no_panic :: ending where
  "no_panic w r c w' \<longleftrightarrow> (\<forall>m. r \<noteq> Panicked m)"

lemma no_panic_user: "meets (caller_known q) no_panic (\<lambda>c. with_user (\<lambda>u. answer (m c u) (f c)) c)"
  by (auto simp: meets_def caller_known_def with_user_def answer_def no_panic_def split: prod.splits sum.splits)

lemma no_panic_answer: "meets I no_panic (answer usecase f)"
  by (auto simp: meets_def answer_def no_panic_def split: prod.split sum.split)

lemma no_panic_request:
  assumes "\<And>req. meets I no_panic (\<lambda>c. k c req c)"
  shows "meets I no_panic (\<lambda>c. with_request parse rules (k c) c)"
  using assms by (auto simp: meets_def with_request_def reply_def Let_def no_panic_def split: option.split)

lemma no_panic_endpoints:
  "meets I no_panic (AuthHandler_Register api next)" "meets I no_panic (AuthHandler_Login api next)"
  "meets (caller_known q) no_panic (UserHandler_Me api next)"
  "meets (caller_known q) no_panic (WalletHandler_Me api next)"
  "meets (caller_known q) no_panic (WalletHandler_Balance api next)"
  "meets (caller_known q) no_panic (WalletHandler_TopUp api next)"
  "meets (caller_known q) no_panic (TransactionHandler_Transfer api next)"
  "meets (caller_known q) no_panic (TransactionHandler_ListMine api next)"
  "meets (caller_known q) no_panic (TransactionHandler_GetOne api next)"
  "meets (caller_known q) no_panic (LedgerHandler_ListMine api next)"
  "meets (caller_known q) no_panic (LedgerHandler_ListByTransaction api next)"
  "meets (caller_known q) no_panic (AdminHandler_AuditLogs api next)"
  "meets (caller_known q) no_panic (AdminHandler_Reconciliation api next)"
  "meets (caller_known q) no_panic (AdminHandler_Transactions api next)"
  "meets (caller_known q) no_panic (AdminHandler_Webhooks api next)"
  "meets (caller_known q) no_panic (AdminHandler_Webhook api next)"
  unfolding handler_defs by (intro no_panic_request no_panic_user no_panic_answer)+

interpretation calm: routes api q "asked q" "caller_known q" "caller_known q" no_panic for api q
proof unfold_locales
  show "meets (asked q) no_panic (FiberHandler lib b next)" "meets (asked q) no_panic (swagger_handler lib next)"
    "meets (asked q) no_panic (SendFile lib name next)" for lib b name "next"
    by (auto simp: meets_def FiberHandler_def swagger_handler_def SendFile_def reply_def no_panic_def
        split: prod.split file_answer.split)
  show "meets (asked q) no_panic (HealthHandler_Check api next)" for "next"
    by (auto simp: meets_def HealthHandler_Check_def answer_def no_panic_def split: prod.split sum.split)
  show "passes (asked q) (asked q) no_panic (ProtectMetrics_handler token)" for token
    by (auto simp: passes_def meets_def ProtectMetrics_handler_def no_panic_def split: sum.split)
  show "passes (asked q) (caller_known q) no_panic (Auth_handler (ap_lib api) (pg_jwt (ap_program api)))"
    by (auto simp: passes_def meets_def Auth_handler_def no_panic_def asked_def caller_known_def split: sum.split)
  have role: "passes J J no_panic (RequireRole_handler RoleAdmin)" for J
    by (auto simp: passes_def meets_def RequireRole_handler_def no_panic_def split: sum.split)
  show "passes (asked q) (asked q) no_panic (RequireRole_handler RoleAdmin)"
    "passes (caller_known q) (caller_known q) no_panic (RequireRole_handler RoleAdmin)"
    by (rule role)+
qed (auto simp: no_panic_endpoints no_panic_def caller_inv_def same_caller_def asked_def caller_known_def)

lemma routes_never_panic:
  assumes "prefix_of_routes (ap_lib api) v1"
    and "dispatch (ap_lib api) (route_layers api (pg_jwt (ap_program api))
      (route_middleware_of (ap_lib api) (ap_redis api) cfg) (instrumentation_of (ap_lib api) cfg) docs) c s = (r, c', s')"
  shows "r \<noteq> Panicked m"
proof -
  have "meets (asked (c_Request c)) no_panic (dispatch (ap_lib api) (route_layers api (pg_jwt (ap_program api))
      (route_middleware_of (ap_lib api) (ap_redis api) cfg) (instrumentation_of (ap_lib api) cfg) docs))"
    using assms(1) unfolding prefix_of_routes_def by (intro calm.routes_meet) blast+
  from meetsD [OF this _ assms(2)] show ?thesis by (simp add: asked_def no_panic_def)
qed

end
