(* ===== verification/Disclosure.thy ===== *)
theory Disclosure
  imports Requests
begin

text \<open>
  What an answer looks like. Every answer in JSON is one of the two envelopes of
  \<^verbatim>\<open>internal/pkg/apiresponse\<close>: that of a success with a status of success, or that of an error, whose
  code fits its status. And internal errors are not shown: whatever fails inside, an answer with
  status 500 is the fixed text of \<open>apperror.Internal\<close>. \<open>reveals_nothing\<close> says that every error of an
  operation is \<open>presentable\<close>: one with a status and a code that belong together, and with that
  text if the status is 500.
\<close>

section \<open>Errors that may be shown\<close>

text \<open>The statuses of errors and their codes.\<close>

definition error_codes :: "(int \<times> string) list" where
  "error_codes = [(400, ''INVALID_REQUEST''), (400, ''BAD_REQUEST''), (401, ''UNAUTHORIZED''),
     (403, ''FORBIDDEN''), (404, ''NOT_FOUND''), (404, ''HTTP_ERROR''), (409, ''CONFLICT''),
     (429, ''RATE_LIMIT_EXCEEDED''), (500, ''INTERNAL_ERROR'')]"

definition presentable :: "goerror \<Rightarrow> bool" where
  "presentable err \<longleftrightarrow>
     (case apperror_As err of
        AppError status code message details cause \<Rightarrow> (status, code) \<in> set error_codes \<and>
          (status = 500 \<longrightarrow> code = ''INTERNAL_ERROR'' \<and> message = ''internal server error'' \<and> details = None)
      | _ \<Rightarrow> False)"

definition reveals_nothing :: "'a go \<Rightarrow> bool" where
  "reveals_nothing m \<longleftrightarrow> (\<forall>w e w'. m w = (Inl e, w') \<longrightarrow> presentable e)"

lemma presentable_errors [simp]:
  "presentable (Validation d)" "presentable (Unauthorized m)" "presentable (Forbidden m)"
  "presentable (NotFound m)" "presentable (Conflict m)" "presentable (BadRequest m)"
  "presentable (Internal e)" "presentable ErrRecordNotFound" "presentable (PgError c)"
  "presentable (OtherError m)" "presentable (apperror_As e) = presentable e"
  "presentable (AppError 401 ''UNAUTHORIZED'' m d' c')"
  by (simp_all add: presentable_def error_codes_def app_error_defs)

lemma reveals_error: "reveals_nothing m \<Longrightarrow> fst (m w) = Inl e \<Longrightarrow> presentable e"
  by (metis reveals_nothing_def prod.collapse)

named_theorems reveals_intros "an operation has only presentable errors"

lemma reveals_statement [reveals_intros]: "reveals_nothing (statement env q)"
  by (auto simp: reveals_nothing_def statement_def Let_def split: if_splits option.splits fault.splits
      sum.splits prod.splits)

lemma reveals_query [reveals_intros]: "reveals_nothing (query env f)"
  unfolding query_def by (rule reveals_statement)

lemma reveals_basics [reveals_intros]:
  "reveals_nothing (ok x)" "reveals_nothing (new_uuid env)" "reveals_nothing (now env)"
  "reveals_nothing (modify_state g)"
  "reveals_nothing (first_or_not_found r)" "reveals_nothing (internal_error m)"
  "reveals_nothing (not_found_or_internal msg m')" "reveals_nothing (parse_id env msg' s)"
  "reveals_nothing (ignore_error m'')"
  by (auto simp: reveals_nothing_def ok_def new_uuid_def now_def modify_state_def
      first_or_not_found_def throw_def internal_error_def not_found_or_internal_def parse_id_def
      ignore_error_def split: option.splits sum.splits prod.splits if_splits)

lemma reveals_throw [reveals_intros]: "presentable e \<Longrightarrow> reveals_nothing (throw e)"
  by (simp add: reveals_nothing_def throw_def)

lemma reveals_and_then [reveals_intros]:
  "reveals_nothing m \<Longrightarrow> (\<And>x. reveals_nothing (f x)) \<Longrightarrow> reveals_nothing (and_then m f)"
  by (auto simp: reveals_nothing_def and_then_def split: prod.splits sum.splits)

lemma reveals_cases [reveals_intros]:
  "reveals_nothing m \<Longrightarrow> reveals_nothing m' \<Longrightarrow> reveals_nothing (if b then m else m')"
  "reveals_nothing m \<Longrightarrow> (\<And>y. reveals_nothing (f y)) \<Longrightarrow> reveals_nothing (case x of None \<Rightarrow> m | Some y \<Rightarrow> f y)"
  "(\<And>a. reveals_nothing (g a)) \<Longrightarrow> (\<And>b. reveals_nothing (h b)) \<Longrightarrow>
     reveals_nothing (case z of Inl a \<Rightarrow> g a | Inr b \<Rightarrow> h b)"
  "reveals_nothing m \<Longrightarrow> (\<And>a b. reveals_nothing (k a b)) \<Longrightarrow> reveals_nothing (case l of [] \<Rightarrow> m | a # b \<Rightarrow> k a b)"
  "(\<And>a b. reveals_nothing (j a b)) \<Longrightarrow> reveals_nothing (case p of (a, b) \<Rightarrow> j a b)"
  by (simp_all split: option.split sum.split list.split prod.split)

lemma reveals_WithinTransaction [reveals_intros]:
  "reveals_nothing fn \<Longrightarrow> reveals_nothing (WithinTransaction env fn)"
  by (auto simp: reveals_nothing_def WithinTransaction_def sql_commit_def sql_rollback_def Let_def
      split: option.splits fault.splits prod.splits sum.splits if_splits)

lemma reveals_answer [reveals_intros]:
  assumes "\<And>e w. presentable (f e w)" and "\<And>x. reveals_nothing (g x)"
  shows "reveals_nothing (\<lambda>w. case m w of (Inl e, w') \<Rightarrow> (Inl (f e w), w') | (Inr x, w') \<Rightarrow> g x w')"
  using assms by (auto simp: reveals_nothing_def split: prod.splits sum.splits)

section \<open>The use cases\<close>

lemmas repository_operations = repository_defs Let_def

lemma notifier_reveals [reveals_intros]:
  "reveals_nothing (CreateTopUpDelivery (configured_notifier env hooks) t v)"
  "reveals_nothing (CreateTransferDelivery (configured_notifier env hooks) t v v')"
  unfolding configured_notifier_def usecase_notifier_def
  by (auto simp: NoopWebhookService_def WebhookService_def service_CreateTopUpDelivery_def
      service_CreateTransferDelivery_def createDelivery_def WebhookDeliveries_Create_def Let_def
      intro!: reveals_intros split: option.split)

lemma money_reveals:
  "reveals_nothing (TopUp env (configured_notifier env hooks) req)"
  "reveals_nothing (Transfer env (configured_notifier env hooks) treq)"
proof -
  have fin: "reveals_nothing (finish n run)" if "reveals_nothing run" for n run
    using that by (auto simp: reveals_nothing_def finish_def split: prod.splits sum.splits)
  have "reveals_nothing (reserve_or_replay env key user h ep)" for key user h ep
    unfolding reserve_or_replay_def replay_existing_def repository_operations
    by (intro reveals_intros presentable_errors)
  note intros = reveals_intros presentable_errors fin this
  have "reveals_nothing (topup_body env (configured_notifier env hooks) req u)" for u
    unfolding topup_body_def topup_post_def repository_operations Let_def by (intro intros)
  then show "reveals_nothing (TopUp env (configured_notifier env hooks) req)"
    unfolding TopUp_def by (intro intros)
  have "reveals_nothing (transfer_body env (configured_notifier env hooks) treq u i)" for u i
    unfolding transfer_body_def transfer_post_def repository_operations Let_def by (intro intros)
  then show "reveals_nothing (Transfer env (configured_notifier env hooks) treq)"
    unfolding Transfer_def by (intro intros)
qed

lemma query_reveals:
  "reveals_nothing (GetMe env s)" "reveals_nothing (GetMyWallet env s)" "reveals_nothing (GetMyBalance env s)"
  "reveals_nothing (ListAuditLogs env s p)" "reveals_nothing (Admin_ListTransactions env s p)"
  "reveals_nothing (ListWebhooks env s f p)" "reveals_nothing (GetWebhook env s i)"
  "reveals_nothing (Health_Check ping)" "reveals_nothing (ListMyTransactions env s p)"
  "reveals_nothing (GetMyTransaction env s i)" "reveals_nothing (ListMyLedgers env s p)"
  "reveals_nothing (ListTransactionLedgers env s i)" "reveals_nothing (Reconciliation_Run env s)"
  unfolding query_defs audit_read_def Reconciliation_Run_def Let_def
  by (intro reveals_intros)+

lemma auth_reveals:
  "reveals_nothing (Register env req)" "reveals_nothing (Login env m lreq)"
proof -
  have "reveals_nothing (register_body env u v)" for u v
    unfolding register_body_def repository_operations by (intro reveals_intros)
  then have "reveals_nothing (register_new env name email pw)" for name email pw
    unfolding register_new_def Let_def
    by (intro reveals_intros) (auto simp: reveals_nothing_def split: prod.splits sum.splits)
  then show "reveals_nothing (Register env req)"
    by (auto simp: reveals_nothing_def Register_def Let_def throw_def split: prod.splits sum.splits if_splits)
  have rest: "reveals_nothing (and_then (internal_error (GenerateToken env m user)) (\<lambda>(token, expiresAt).
                 and_then (new_uuid env) (\<lambda>auditID.
                 and_then (now env) (\<lambda>auditTime.
                 and_then (internal_error (Audits_Create env (entry user auditID auditTime))) (\<lambda>_.
                 ok (res user token expiresAt))))))" for user entry and res :: "User \<Rightarrow> string \<Rightarrow> time \<Rightarrow> LoginResponse"
    by (intro reveals_intros)
  show "reveals_nothing (Login env m lreq)"
    unfolding Login_def Let_def
    by (auto simp: reveals_nothing_def throw_def split: prod.splits sum.splits
        dest: rest [unfolded reveals_nothing_def, rule_format])
qed

section \<open>The answers\<close>

definition internal_answer :: json where
  "internal_answer = JObject [(''message'', JString ''internal server error''),
     (''error_code'', JString ''INTERNAL_ERROR'')]"

definition success_envelope :: "int \<Rightarrow> json \<Rightarrow> bool" where
  "success_envelope status j \<longleftrightarrow>
     status \<in> {200, 201} \<and> (\<exists>data meta. j = apiresponse_Success (Some data) meta)"

definition error_envelope :: "int \<Rightarrow> json \<Rightarrow> bool" where
  "error_envelope status j \<longleftrightarrow> (\<exists>message code details.
     (status, code) \<in> set error_codes \<and> j = apiresponse_Error message code details)"

definition discreet :: "ctx \<Rightarrow> bool" where
  "discreet c \<longleftrightarrow> (\<forall>j. c_Body c = JSONBody j \<longrightarrow>
     (success_envelope (c_Status c) j \<or> error_envelope (c_Status c) j) \<and>
     (c_Status c = 500 \<longrightarrow> j = internal_answer))"

text \<open>Bodies written as they are come from the idempotency records.\<close>

definition stored_answer :: "database \<Rightarrow> ctx \<Rightarrow> bool" where
  "stored_answer d c \<longleftrightarrow> (\<forall>j. c_Body c = RawBody j \<longrightarrow> balanced d \<longrightarrow> success_envelope (c_Status c) j)"

definition discreet_ending :: ending where
  "discreet_ending w r c w' \<longleftrightarrow>
     (case r of
        Returned \<Rightarrow> discreet c \<and> stored_answer (db w) c
      | Failed err \<Rightarrow> discreet (ErrorHandler err c)
      | Panicked m \<Rightarrow> True)"

lemma send_json_sel [simp]: "c_Body (send_json status j c) = JSONBody j" "c_Status (send_json status j c) = status"
  by (simp_all add: send_json_def set_header_def)

lemma response_Error_body: "\<exists>j. c_Body (response_Error err c) = JSONBody j"
  by (simp add: response_Error_def Let_def)

lemma discreet_error: "presentable err \<Longrightarrow> discreet (response_Error err c)"
  by (cases "apperror_As err")
    (auto simp: presentable_def discreet_def response_Error_def Let_def error_envelope_def
      apiresponse_Error_def omit_nil_def internal_answer_def)

lemma discreet_success:
  "status = 200 \<or> status = 201 \<Longrightarrow> discreet (response_Success status j meta c)"
  by (auto simp: discreet_def response_Success_def success_envelope_def)

lemma discreet_status:
  "(status, code) \<in> set error_codes \<Longrightarrow> status \<noteq> 500 \<Longrightarrow>
   discreet (send_json status (apiresponse_Error m code details) c)"
  by (auto simp: discreet_def error_envelope_def)

lemma discreet_missing: "discreet (send_json 404 (apiresponse_Error m ''HTTP_ERROR'' None) c)"
  by (rule discreet_status) (simp_all add: error_codes_def)

lemma discreet_page: "c_Body c = PageBody t \<Longrightarrow> discreet c \<and> stored_answer d c"
  by (simp add: discreet_def stored_answer_def)

definition writes_json :: "('a \<Rightarrow> ctx \<Rightarrow> ctx) \<Rightarrow> bool" where
  "writes_json f \<longleftrightarrow> (\<forall>x c. discreet (f x c) \<and> (\<exists>j. c_Body (f x c) = JSONBody j))"

lemma json_writers [simp]:
  "writes_json (write_data f)" "writes_json (write_list f)"
  "writes_json (\<lambda>r. response_Success 201 (g r) None)" "writes_json (\<lambda>_. response_Success 200 k None)"
  by (auto simp: writes_json_def write_data_def write_list_def discreet_success split: prod.split)
    (simp_all add: response_Success_def)

lemma stored_answer_json [simp]: "c_Body c = JSONBody j \<Longrightarrow> stored_answer d c"
  by (simp add: stored_answer_def)

lemma stored_answer_error [simp]: "stored_answer d (response_Error err c)"
  using response_Error_body [of err c] by auto

lemma discreet_answer:
  assumes "reveals_nothing usecase" and "writes_json f"
  shows "meets I discreet_ending (answer usecase f)"
proof (rule meets_answer)
  fix w c err assume "fst (usecase w) = Inl err"
  with reveals_error [OF assms(1)] have "presentable err" .
  then show "discreet_ending w Returned (response_Error err c) (snd (usecase w))"
    by (simp add: discreet_ending_def discreet_error)
next
  fix w c x
  from assms(2) obtain j where "discreet (f x c)" "c_Body (f x c) = JSONBody j" unfolding writes_json_def by blast
  then show "discreet_ending w Returned (f x c) (snd (usecase w))" by (simp add: discreet_ending_def)
qed

lemma money_answers:
  assumes "balanced (db w)"
  shows "TopUp env (configured_notifier env hooks) req w = (Inr res, w') \<Longrightarrow>
      or_StatusCode res = 200 \<and> success_body (or_Body res)"
    and "Transfer env (configured_notifier env hooks) treq w = (Inr res, w') \<Longrightarrow>
      or_StatusCode res = 200 \<and> success_body (or_Body res)"
proof -
  have ok: "db_ok (db w)" and keys: "keys_ok (db w)" using assms by (simp_all add: balanced_def)
  have again: "or_StatusCode res = 200 \<and> success_body (or_Body res)"
    if "replayed key u h ep res (db w)" for key u h ep
    using that keys by (auto simp: replayed_def keys_ok_def)
  show "or_StatusCode res = 200 \<and> success_body (or_Body res)"
    if "TopUp env (configured_notifier env hooks) req w = (Inr res, w')"
    using configured_notifier_ok ok that
    by (cases rule: TopUp_cases) (auto dest: again simp: topup_done_def recorded_def)
  show "or_StatusCode res = 200 \<and> success_body (or_Body res)"
    if "Transfer env (configured_notifier env hooks) treq w = (Inr res, w')"
    using configured_notifier_ok ok that
    by (cases rule: Transfer_cases) (auto dest: again simp: transfer_done_def recorded_def)
qed

lemma discreet_operation:
  assumes "reveals_nothing usecase"
    and "\<And>w x w'. balanced (db w) \<Longrightarrow> usecase w = (Inr x, w') \<Longrightarrow> or_StatusCode x = 200 \<and> success_body (or_Body x)"
  shows "meets I discreet_ending (answer usecase write_operation)"
proof (rule meets_answer)
  fix w c err assume "fst (usecase w) = Inl err"
  with reveals_error [OF assms(1)] have "presentable err" .
  then show "discreet_ending w Returned (response_Error err c) (snd (usecase w))"
    by (simp add: discreet_ending_def discreet_error)
next
  fix w c x assume "fst (usecase w) = Inr x"
  then have "balanced (db w) \<Longrightarrow> or_StatusCode x = 200 \<and> success_body (or_Body x)"
    using assms(2) [of w x "snd (usecase w)"] by (metis prod.collapse)
  then show "discreet_ending w Returned (write_operation x c) (snd (usecase w))"
    by (auto simp: discreet_ending_def discreet_def stored_answer_def write_operation_def response_RawJSON_def
        set_header_def success_body_def success_envelope_def MustMarshalSuccess_def apiresponse_Success_def omit_nil_def
        split: option.split)
qed

lemma discreet_user:
  assumes "\<And>c u. meets (\<lambda>_. True) discreet_ending (answer (m c u) (f c) :: 's step)"
  shows "meets I discreet_ending (\<lambda>c. with_user (\<lambda>u. answer (m c u) (f c)) c :: 's server \<Rightarrow> _)"
proof (rule meetsI)
  fix c r c' and s s' :: "'s server"
  assume run: "with_user (\<lambda>u. answer (m c u) (f c)) c s = (r, c', s')"
  show "discreet_ending (sv_world s) r c' (sv_world s')"
  proof (cases "c_UserID c")
    case None
    with run show ?thesis by (auto simp: with_user_def discreet_ending_def)
  next
    case (Some u)
    with run have "answer (m c u) (f c) c s = (r, c', s')" by (simp add: with_user_def)
    with meetsD [OF assms [of c u], of c s r c' s'] show ?thesis by simp
  qed
qed

lemma discreet_request:
  assumes "\<And>req. meets I discreet_ending (\<lambda>c. k c req c)"
  shows "meets I discreet_ending (\<lambda>c. with_request parse rules (k c) c)"
  using assms
  by (auto simp: meets_def with_request_def reply_def Let_def discreet_ending_def discreet_error split: option.split)

lemma discreet_stateful:
  assumes "\<And>s. meets I discreet_ending (k s)"
  shows "meets I discreet_ending (\<lambda>c s. k s c s)"
  using assms by (auto simp: meets_def)

definition asks :: "http_req \<Rightarrow> ctx \<Rightarrow> bool" where
  "asks q c \<longleftrightarrow> c_Request c = q \<and> c_Body c = NoBody"

lemma discreet_health: "meets I discreet_ending (HealthHandler_Check api next)"
  unfolding handler_defs
  by (rule discreet_stateful) (intro discreet_answer query_reveals json_writers)

lemma discreet_endpoints:
  "meets I discreet_ending (AuthHandler_Register api next)"
  "meets I discreet_ending (AuthHandler_Login api next)"
  "meets I discreet_ending (UserHandler_Me api next)" "meets I discreet_ending (WalletHandler_Me api next)"
  "meets I discreet_ending (WalletHandler_Balance api next)" "meets I discreet_ending (WalletHandler_TopUp api next)"
  "meets I discreet_ending (TransactionHandler_Transfer api next)"
  "meets I discreet_ending (TransactionHandler_ListMine api next)"
  "meets I discreet_ending (TransactionHandler_GetOne api next)" "meets I discreet_ending (LedgerHandler_ListMine api next)"
  "meets I discreet_ending (LedgerHandler_ListByTransaction api next)"
  "meets I discreet_ending (AdminHandler_AuditLogs api next)" "meets I discreet_ending (AdminHandler_Reconciliation api next)"
  "meets I discreet_ending (AdminHandler_Transactions api next)" "meets I discreet_ending (AdminHandler_Webhooks api next)"
  "meets I discreet_ending (AdminHandler_Webhook api next)"
  unfolding handler_defs ap_notifier_def
  by (intro discreet_request discreet_user discreet_answer query_reveals auth_reveals json_writers
      discreet_operation money_reveals money_answers; assumption)+

interpretation discretion: routes api q "asks q" "asks q" "asks q" discreet_ending for api q
proof unfold_locales
  show "meets (asks q) discreet_ending (FiberHandler lib b next)" "meets (asks q) discreet_ending (swagger_handler lib next)"
    "meets (asks q) discreet_ending (SendFile lib name next)" for lib b name "next"
    by (auto simp: meets_def FiberHandler_def swagger_handler_def SendFile_def reply_def discreet_ending_def
        set_header_def asks_def discreet_page discreet_missing discreet_error stored_answer_def discreet_def [of "c\<lparr>c_Status := 404\<rparr>" for c]
        split: prod.split file_answer.split)
  show "passes (asks q) (asks q) discreet_ending (ProtectMetrics_handler token)" for token
    by (auto simp: passes_def meets_def ProtectMetrics_handler_def discreet_ending_def ProtectMetrics_def
        discreet_error split: sum.split list.split if_splits)
  show "passes (asks q) (asks q) discreet_ending (Auth_handler (ap_lib api) (pg_jwt (ap_program api)))" for api
    by (auto simp: passes_def meets_def Auth_handler_def discreet_ending_def discreet_error asks_def
        split: sum.split dest!: Auth_error)
  show "passes (asks q) (asks q) discreet_ending (RequireRole_handler RoleAdmin)"
    by (auto simp: passes_def meets_def RequireRole_handler_def RequireRole_def discreet_ending_def discreet_error
        split: sum.split)
  show "discreet_ending w Returned (too_many_requests n c) w" for w n c
    by (simp add: discreet_ending_def discreet_status [where code = "''RATE_LIMIT_EXCEEDED''"] error_codes_def)
  show "discreet_ending w (Failed (FiberError 404 m)) c w" for w m c
    by (simp add: discreet_ending_def discreet_missing)
qed (simp_all add: discreet_health discreet_endpoints caller_inv_def same_caller_def asks_def discreet_ending_def discreet_error)

lemma answers_discreet:
  assumes "http_server api cfg q s = (Some c, s')"
  shows "discreet c \<and> stored_answer (db (sv_world s)) c"
proof -
  have "meets (asks q) discreet_ending (dispatch (ap_lib api) (layers_of api cfg))"
    by (rule discretion.layers_meet) simp_all
  from serve_meets [where I = "asks q", OF this _ assms] obtain r c0 where
    r: "discreet_ending (sv_world s) r c0 (sv_world s')"
      "Some c = (case r of Returned \<Rightarrow> Some c0 | Failed err \<Rightarrow> Some (ErrorHandler err c0) | Panicked m \<Rightarrow> None)"
    by (auto simp: asks_def new_ctx_def)
  have "stored_answer (db (sv_world s)) (ErrorHandler err c0)" for err
    by (cases err) simp_all
  with r show ?thesis by (cases r) (auto simp: discreet_ending_def)
qed

lemma internal_errors_hidden:
  assumes "http_server api cfg q s = (Some c, s')" and "c_Status c = 500" and "c_Body c = JSONBody j"
  shows "j = internal_answer"
  using answers_discreet [OF assms(1)] assms(2,3) by (simp add: discreet_def)

end
