(* ===== verification/HttpDemo.thy ===== *)
theory HttpDemo
  imports Serving Disclosure Demo
begin

text \<open>
  A concrete server, for examples: paths are matched as strings, with one parameter at the end
  of a pattern; two tokens are known, one of the first user of \<^verbatim>\<open>Demo.thy\<close> and one of an
  administrator; the configuration is the default one, without the seeded administrator.
\<close>

definition demo_match :: "string \<Rightarrow> string \<Rightarrow> (string \<times> string) list option" where
  "demo_match pattern path =
     (let fixed = takeWhile (\<lambda>c. c \<noteq> CHR '':'') pattern;
          param = dropWhile (\<lambda>c. c \<noteq> CHR '':'') pattern;
          rest = drop (length fixed) path in
      if take (length fixed) path \<noteq> fixed then None
      else if param = '''' then (if rest = '''' then Some [] else None)
      else if rest = '''' \<or> CHR ''/'' \<in> set rest then None else Some [(tl param, rest)])"

definition demo_parser :: jwt_parser where
  "demo_parser methods issuer find_key t token =
     (if token = ''ann'' then Inr (\<lparr>cl_UserID = ''0'', cl_Role = ''user''\<rparr>, True)
      else if token = ''root'' then Inr (\<lparr>cl_UserID = ''3'', cl_Role = ''admin''\<rparr>, True)
      else Inl (OtherError ''unknown token''))"

definition demo_lib :: http_lib where
  "demo_lib = \<lparr>path_prefix = (\<lambda>prefix path. take (length prefix) path = prefix), path_match = demo_match,
     BodyParser_Register = (\<lambda>q. Some \<lparr>rgd_Name = ''Ann'', rgd_Email = ''ann@x'', rgd_Password = ''password''\<rparr>),
     BodyParser_Login = (\<lambda>q. Some \<lparr>lgd_Email = ''ann@x'', lgd_Password = ''password''\<rparr>),
     BodyParser_TopUp = (\<lambda>q. Some \<lparr>tud_Amount = 500, tud_Description = None\<rparr>),
     BodyParser_Transfer = (\<lambda>q. Some \<lparr>tfd_RecipientWalletID = ''4'', tfd_Amount = 200, tfd_Description = None\<rparr>),
     is_email = (\<lambda>_. True), is_uuid4 = (\<lambda>_. True), rune_count = length, jwt_ParseWithClaims = demo_parser,
     sha256_hex = id, format_RFC3339 = show_int, generated_request_id = (\<lambda>_. ''1''),
     panic_error = id, promhttp_answer = (\<lambda>_ _ _. (200, '''')), swagger_page = '''',
     send_file = (\<lambda>_. FileSent 200)\<rparr>"

definition demo_redis :: "unit redis" where
  "demo_redis = \<lparr>rd_IncrTTL = (\<lambda>_ _. (Inr (1, 60), ())), rd_Expire = (\<lambda>_ _ _. (Inr (), ()))\<rparr>"

definition demo_config :: Config where
  "demo_config = Load (\<lambda>k. if k = ''SEED_ADMIN_ENABLED'' then Some ''false'' else None)"

definition demo_api :: "goerror option \<Rightarrow> unit api" where
  "demo_api redis_answer = api_of demo_env demo_lib demo_redis (\<lambda>_. redis_answer) demo_config"

definition demo_request :: "string \<Rightarrow> string \<Rightarrow> string \<Rightarrow> http_req" where
  "demo_request method path authorization = \<lparr>hq_Method = method, hq_Path = path, hq_OriginalURL = path,
     hq_Header = (\<lambda>n. if n = ''Authorization'' then authorization else ''''), hq_Query = (\<lambda>_. ''''),
     hq_Body = '''', hq_IP = ''10.0.0.1'', hq_Time = 0\<rparr>"

definition demo_server :: "world \<Rightarrow> unit server" where
  "demo_server w = \<lparr>sv_world = w, sv_redis = (), sv_requests = [], sv_limited = [], sv_log = []\<rparr>"

lemma demo_lib_sel [simp]:
  "path_prefix demo_lib p path \<longleftrightarrow> take (length p) path = p" "path_match demo_lib = demo_match"
  "jwt_ParseWithClaims demo_lib = demo_parser"
  by (simp_all add: demo_lib_def)

lemma demo_api_sel [simp]:
  "ap_env (demo_api r) = demo_env" "ap_lib (demo_api r) = demo_lib" "ap_redis (demo_api r) = demo_redis"
  "ap_program (demo_api r) = program_of demo_config" "ap_ping (demo_api r) = (\<lambda>_. r)"
  by (simp_all add: demo_api_def api_of_def)

lemma demo_request_sel [simp]:
  "hq_Method (demo_request m p a) = m" "hq_Path (demo_request m p a) = p"
  "hq_Header (demo_request m p a) n = (if n = ''Authorization'' then a else '''')"
  by (simp_all add: demo_request_def)

lemma demo_server_sel [simp]: "sv_world (demo_server w) = w"
  by (simp add: demo_server_def)

lemma demo_prefixes: "prefix_of_routes demo_lib admin" "prefix_of_routes demo_lib v1"
proof -
  have "prefix_of_routes demo_lib prefix" if "CHR '':'' \<notin> set prefix" for prefix
  proof -
    have "takeWhile (\<lambda>c. c \<noteq> CHR '':'') (prefix @ rest) = prefix @ takeWhile (\<lambda>c. c \<noteq> CHR '':'') rest" for rest
      using that by (intro takeWhile_append2) auto
    then show ?thesis
      by (auto simp: prefix_of_routes_def demo_match_def Let_def take_add split: if_splits)
  qed
  then show "prefix_of_routes demo_lib admin" "prefix_of_routes demo_lib v1"
    by (simp_all add: admin_def v1_def)
qed

lemma demo_tokens:
  "token_of (demo_api r) (demo_request m p '''') = None"
  "token_of (demo_api r) (demo_request m p ''Bearer ann'') = Some \<lparr>cl_UserID = ''0'', cl_Role = ''user''\<rparr>"
  by (simp_all add: token_of_def Auth_def strings_SplitN2_def equal_fold_ascii_def accepted_def ParseToken_def
      demo_parser_def)

lemma demo_unmatched:
  "unmatched demo_lib public_patterns ''/api/v1/users/me''"
  "unmatched demo_lib public_patterns ''/api/v1/admin/webhooks''"
  "unmatched demo_lib user_patterns ''/api/v1/admin/webhooks''"
  by (simp_all add: unmatched_def public_patterns_def user_patterns_def demo_match_def v1_def)

lemma demo_Validate: "Validate demo_env demo_config = None"
proof -
  have "strings_TrimSpace ''go-hermes'' = ''go-hermes''"
    by (rule TrimSpace_printable) (simp_all add: printable_def)
  then show ?thesis
    by (simp add: Validate_def demo_config_def Load_def Let_def getEnv_def IsDevelopment_def isDevelopmentEnv_def
        equal_fold_ascii_def)
qed

lemma demo_start: "\<exists>s. main_start (demo_api r) demo_config () initial_world = Some s"
proof -
  have "\<not> sc_EnableAdminSeed (seed_of demo_config)"
    by (simp add: seed_of_def demo_config_def Load_def Let_def getEnv_def getEnvAsBool_def strconv_ParseBool_def)
  then show ?thesis by (simp add: main_start_def demo_Validate seedAdmin_def ok_def)
qed

lemma demo_health: "\<exists>c s'. http_server (demo_api (Some (OtherError ''down''))) demo_config
    (demo_request ''GET'' ''/health'' '''') (demo_server initial_world) = (Some c, s') \<and> c_Status c = 500 \<and>
    (\<exists>j. c_Body c = JSONBody j)"
  by (simp add: http_server_def serve_def layers_of_def RegisterRoutes_def route_layers_def common_layers_def use_all_def
      instrumentation_of_def Get_def chain_def requestid_New_def TraceContext_def recover_New_def Metrics_def
      RequestLogger_def HealthHandler_Check_def answer_def Health_Check_def health_ping_def
      GormHealthRepository_Ping_def RedisHealthRepository_Ping_def demo_defs demo_match_def new_ctx_def set_header_def
      response_Error_def send_json_def Internal_def Wrap_def ObserveHTTPRequest_def request_header_def)

section \<open>A login\<close>

text \<open>An environment that signs the claims of one login, and a parser that knows the token.\<close>

definition demo_claims :: "(string \<times> json) list" where
  "demo_claims = token_claims ''0'' ''user'' ''hermes'' 3609000000000 10000000000"

definition signing_env :: env where
  "signing_env = demo_env\<lparr>jwt_Sign := (\<lambda>key cs. if key = ''secret'' \<and> cs = demo_claims then Inr ''token''
     else Inl (OtherError ''unknown claims''))\<rparr>"

definition signed_parser :: jwt_parser where
  "signed_parser methods issuer find_key t token =
     (if token = ''token'' then Inr (\<lparr>cl_UserID = ''0'', cl_Role = ''user''\<rparr>, True)
      else Inl (OtherError ''unknown token''))"

lemma demo_signed: "parses_signed signing_env signed_parser"
  by (auto simp: parses_signed_def signing_env_def signed_parser_def demo_claims_def token_claims_def split: if_splits)

definition demo_login :: LoginRequest where
  "demo_login = \<lparr>lg_Email = ''ann@x'', lg_Password = ''password''\<rparr>"

lemma demo_Login: "\<exists>res w'. Login signing_env (NewJWTManager ''secret'' ''hermes'' 60) demo_login demo_world =
    (Inr res, w') \<and> lgr_AccessToken res = ''token'' \<and> lgr_ExpiresAt res = 3609000000000 \<and>
    ur_ID (lgr_User res) = ''0'' \<and> ur_Role (lgr_User res) = ''user''"
proof -
  have strings: "strings_TrimSpace ''ann@x'' = ''ann@x''" "strings_ToLower signing_env ''ann@x'' = ''ann@x''"
    by (simp_all add: TrimSpace_printable printable_def strings_ToLower_def is_ascii_def ascii_lower_def)
  have env: "time_Now signing_env = time_Now demo_env" "sql_fault signing_env = sql_fault demo_env"
    "uuid_String signing_env = uuid_String demo_env" "bcrypt_Compare signing_env = bcrypt_Compare demo_env"
    "uuid_New signing_env = uuid_New demo_env"
    "jwt_Sign signing_env = (\<lambda>key cs. if key = ''secret'' \<and> cs = demo_claims then Inr ''token''
       else Inl (OtherError ''unknown claims''))"
    by (simp_all add: signing_env_def)
  have char: "char_of (48 :: nat) = CHR ''0''" by code_simp
  show ?thesis
    by (simp add: char demo_login_def Login_def normal_email_def strings Users_GetByEmail_def hash_Compare_def
        GenerateToken_def Audits_Create_def insert_audit_log_def demo_defs demo_world_eq env NewJWTManager_def
        wrap64_id demo_claims_def token_claims_def NewNumericDate_def show_nat.simps toUserResponse_def)
qed

text \<open>
  \<open>seedAdmin\<close> takes the address from the configuration as it is, \<open>Login\<close> normalises the one it is
  given: an administrator whose address has a capital letter or surrounding blanks is created, but
  cannot log in, not even with the very address and password of the configuration.
\<close>

definition demo_seed :: seed_settings where
  "demo_seed = \<lparr>sc_IsDevelopment = True, sc_EnableAdminSeed = True, sc_AdminName = ''Ann'',
     sc_AdminEmail = ''Ann@x'', sc_AdminPassword = ''password''\<rparr>"

lemma seeded_admin_locked_out:
  "\<exists>w w'. seedAdmin demo_env demo_seed initial_world = (Inr (), w) \<and>
     map u_Email (users (db w)) = [''Ann@x''] \<and> map u_Role (users (db w)) = [RoleAdmin] \<and>
     Login demo_env m \<lparr>lg_Email = ''Ann@x'', lg_Password = ''password''\<rparr> w =
       (Inl (Unauthorized ''invalid credentials''), w')"
proof -
  have strings: "strings_TrimSpace ''Ann@x'' = ''Ann@x''" "strings_ToLower demo_env ''Ann@x'' = ''ann@x''"
    by (simp_all add: TrimSpace_printable printable_def strings_ToLower_def is_ascii_def ascii_lower_def)
      code_simp
  show ?thesis
    by (simp add: demo_seed_def seedAdmin_def seed_body_def seed_new_def seed_create_def seed_rest_def
        Login_def normal_email_def strings demo_register_defs)
qed

end
