(* ===== verification/Service.thy ===== *)
theory Service
  imports HttpDemo
begin

text \<open>
  The properties of the server as its clients see it: who may do what, that no handler panics,
  what is never shown, that a token from a login is accepted; which configurations are accepted;
  and that everything proved of reachable worlds holds while it serves.
\<close>

text \<open>
  C2: From its start on, whatever requests arrive and whenever the webhook worker runs, the server
  only makes steps of the command machine, so its world is a reachable one and its books are in
  order.
\<close>

theorem served_books:
  assumes "prefix_of_routes (ap_lib api) admin" and "ap_program api = program_of cfg"
    and "reachable (ap_env api) (program_of cfg) w" and "main_start api cfg redis w = Some s"
  shows "reachable (ap_env api) (program_of cfg) (sv_world (run_events api cfg evs s)) \<and>
    (let d = db (sv_world (run_events api cfg evs s)) in
     db_ok d \<and> books_ok d \<and> total_balance d = minted (transactions d))"
proof -
  have "reachable (ap_env api) (program_of cfg) (sv_world (run_events api cfg evs s))"
    using run_events_reachable [OF assms(1)] main_start_reachable [OF assms(2-4)] assms(2) by simp
  with reachable_invariant [OF this] show ?thesis by (simp add: invariant_def Let_def)
qed

lemma served_books_witness:
  "\<exists>s. main_start (demo_api None) demo_config () initial_world = Some s \<and>
     (let d = db (sv_world (run_events (demo_api None) demo_config
          [Arrives (demo_request ''POST'' ''/api/v1/auth/register'' ''''), WorkerTurn Tick,
           Arrives (demo_request ''POST'' ''/api/v1/wallets/me/top-up'' ''Bearer ann'')] s)) in
      books_ok d \<and> total_balance d = minted (transactions d))"
proof -
  obtain s where s: "main_start (demo_api None) demo_config () initial_world = Some s"
    using demo_start by blast
  from served_books [OF _ _ _ s] demo_prefixes reachable.start show ?thesis
    by (auto simp: Let_def s)
qed

text \<open>
  C3: A request does to the world nothing, or what one command does that the claims of its token
  permit: a registration, a login or a health check for anyone, the commands of a user only in the
  name of the token, those of an administrator only with the role.
\<close>

theorem requests_permitted:
  assumes "prefix_of_routes (ap_lib api) admin"
  shows "sv_world (snd (http_server api cfg q s)) = sv_world s \<or>
    (\<exists>cmd. permitted (token_of api q) cmd \<and>
       sv_world (snd (http_server api cfg q s)) = run_command (ap_env api) (ap_program api) cmd (sv_world s))"
  using request_effect [OF assms surjective_pairing] .

lemma requests_permitted_witness:
  "let w' = sv_world (snd (http_server (demo_api None) demo_config
      (demo_request ''POST'' ''/api/v1/transfers'' ''Bearer ann'') (demo_server demo_funded))) in
    w' = demo_funded \<or>
    (\<exists>cmd. permitted (Some \<lparr>cl_UserID = ''0'', cl_Role = ''user''\<rparr>) cmd \<and>
       w' = run_command demo_env (program_of demo_config) cmd demo_funded)"
  using requests_permitted [of "demo_api None" demo_config
      "demo_request ''POST'' ''/api/v1/transfers'' ''Bearer ann''" "demo_server demo_funded"]
    demo_prefixes by (simp add: demo_tokens Let_def)

text \<open>
  C4: A request below /api/v1, other than registration and login, without a token that is accepted
  is answered with 401 and changes nothing.
\<close>

theorem unauthenticated_refused:
  assumes "token_of api q = None" and "path_prefix (ap_lib api) v1 (hq_Path q)"
    and "unmatched (ap_lib api) public_patterns (hq_Path q)"
  shows "\<exists>c s' m. http_server api cfg q s = (Some c, s') \<and> sv_world s' = sv_world s \<and> c_Status c = 401 \<and>
    c_Body c = JSONBody (apiresponse_Error m ''UNAUTHORIZED'' None)"
  by (rule refused_request [OF unauthenticated [OF assms(1,2)] assms(3)])

lemma unauthenticated_refused_witness:
  "\<exists>c s'. http_server (demo_api None) demo_config (demo_request ''GET'' ''/api/v1/users/me'' '''') (demo_server demo_funded) =
     (Some c, s') \<and> sv_world s' = demo_funded \<and> c_Status c = 401"
  using unauthenticated_refused [of "demo_api None" "demo_request ''GET'' ''/api/v1/users/me'' ''''" demo_config
      "demo_server demo_funded"] demo_unmatched
  by (auto simp: demo_tokens v1_def)

text \<open>
  C5: A request below /api/v1/admin with the token of a user who is no administrator is answered
  with 403 and changes nothing.
\<close>

theorem admin_refused:
  assumes "token_of api q = Some claims" and "cl_Role claims \<noteq> ''admin''"
    and "path_prefix (ap_lib api) v1 (hq_Path q)" and "path_prefix (ap_lib api) admin (hq_Path q)"
    and "unmatched (ap_lib api) public_patterns (hq_Path q)" and "unmatched (ap_lib api) user_patterns (hq_Path q)"
  shows "\<exists>c s' m. http_server api cfg q s = (Some c, s') \<and> sv_world s' = sv_world s \<and> c_Status c = 403 \<and>
    c_Body c = JSONBody (apiresponse_Error m ''FORBIDDEN'' None)"
  by (rule refused_request [OF not_admin [OF assms(1-4,6)] assms(5)])

lemma admin_refused_witness:
  "\<exists>c s'. http_server (demo_api None) demo_config (demo_request ''GET'' ''/api/v1/admin/webhooks'' ''Bearer ann'')
     (demo_server demo_funded) = (Some c, s') \<and> sv_world s' = demo_funded \<and> c_Status c = 403"
  using admin_refused [of "demo_api None" "demo_request ''GET'' ''/api/v1/admin/webhooks'' ''Bearer ann''"
      "\<lparr>cl_UserID = ''0'', cl_Role = ''user''\<rparr>" demo_config "demo_server demo_funded"] demo_unmatched
  by (auto simp: demo_tokens v1_def admin_def)

text \<open>
  C34: A JSON answer with status 500 shows nothing of the error behind it: its body is always the
  same. (The metrics page and files are not JSON; what they show is up to promhttp and SendFile.)
\<close>

theorem internal_hidden:
  assumes "http_server api cfg q s = (Some c, s')" and "c_Status c = 500" and "c_Body c = JSONBody j"
  shows "j = internal_answer"
  using internal_errors_hidden [OF assms] .

lemma internal_hidden_witness:
  "\<exists>c s'. http_server (demo_api (Some (OtherError ''down''))) demo_config (demo_request ''GET'' ''/health'' '''')
     (demo_server initial_world) = (Some c, s') \<and> c_Status c = 500 \<and> c_Body c = JSONBody internal_answer"
  using demo_health internal_hidden by blast

text \<open>
  C35: Every answer with a JSON body, in a server whose world is reachable, is one of the two
  envelopes of the API: that of a success with status 200 or 201, or that of an error with a
  status and an error code that belong together; a body that is written as it was stored is the
  envelope of a success.
\<close>

theorem answers_enveloped:
  assumes "http_server api cfg q s = (Some c, s')"
    and "reachable (ap_env api) (ap_program api) (sv_world s)"
  shows "case c_Body c of
      JSONBody j \<Rightarrow> success_envelope (c_Status c) j \<or> error_envelope (c_Status c) j
    | RawBody j \<Rightarrow> success_envelope (c_Status c) j
    | _ \<Rightarrow> True"
proof -
  have "balanced (db (sv_world s))" using reachable_invariant [OF assms(2)] by (simp add: invariant_balanced)
  with answers_discreet [OF assms(1)] show ?thesis
    by (auto simp: discreet_def stored_answer_def split: http_body.split)
qed

lemma answers_enveloped_witness:
  "\<exists>c s'. http_server (demo_api (Some (OtherError ''down''))) demo_config (demo_request ''GET'' ''/health'' '''')
     (demo_server initial_world) = (Some c, s') \<and> c_Body c = JSONBody internal_answer \<and>
     error_envelope 500 internal_answer"
proof -
  let ?api = "demo_api (Some (OtherError ''down''))"
  obtain c s' where *: "http_server ?api demo_config (demo_request ''GET'' ''/health'' '''')
      (demo_server initial_world) = (Some c, s')"
    "c_Status c = 500" "c_Body c = JSONBody internal_answer"
    using demo_health internal_errors_hidden by blast
  have "reachable (ap_env ?api) (ap_program ?api) (sv_world (demo_server initial_world))"
    by (simp add: reachable.start)
  from answers_enveloped [OF *(1) this] * show ?thesis by (auto simp: success_envelope_def)
qed

text \<open>
  C36: No handler behind the common middleware panics for want of a caller, whatever the request,
  the context it comes in and the state: the endpoints of users and administrators take the caller
  from the locals with an unchecked assertion, and no request reaches one of them except through
  Auth, which sets the caller, given that a path which matches a pattern below /api/v1 also
  matches that prefix.
\<close>

theorem no_handler_panics:
  assumes "prefix_of_routes (ap_lib api) v1"
  shows "fst (dispatch (ap_lib api) (route_layers api (pg_jwt (ap_program api))
      (route_middleware_of (ap_lib api) (ap_redis api) cfg) (instrumentation_of (ap_lib api) cfg) docs) c s)
    \<noteq> Panicked m"
  using routes_never_panic [OF assms] by (metis prod.collapse)

lemma no_handler_panics_witness:
  "(\<forall>m. fst (dispatch demo_lib (route_layers (demo_api None) (pg_jwt (program_of demo_config))
      (route_middleware_of demo_lib demo_redis demo_config) (instrumentation_of demo_lib demo_config) True)
      (new_ctx (demo_request ''GET'' ''/api/v1/users/me'' '''')) (demo_server initial_world)) \<noteq> Panicked m) \<and>
   (\<forall>k. fst (UserHandler_Me (demo_api None) k (new_ctx (demo_request ''GET'' ''/api/v1/users/me'' ''''))
      (demo_server initial_world)) = Panicked ''interface conversion: interface {} is nil, not string'')"
  using no_handler_panics [of "demo_api None" demo_config True
      "new_ctx (demo_request ''GET'' ''/api/v1/users/me'' '''')" "demo_server initial_world"] demo_prefixes(2)
  by (simp add: UserHandler_Me_def with_user_def new_ctx_def)



theorem page_numbers_read:
  assumes "- (2 ^ 63) \<le> i" and "i < 2 ^ 63" and "hq_Query (c_Request c) ''page'' = show_int i"
  shows "sint (Page (query_params c)) = (if i < 1 then 1 else i)"
proof -
  have "parseInt (show_int i) 1 = i"
    using Atoi_show_int [OF assms(1,2)] by (simp add: parseInt_def)
  moreover have "sint (word_of_int i :: int64) = i"
    by (rule sint64_of_int [OF assms(1,2)])
  ultimately show ?thesis
    using assms(3) by (simp add: query_params_def Params_New_def Let_def word_sless_alt)
qed

lemma page_numbers_read_witness:
  "sint (Page (query_params (new_ctx (demo_request ''GET'' ''/'' ''''\<lparr>hq_Query := (\<lambda>_. show_int 7)\<rparr>)))) = 7"
  by (subst page_numbers_read [where i = 7]) (simp_all add: new_ctx_def)

end
