(* ===== verification/Sessions.thy ===== *)
theory Sessions
  imports Money
begin

text \<open>
  The money movements of \<^verbatim>\<open>internal/usecase/transaction.go\<close> as sessions: programs that stop at
  every statement they send to the database, so that other sessions may come in between.

  A \<open>prog\<close> is what a transaction body still has to do: it is done, has failed, or makes a call and
  goes on with the reply. The programs are written like the bodies of \<^verbatim>\<open>Transactions.thy\<close> with
  the calls in the places of the statements; \<open>run\<close> executes a program without interruption, and
  \<open>perform_session\<close> shows that this is \<open>TopUp\<close> and \<open>Transfer\<close> as modelled there.
\<close>

section \<open>Statements that write\<close>

datatype sql_write =
    ReserveRecord IdempotencyRecord
  | InsertTransaction Transaction
  | SaveWallet Wallet
  | InsertEntries "LedgerEntry list"
  | InsertAudit AuditLog
  | InsertDelivery WebhookDelivery
  | CompleteRecord uuid int json time

definition affecting :: "nat \<Rightarrow> string + unit \<times> database \<Rightarrow> string + nat \<times> database" where
  "affecting n r = (case r of Inl code \<Rightarrow> Inl code | Inr (x, d) \<Rightarrow> Inr (n, d))"

lemma affecting_Inr [simp]: "affecting n r = Inr (m, d) \<longleftrightarrow> m = n \<and> r = Inr ((), d)"
  by (auto simp: affecting_def split: sum.splits prod.splits)

lemma affecting_Inl [simp]: "affecting n r = Inl code \<longleftrightarrow> r = Inl code"
  by (auto simp: affecting_def split: sum.splits prod.splits)

text \<open>What the server answers: an SQLSTATE, or the number of rows affected.\<close>

fun sql_of :: "sql_write \<Rightarrow> nat sql" where
  "sql_of (ReserveRecord r) d = insert_idempotency_on_conflict r d"
| "sql_of (InsertTransaction t) d = affecting 1 (insert_transaction t d)"
| "sql_of (SaveWallet w) d = affecting 1 (save_wallet w d)"
| "sql_of (InsertEntries es) d = affecting (length es) (insert_ledger_entries es d)"
| "sql_of (InsertAudit a) d = affecting 1 (insert_audit_log a d)"
| "sql_of (InsertDelivery v) d = affecting 1 (insert_webhook_delivery v d)"
| "sql_of (CompleteRecord i code body t) d =
     affecting (length (filter (\<lambda>r. ir_ID r = i) (idempotency_records d)))
       (complete_idempotency i code body t d)"

section \<open>Programs\<close>

datatype 'a prog =
    Return 'a
  | Raise goerror
  | NewUUID "uuid \<Rightarrow> 'a prog"
  | Now "time \<Rightarrow> 'a prog"
  | FindRecord string uuid string "IdempotencyRecord option \<Rightarrow> 'a prog"
  | FindWallet uuid "Wallet option \<Rightarrow> 'a prog"
  | LockWallets "uuid list" "Wallet list \<Rightarrow> 'a prog"
  | Write sql_write "nat \<Rightarrow> 'a prog"

primrec bind_prog :: "'a prog \<Rightarrow> ('a \<Rightarrow> 'b prog) \<Rightarrow> 'b prog" where
  "bind_prog (Return x) f = f x"
| "bind_prog (Raise e) f = Raise e"
| "bind_prog (NewUUID k) f = NewUUID (\<lambda>i. bind_prog (k i) f)"
| "bind_prog (Now k) f = Now (\<lambda>t. bind_prog (k t) f)"
| "bind_prog (FindRecord key user ep k) f = FindRecord key user ep (\<lambda>r. bind_prog (k r) f)"
| "bind_prog (FindWallet user k) f = FindWallet user (\<lambda>w. bind_prog (k w) f)"
| "bind_prog (LockWallets ids k) f = LockWallets ids (\<lambda>ws. bind_prog (k ws) f)"
| "bind_prog (Write w k) f = Write w (\<lambda>n. bind_prog (k n) f)"

definition select_record :: "string \<Rightarrow> uuid \<Rightarrow> string \<Rightarrow> database \<Rightarrow> IdempotencyRecord option" where
  "select_record key user endpoint d = sql_first ir_ID
     (\<lambda>r. ir_IdempotencyKey r = key \<and> ir_UserID r = user \<and> ir_Endpoint r = endpoint)
     (idempotency_records d)"

definition select_wallet :: "uuid \<Rightarrow> database \<Rightarrow> Wallet option" where
  "select_wallet user d = sql_first w_ID (\<lambda>w. w_UserID w = user) (wallets d)"

definition select_wallets :: "uuid list \<Rightarrow> database \<Rightarrow> Wallet list" where
  "select_wallets ids d = sort_key w_ID (filter (\<lambda>w. w_ID w \<in> set ids) (wallets d))"

text \<open>Without interruption a program is an operation on the world.\<close>

primrec run :: "env \<Rightarrow> 'a prog \<Rightarrow> 'a go" where
  "run env (Return x) = ok x"
| "run env (Raise e) = throw e"
| "run env (NewUUID k) = and_then (new_uuid env) (\<lambda>i. run env (k i))"
| "run env (Now k) = and_then (now env) (\<lambda>t. run env (k t))"
| "run env (FindRecord key user ep k) =
     and_then (query env (select_record key user ep)) (\<lambda>r. run env (k r))"
| "run env (FindWallet user k) = and_then (query env (select_wallet user)) (\<lambda>w. run env (k w))"
| "run env (LockWallets ids k) = and_then (query env (select_wallets ids)) (\<lambda>ws. run env (k ws))"
| "run env (Write w k) = and_then (statement env (sql_of w)) (\<lambda>n. run env (k n))"

section \<open>The repositories as programs\<close>

definition found :: "'a option \<Rightarrow> 'a prog" where
  "found x = (case x of None \<Rightarrow> Raise ErrRecordNotFound | Some r \<Rightarrow> Return r)"

definition session_Reserve :: "IdempotencyRecord \<Rightarrow> bool prog" where
  "session_Reserve record = Now (\<lambda>t.
     let record' = record\<lparr>ir_CreatedAt := if_zero (ir_CreatedAt record) t,
                          ir_UpdatedAt := if_zero (ir_UpdatedAt record) t\<rparr> in
     Write (ReserveRecord record') (\<lambda>affected. Return (affected = 1)))"

definition session_Get :: "string \<Rightarrow> uuid \<Rightarrow> string \<Rightarrow> IdempotencyRecord prog" where
  "session_Get key user endpoint = FindRecord key user endpoint found"

definition session_GetByUserID :: "uuid \<Rightarrow> Wallet prog" where
  "session_GetByUserID user = FindWallet user found"

definition session_LockByIDs :: "env \<Rightarrow> uuid list \<Rightarrow> Wallet list prog" where
  "session_LockByIDs env ids = (let sortedIDs = sort_key (uuid_String env) ids in LockWallets sortedIDs Return)"

definition session_Transactions_Create :: "Transaction \<Rightarrow> Transaction prog" where
  "session_Transactions_Create transaction = Now (\<lambda>t.
     let transaction' = transaction\<lparr>t_CreatedAt := if_zero (t_CreatedAt transaction) t,
                                    t_UpdatedAt := if_zero (t_UpdatedAt transaction) t\<rparr> in
     Write (InsertTransaction transaction') (\<lambda>_. Return transaction'))"

definition session_Wallets_Update :: "Wallet \<Rightarrow> Wallet prog" where
  "session_Wallets_Update wallet = Now (\<lambda>t.
     let wallet' = wallet\<lparr>w_UpdatedAt := t\<rparr> in Write (SaveWallet wallet') (\<lambda>_. Return wallet'))"

definition session_CreateMany :: "LedgerEntry list \<Rightarrow> unit prog" where
  "session_CreateMany entries = Now (\<lambda>t.
     Write (InsertEntries (map (\<lambda>e. e\<lparr>le_CreatedAt := if_zero (le_CreatedAt e) t\<rparr>) entries))
       (\<lambda>_. Return ()))"

definition session_Audits_Create :: "AuditLog \<Rightarrow> AuditLog prog" where
  "session_Audits_Create log = Now (\<lambda>t.
     let log' = log\<lparr>al_CreatedAt := if_zero (al_CreatedAt log) t\<rparr> in
     Write (InsertAudit log') (\<lambda>_. Return log'))"

definition session_MarkCompleted :: "uuid \<Rightarrow> int \<Rightarrow> json \<Rightarrow> unit prog" where
  "session_MarkCompleted i code body = Now (\<lambda>t. Write (CompleteRecord i code body t) (\<lambda>_. Return ()))"

definition session_Deliveries_Create :: "WebhookDelivery \<Rightarrow> WebhookDelivery prog" where
  "session_Deliveries_Create delivery = Now (\<lambda>t.
     let delivery' = delivery\<lparr>wd_CreatedAt := if_zero (wd_CreatedAt delivery) t,
                              wd_UpdatedAt := if_zero (wd_UpdatedAt delivery) t\<rparr> in
     Write (InsertDelivery delivery') (\<lambda>_. Return delivery'))"

section \<open>The webhook notifier\<close>

text \<open>
  \<open>hooks\<close> is the configuration of the delivery service, or \<open>None\<close> for the notifier that does
  nothing, as in \<open>configured_notifier\<close>.
\<close>

definition session_createDelivery ::
  "WebhookConfig \<Rightarrow> string \<Rightarrow> Transaction \<Rightarrow> json \<Rightarrow> WebhookDelivery option prog" where
  "session_createDelivery cfg eventType transaction payload =
     (if \<not> wc_Enabled cfg \<or> wc_TargetURL cfg = '''' then Return None
      else
        NewUUID (\<lambda>i.
        let delivery = \<lparr>wd_ID = i, wd_EventType = eventType,
              wd_TransactionID = Some (t_ID transaction),
              wd_TransactionRef = t_TransactionRef transaction,
              wd_TargetURL = wc_TargetURL cfg, wd_Payload = payload,
              wd_Secret = (if wc_Secret cfg \<noteq> '''' then Some (wc_Secret cfg) else None),
              wd_Status = WebhookDeliveryStatusPending, wd_RetryCount = 0,
              wd_MaxRetry = normalizedMaxRetry cfg, wd_LastError = None,
              wd_LastHTTPStatus = None, wd_NextRetryAt = None, wd_DeliveredAt = None,
              wd_CreatedAt = 0, wd_UpdatedAt = 0\<rparr> in
        bind_prog (session_Deliveries_Create delivery) (\<lambda>delivery'.
        Return (Some delivery'))))"

definition session_CreateTopUpDelivery ::
  "env \<Rightarrow> WebhookConfig option \<Rightarrow> Transaction \<Rightarrow> Wallet \<Rightarrow> WebhookDelivery option prog" where
  "session_CreateTopUpDelivery env hooks transaction wallet =
     (case hooks of None \<Rightarrow> Return None
      | Some cfg \<Rightarrow> Now (\<lambda>occurred.
          session_createDelivery cfg ''wallet.top_up.success'' transaction
            (webhook_payload env ''wallet.top_up.success'' transaction JNull (w_ID wallet) occurred)))"

definition session_CreateTransferDelivery ::
  "env \<Rightarrow> WebhookConfig option \<Rightarrow> Transaction \<Rightarrow> Wallet \<Rightarrow> Wallet \<Rightarrow>
   WebhookDelivery option prog" where
  "session_CreateTransferDelivery env hooks transaction source destination =
     (case hooks of None \<Rightarrow> Return None
      | Some cfg \<Rightarrow> Now (\<lambda>occurred.
          session_createDelivery cfg ''wallet.transfer.success'' transaction
            (webhook_payload env ''wallet.transfer.success'' transaction
               (JString (uuid_String env (w_ID source))) (w_ID destination) occurred)))"

section \<open>The bodies\<close>

definition session_replay ::
  "string \<Rightarrow> uuid \<Rightarrow> string \<Rightarrow> string \<Rightarrow> OperationResult prog" where
  "session_replay key user requestHash endpoint =
     bind_prog (session_Get key user endpoint) (\<lambda>existing.
     if ir_RequestHash existing \<noteq> requestHash
     then Raise (Conflict ''idempotency key already used with different payload'')
     else if ir_StatusCode existing = 0
     then Raise (Conflict ''request with the same idempotency key is still being processed'')
     else Return \<lparr>or_StatusCode = ir_StatusCode existing, or_Body = ir_ResponseBody existing,
              or_Replay = True\<rparr>)"

definition session_reserve_or_replay ::
  "string \<Rightarrow> uuid \<Rightarrow> string \<Rightarrow> string \<Rightarrow> (OperationResult + uuid) prog" where
  "session_reserve_or_replay key user requestHash endpoint =
     NewUUID (\<lambda>i.
     bind_prog (session_Reserve (reservation i key user requestHash endpoint)) (\<lambda>inserted.
     if \<not> inserted
     then bind_prog (session_replay key user requestHash endpoint) (\<lambda>result. Return (Inl result))
     else Return (Inr i)))"

definition session_topup_post ::
  "env \<Rightarrow> WebhookConfig option \<Rightarrow> TopUpRequest \<Rightarrow> uuid \<Rightarrow> uuid \<Rightarrow>
   Wallet \<Rightarrow> body_result prog" where
  "session_topup_post env hooks req userID recordID locked =
     (let beforeBalance = w_Balance locked;
          targetWallet0 = locked\<lparr>w_Balance := w_Balance locked + tu_Amount req\<rparr> in
     NewUUID (\<lambda>transactionID.
     NewUUID (\<lambda>ref.
     bind_prog (session_Transactions_Create \<lparr>t_ID = transactionID,
         t_TransactionRef = ''TXN-'' @ uuid_String env ref,
         t_Type = TransactionTypeTopUp, t_Status = TransactionStatusSuccess,
         t_SourceWalletID = None, t_DestinationWalletID = Some (w_ID targetWallet0),
         t_Amount = tu_Amount req, t_Currency = ''IDR'',
         t_IdempotencyKey = tu_IdempotencyKey req, t_InitiatedByUserID = userID,
         t_Description = tu_Description req, t_CreatedAt = 0, t_UpdatedAt = 0\<rparr>) (\<lambda>transaction.
     bind_prog (session_Wallets_Update targetWallet0) (\<lambda>targetWallet.
     NewUUID (\<lambda>entryID.
     Now (\<lambda>entryTime.
     bind_prog (session_CreateMany
         [\<lparr>le_ID = entryID, le_TransactionID = t_ID transaction, le_WalletID = w_ID targetWallet,
           le_EntryType = LedgerEntryTypeCredit, le_Amount = tu_Amount req,
           le_BalanceBefore = beforeBalance, le_BalanceAfter = w_Balance targetWallet,
           le_CreatedAt = entryTime\<rparr>]) (\<lambda>_.
     NewUUID (\<lambda>auditID.
     Now (\<lambda>auditTime.
     bind_prog (session_Audits_Create
         \<lparr>al_ID = auditID, al_ActorUserID = Some userID, al_Action = ''WALLET_TOP_UP'',
          al_EntityType = ''transaction'', al_EntityID = Some (t_ID transaction),
          al_Metadata = JObject
            [(''amount'', json_int64 (tu_Amount req)),
             (''wallet_id'', JString (uuid_String env (w_ID targetWallet)))],
          al_CreatedAt = auditTime\<rparr>) (\<lambda>_.
     let payload = MustMarshalSuccess (JObject
           [(''transaction'', transaction_json (toTransactionResponse env transaction)),
            (''wallet'', wallet_json (toWalletResponse env targetWallet))]) in
     bind_prog (session_CreateTopUpDelivery env hooks transaction targetWallet) (\<lambda>delivery.
     bind_prog (session_MarkCompleted recordID 200 payload) (\<lambda>_.
     Return (\<lparr>or_StatusCode = 200, or_Body = payload, or_Replay = False\<rparr>,
         map_option wd_ID delivery))))))))))))))"

definition session_topup ::
  "env \<Rightarrow> WebhookConfig option \<Rightarrow> TopUpRequest \<Rightarrow> uuid \<Rightarrow> body_result prog" where
  "session_topup env hooks req userID =
     bind_prog (session_reserve_or_replay (tu_IdempotencyKey req) userID (tu_RequestHash req)
                 topUpEndpoint) (\<lambda>reserved.
     case reserved of
       Inl result \<Rightarrow> Return (result, None)
     | Inr recordID \<Rightarrow>
         bind_prog (session_GetByUserID userID) (\<lambda>wallet.
         bind_prog (session_LockByIDs env [w_ID wallet]) (\<lambda>lockedWallets.
         case lockedWallets of
           [targetWallet] \<Rightarrow>
             if w_Status targetWallet \<noteq> WalletStatusActive
             then Raise (Conflict ''wallet is not active'')
             else session_topup_post env hooks req userID recordID targetWallet
         | _ \<Rightarrow> Raise (NotFound ''wallet not found''))))"

definition session_transfer_post ::
  "env \<Rightarrow> WebhookConfig option \<Rightarrow> TransferRequest \<Rightarrow> uuid \<Rightarrow> uuid \<Rightarrow>
   Wallet \<Rightarrow> Wallet \<Rightarrow> body_result prog" where
  "session_transfer_post env hooks req userID recordID sender recipient =
     (let senderBefore = w_Balance sender;
          recipientBefore = w_Balance recipient;
          sender0 = sender\<lparr>w_Balance := w_Balance sender - tf_Amount req\<rparr>;
          recipient0 = recipient\<lparr>w_Balance := w_Balance recipient + tf_Amount req\<rparr> in
     NewUUID (\<lambda>transactionID.
     NewUUID (\<lambda>ref.
     bind_prog (session_Transactions_Create \<lparr>t_ID = transactionID,
         t_TransactionRef = ''TXN-'' @ uuid_String env ref,
         t_Type = TransactionTypeTransfer, t_Status = TransactionStatusSuccess,
         t_SourceWalletID = Some (w_ID sender0), t_DestinationWalletID = Some (w_ID recipient0),
         t_Amount = tf_Amount req, t_Currency = ''IDR'',
         t_IdempotencyKey = tf_IdempotencyKey req, t_InitiatedByUserID = userID,
         t_Description = tf_Description req, t_CreatedAt = 0, t_UpdatedAt = 0\<rparr>) (\<lambda>transaction.
     bind_prog (session_Wallets_Update sender0) (\<lambda>lockedSender.
     bind_prog (session_Wallets_Update recipient0) (\<lambda>lockedRecipient.
     NewUUID (\<lambda>debitID.
     Now (\<lambda>debitTime.
     NewUUID (\<lambda>creditID.
     Now (\<lambda>creditTime.
     bind_prog (session_CreateMany
         [\<lparr>le_ID = debitID, le_TransactionID = t_ID transaction, le_WalletID = w_ID lockedSender,
           le_EntryType = LedgerEntryTypeDebit, le_Amount = tf_Amount req,
           le_BalanceBefore = senderBefore, le_BalanceAfter = w_Balance lockedSender,
           le_CreatedAt = debitTime\<rparr>,
          \<lparr>le_ID = creditID, le_TransactionID = t_ID transaction,
           le_WalletID = w_ID lockedRecipient,
           le_EntryType = LedgerEntryTypeCredit, le_Amount = tf_Amount req,
           le_BalanceBefore = recipientBefore, le_BalanceAfter = w_Balance lockedRecipient,
           le_CreatedAt = creditTime\<rparr>]) (\<lambda>_.
     NewUUID (\<lambda>auditID.
     Now (\<lambda>auditTime.
     bind_prog (session_Audits_Create
         \<lparr>al_ID = auditID, al_ActorUserID = Some userID, al_Action = ''WALLET_TRANSFER'',
          al_EntityType = ''transaction'', al_EntityID = Some (t_ID transaction),
          al_Metadata = JObject
            [(''amount'', json_int64 (tf_Amount req)),
             (''destination_wallet_id'', JString (uuid_String env (w_ID lockedRecipient))),
             (''source_wallet_id'', JString (uuid_String env (w_ID lockedSender)))],
          al_CreatedAt = auditTime\<rparr>) (\<lambda>_.
     let payload = MustMarshalSuccess (JObject
           [(''destination_wallet'', wallet_json (toWalletResponse env lockedRecipient)),
            (''source_wallet'', wallet_json (toWalletResponse env lockedSender)),
            (''transaction'', transaction_json (toTransactionResponse env transaction))]) in
     bind_prog (session_CreateTransferDelivery env hooks transaction lockedSender
                 lockedRecipient) (\<lambda>delivery.
     bind_prog (session_MarkCompleted recordID 200 payload) (\<lambda>_.
     Return (\<lparr>or_StatusCode = 200, or_Body = payload, or_Replay = False\<rparr>,
         map_option wd_ID delivery)))))))))))))))))"

definition session_transfer ::
  "env \<Rightarrow> WebhookConfig option \<Rightarrow> TransferRequest \<Rightarrow> uuid \<Rightarrow> uuid \<Rightarrow>
   body_result prog" where
  "session_transfer env hooks req userID recipientWalletID =
     bind_prog (session_reserve_or_replay (tf_IdempotencyKey req) userID (tf_RequestHash req)
                 transferEndpoint) (\<lambda>reserved.
     case reserved of
       Inl result \<Rightarrow> Return (result, None)
     | Inr recordID \<Rightarrow>
         bind_prog (session_GetByUserID userID) (\<lambda>senderWallet.
         if w_ID senderWallet = recipientWalletID
         then Raise (BadRequest ''sender and recipient wallet cannot be the same'')
         else
         bind_prog (session_LockByIDs env [w_ID senderWallet, recipientWalletID]) (\<lambda>lockedWallets.
         if length lockedWallets \<noteq> 2
         then Raise (NotFound ''wallet not found'')
         else case (walletMap lockedWallets (w_ID senderWallet),
                    walletMap lockedWallets recipientWalletID) of
           (Some lockedSender, Some lockedRecipient) \<Rightarrow>
             if w_Status lockedSender \<noteq> WalletStatusActive \<or>
                w_Status lockedRecipient \<noteq> WalletStatusActive
             then Raise (Conflict ''wallet is not active'')
             else if w_Balance lockedSender <s tf_Amount req
             then Raise (Conflict ''insufficient balance'')
             else session_transfer_post env hooks req userID recordID lockedSender lockedRecipient
         | _ \<Rightarrow> Raise (NotFound ''wallet not found''))))"

section \<open>Requests\<close>

text \<open>
  A request to move money. What comes before \<open>WithinTransaction\<close> decides whether there is a
  session at all.
\<close>

datatype movement = MTopUp TopUpRequest | MTransfer TransferRequest

fun perform :: "env \<Rightarrow> WebhookConfig option \<Rightarrow> movement \<Rightarrow> OperationResult go" where
  "perform env hooks (MTopUp req) = TopUp env (configured_notifier env hooks) req"
| "perform env hooks (MTransfer req) = Transfer env (configured_notifier env hooks) req"

fun session :: "env \<Rightarrow> WebhookConfig option \<Rightarrow> movement \<Rightarrow> goerror + body_result prog" where
  "session env hooks (MTopUp req) =
     (if tu_IdempotencyKey req = ''''
      then Inl (Validation [(''Idempotency-Key'', ''header is required'')])
      else if tu_Amount req \<le>s 0
      then Inl (Validation [(''amount'', ''must be greater than zero'')])
      else case uuid_Parse env (tu_UserID req) of
        None \<Rightarrow> Inl (BadRequest ''invalid user id'')
      | Some userID \<Rightarrow> Inr (session_topup env hooks req userID))"
| "session env hooks (MTransfer req) =
     (if tf_IdempotencyKey req = ''''
      then Inl (Validation [(''Idempotency-Key'', ''header is required'')])
      else if tf_Amount req \<le>s 0
      then Inl (Validation [(''amount'', ''must be greater than zero'')])
      else case uuid_Parse env (tf_UserID req) of
        None \<Rightarrow> Inl (BadRequest ''invalid user id'')
      | Some userID \<Rightarrow>
          (case uuid_Parse env (tf_RecipientWalletID req) of
             None \<Rightarrow> Inl (Validation [(''recipient_wallet_id'', ''must be a valid UUID'')])
           | Some recipientWalletID \<Rightarrow>
               Inr (session_transfer env hooks req userID recipientWalletID)))"

section \<open>An uninterrupted session is the operation\<close>

lemma and_then_assoc: "and_then (and_then m f) g = and_then m (\<lambda>x. and_then (f x) g)"
  by (rule ext) (simp add: and_then_def split: prod.split sum.split)

lemma ok_and_then [simp]: "and_then (ok x) f = f x" "and_then (throw e) f = throw e"
  by (rule ext, simp add: and_then_def ok_def throw_def)+

lemma run_bind [simp]: "run env (bind_prog p f) = and_then (run env p) (\<lambda>x. run env (f x))"
  by (induction p) (simp_all add: and_then_assoc)

lemma and_then_affecting:
  "and_then (statement env (\<lambda>d. affecting (f d) (q d))) (\<lambda>_. m) = and_then (statement env q) (\<lambda>_. m)"
  by (rule ext) (auto simp: and_then_def statement_def Let_def affecting_def
      split: prod.split sum.split option.split fault.split)

lemma run_if: "run env (if b then p else q) = (if b then run env p else run env q)"
  by simp

lemma and_then_ok [simp]: "and_then m ok = m" "and_then u (\<lambda>_. ok ()) = u"
  by (rule ext, simp add: and_then_def ok_def split: prod.split sum.split)+

lemma sql_of_fun:
  "sql_of (ReserveRecord r) = insert_idempotency_on_conflict r"
  "sql_of (InsertTransaction t) = (\<lambda>d. affecting 1 (insert_transaction t d))"
  "sql_of (SaveWallet w) = (\<lambda>d. affecting 1 (save_wallet w d))"
  "sql_of (InsertEntries es) = (\<lambda>d. affecting (length es) (insert_ledger_entries es d))"
  "sql_of (InsertAudit a) = (\<lambda>d. affecting 1 (insert_audit_log a d))"
  "sql_of (InsertDelivery v) = (\<lambda>d. affecting 1 (insert_webhook_delivery v d))"
  "sql_of (CompleteRecord i c b updated) = (\<lambda>d.
     affecting (length (filter (\<lambda>r. ir_ID r = i) (idempotency_records d)))
       (complete_idempotency i c b updated d))"
  by (rule ext, simp)+

lemma run_found: "run env (found x) = first_or_not_found x"
  by (cases x) (simp_all add: found_def first_or_not_found_def)

lemmas run_calls = run_found sql_of_fun and_then_affecting and_then_assoc Let_def

lemma run_repositories:
  "run env (session_Reserve record) = Idempotency_Reserve env record"
  "run env (session_Get key user endpoint) = Idempotency_Get env key user endpoint"
  "run env (session_GetByUserID user) = Wallets_GetByUserID env user"
  "run env (session_LockByIDs env ids) = Wallets_LockByIDs env ids"
  "run env (session_Transactions_Create t) = Transactions_Create env t"
  "run env (session_Wallets_Update w) = Wallets_Update env w"
  "run env (session_CreateMany es) = Ledgers_CreateMany env es"
  "run env (session_Audits_Create a) = Audits_Create env a"
  "run env (session_MarkCompleted i code body) = Idempotency_MarkCompleted env i code body"
  "run env (session_Deliveries_Create v) = WebhookDeliveries_Create env v"
  unfolding session_Reserve_def session_Get_def session_GetByUserID_def session_LockByIDs_def
    session_Transactions_Create_def session_Wallets_Update_def session_CreateMany_def
    session_Audits_Create_def session_MarkCompleted_def session_Deliveries_Create_def
    repository_defs WebhookDeliveries_Create_def
  by (simp_all add: run_calls select_record_def [abs_def] select_wallet_def [abs_def]
      select_wallets_def [abs_def])

lemma run_createDelivery:
  "run env (session_createDelivery cfg ev t payload) = createDelivery env cfg ev t payload"
  unfolding session_createDelivery_def createDelivery_def Let_def
  by (simp add: run_repositories)

lemma run_deliveries:
  "run env (session_CreateTopUpDelivery env hooks t w) =
     CreateTopUpDelivery (configured_notifier env hooks) t w"
  "run env (session_CreateTransferDelivery env hooks t w w') =
     CreateTransferDelivery (configured_notifier env hooks) t w w'"
  by (simp_all add: session_CreateTopUpDelivery_def session_CreateTransferDelivery_def
      configured_notifier_def usecase_notifier_def WebhookService_def NoopWebhookService_def
      service_CreateTopUpDelivery_def [abs_def] service_CreateTransferDelivery_def [abs_def]
      run_createDelivery split: option.split)

lemma run_reserve_or_replay:
  "run env (session_reserve_or_replay key user h ep) = reserve_or_replay env key user h ep"
  unfolding session_reserve_or_replay_def session_replay_def reserve_or_replay_def
    replay_existing_def
  by (simp add: run_repositories if_distrib [of "run env"] cong: if_cong)

lemma run_topup:
  "run env (session_topup env hooks req user) =
     topup_body env (configured_notifier env hooks) req user"
  unfolding session_topup_def topup_body_def session_topup_post_def topup_post_def Let_def
  by (simp add: run_repositories run_reserve_or_replay run_deliveries if_distrib [of "run env"]
      sum.case_distrib [of "run env"] list.case_distrib [of "run env"]
      cong: if_cong sum.case_cong list.case_cong)

lemma run_transfer:
  "run env (session_transfer env hooks req user recipient) =
     transfer_body env (configured_notifier env hooks) req user recipient"
  unfolding session_transfer_def transfer_body_def session_transfer_post_def transfer_post_def Let_def
  by (simp add: run_repositories run_reserve_or_replay run_deliveries if_distrib [of "run env"]
      sum.case_distrib [of "run env"] option.case_distrib [of "run env"]
      prod.case_distrib [of "run env"] cong: if_cong sum.case_cong option.case_cong)

lemma perform_session:
  "perform env hooks m =
     (case session env hooks m of
        Inl e \<Rightarrow> throw e
      | Inr p \<Rightarrow> finish (configured_notifier env hooks) (WithinTransaction env (run env p)))"
  by (cases m) (simp_all add: TopUp_def Transfer_def run_topup run_transfer split: option.split)

end
