(* ===== verification/Interleaving.thy ===== *)
theory Interleaving
  imports Sessions System
begin

text \<open>
  Sessions that run at the same time, as PostgreSQL interleaves them at the isolation level
  \<open>READ COMMITTED\<close>, which the program leaves at its default.

  A session sees the committed tables with its own writes on top (\<open>visible\<close>). Before a statement
  takes effect it waits for the locks it needs: \<open>SELECT \<dots> FOR UPDATE\<close> and \<open>UPDATE\<close> lock rows,
  an \<open>INSERT\<close> waits for a transaction that is inserting the same value of a unique index, and
  \<open>ON CONFLICT DO NOTHING\<close> does not wait for a value that is already visible. A session keeps its
  locks until it ends. The locks an \<open>INSERT\<close> takes on the rows its foreign keys name are left
  out: those rows are users, whom no session locks, and wallets and transactions the session has
  locked or inserted itself.

  Between the statements of the sessions other requests and the worker do their work. What they write
  are audit logs and the state of deliveries, each write a transaction of its own (\<open>other_work\<close>), and
  a registration commits its user with a wallet (\<open>beside_work\<close>).

  The main result: whatever the interleaving, the sessions that commit have the effect and the
  answers of running their operations one after the other, in the order in which they commit.
\<close>

section \<open>What a write does and locks\<close>

text \<open>The row versions a write leaves, on top of whatever tables it is seen with.\<close>

fun effect :: "sql_write \<Rightarrow> database \<Rightarrow> database" where
  "effect (ReserveRecord r) d =
     d\<lparr>idempotency_records := idempotency_records d @ [stored_idempotency_record r]\<rparr>"
| "effect (InsertTransaction t) d = d\<lparr>transactions := transactions d @ [stored_transaction t]\<rparr>"
| "effect (SaveWallet w) d =
     (if has_wallet d (w_ID w) then d\<lparr>wallets := replace_row w_ID (stored_wallet w) (wallets d)\<rparr>
      else d\<lparr>wallets := wallets d @ [stored_wallet w]\<rparr>)"
| "effect (InsertEntries es) d =
     d\<lparr>ledger_entries := ledger_entries d @ map stored_ledger_entry es\<rparr>"
| "effect (InsertAudit a) d = d\<lparr>audit_logs := audit_logs d @ [stored_audit_log a]\<rparr>"
| "effect (InsertDelivery v) d =
     d\<lparr>webhook_deliveries := webhook_deliveries d @ [stored_webhook_delivery v]\<rparr>"
| "effect (CompleteRecord i code body t) d =
     d\<lparr>idempotency_records := map (completed i code body t) (idempotency_records d)\<rparr>"

definition overlay :: "sql_write list \<Rightarrow> database \<Rightarrow> database" where
  "overlay ws d = fold effect ws d"

text \<open>Locks: values of unique indexes, and rows.\<close>

datatype lock =
    RecordKey "string \<times> uuid \<times> string"
  | RecordID uuid
  | WalletRow uuid
  | TransactionID uuid
  | TransactionRef string
  | EntryID uuid
  | AuditID uuid
  | DeliveryID uuid

fun locks_of :: "sql_write \<Rightarrow> lock list" where
  "locks_of (ReserveRecord r) = [RecordKey (idempotency_key_of r), RecordID (ir_ID r)]"
| "locks_of (InsertTransaction t) = [TransactionID (t_ID t), TransactionRef (t_TransactionRef t)]"
| "locks_of (SaveWallet w) = [WalletRow (w_ID w)]"
| "locks_of (InsertEntries es) = map (\<lambda>e. EntryID (le_ID e)) es"
| "locks_of (InsertAudit a) = [AuditID (al_ID a)]"
| "locks_of (InsertDelivery v) = [DeliveryID (wd_ID v)]"
| "locks_of (CompleteRecord i code body t) = [RecordID i]"

fun wanted :: "database \<Rightarrow> 'a prog \<Rightarrow> lock list" where
  "wanted d (LockWallets ids k) = map (\<lambda>w. WalletRow (w_ID w)) (select_wallets ids d)"
| "wanted d (Write (ReserveRecord r) k) =
     (if idempotency_key_of r \<in> idempotency_key_of ` set (idempotency_records d) then []
      else locks_of (ReserveRecord r))"
| "wanted d (Write w k) = locks_of w"
| "wanted d _ = []"

fun is_call :: "'a prog \<Rightarrow> bool" where
  "is_call (FindRecord key user ep k) = True"
| "is_call (FindWallet user k) = True"
| "is_call (LockWallets ids k) = True"
| "is_call (Write w k) = True"
| "is_call _ = False"

text \<open>A statement on the visible tables: how the program goes on, and what it has written.\<close>

fun advance :: "database \<Rightarrow> 'a prog \<Rightarrow> 'a prog \<times> sql_write list" where
  "advance d (FindRecord key user ep k) = (k (select_record key user ep d), [])"
| "advance d (FindWallet user k) = (k (select_wallet user d), [])"
| "advance d (LockWallets ids k) = (k (select_wallets ids d), [])"
| "advance d (Write w k) =
     (case sql_of w d of
        Inl code \<Rightarrow> (Raise (PgError code), [])
      | Inr (n, d') \<Rightarrow> (k n, if n = 0 then [] else [w]))"
| "advance d p = (p, [])"

text \<open>
  What reading requests, logins, reconciliations and the worker write: audit logs are added,
  deliveries change in place.
\<close>

definition other_work :: "database \<Rightarrow> database \<Rightarrow> bool" where
  "other_work d e \<longleftrightarrow> users e = users d \<and> wallets e = wallets d \<and> transactions e = transactions d \<and>
     ledger_entries e = ledger_entries d \<and> idempotency_records e = idempotency_records d \<and>
     map (\<lambda>v. (wd_ID v, wd_TransactionID v)) (webhook_deliveries e) =
       map (\<lambda>v. (wd_ID v, wd_TransactionID v)) (webhook_deliveries d) \<and>
     (\<exists>ls. audit_logs e = audit_logs d @ ls) \<and> db_ok e"

text \<open>A registration commits a user, a wallet and an audit log.\<close>

definition beside_work :: "database \<Rightarrow> database \<Rightarrow> bool" where
  "beside_work d e \<longleftrightarrow> other_work d e \<or> (\<exists>user. registered user d e) \<and> db_ok e"

text \<open>
  What it locks: the identifiers of its new rows. For a wallet of a registration \<open>unnamed\<close> says that
  no statement under way names the identifier just generated for it.
\<close>

definition new_locks :: "database \<Rightarrow> database \<Rightarrow> lock set" where
  "new_locks d e = AuditID ` (al_ID ` set (audit_logs e) - al_ID ` set (audit_logs d)) \<union>
     WalletRow ` (w_ID ` set (wallets e) - w_ID ` set (wallets d))"

definition unnamed :: "database \<Rightarrow> database \<Rightarrow> 'a prog \<Rightarrow> bool" where
  "unnamed d e p \<longleftrightarrow> (\<forall>ids k. p = LockWallets ids k \<longrightarrow>
     set ids \<inter> w_ID ` set (wallets e) \<subseteq> w_ID ` set (wallets d))"

section \<open>Sessions at the same time\<close>

record tx =
  tx_movement :: movement
  tx_prog :: "body_result prog"
  tx_writes :: "sql_write list"
  tx_locks :: "lock set"

record cluster =
  committed :: database
  sessions :: "nat \<Rightarrow> tx option"
  uuids_drawn :: nat
  clock_readings :: nat
  history :: "(movement \<times> OperationResult) list"

definition visible :: "cluster \<Rightarrow> tx \<Rightarrow> database" where
  "visible s x = overlay (tx_writes x) (committed s)"

definition put :: "nat \<Rightarrow> tx \<Rightarrow> cluster \<Rightarrow> cluster" where
  "put i x s = s\<lparr>sessions := (sessions s)(i \<mapsto> x)\<rparr>"

definition ends :: "nat \<Rightarrow> cluster \<Rightarrow> cluster" where
  "ends i s = s\<lparr>sessions := (sessions s)(i := None)\<rparr>"

definition held_by_other :: "cluster \<Rightarrow> nat \<Rightarrow> lock \<Rightarrow> bool" where
  "held_by_other s i l \<longleftrightarrow> (\<exists>j y. j \<noteq> i \<and> sessions s j = Some y \<and> l \<in> tx_locks y)"

definition next_lock :: "cluster \<Rightarrow> tx \<Rightarrow> lock option" where
  "next_lock s x = find (\<lambda>l. l \<notin> tx_locks x) (wanted (visible s x) (tx_prog x))"

text \<open>What a session does by itself.\<close>

inductive go_on :: "env \<Rightarrow> nat \<Rightarrow> cluster \<Rightarrow> cluster \<Rightarrow> bool" for env i s where
  draw: "sessions s i = Some x \<Longrightarrow> tx_prog x = NewUUID k \<Longrightarrow>
    go_on env i s (put i (x\<lparr>tx_prog := k (uuid_New env (uuids_drawn s))\<rparr>)
      (s\<lparr>uuids_drawn := Suc (uuids_drawn s)\<rparr>))"
| read_clock: "sessions s i = Some x \<Longrightarrow> tx_prog x = Now k \<Longrightarrow>
    go_on env i s (put i (x\<lparr>tx_prog := k (time_Now env (clock_readings s))\<rparr>)
      (s\<lparr>clock_readings := Suc (clock_readings s)\<rparr>))"
| acquire: "sessions s i = Some x \<Longrightarrow> next_lock s x = Some l \<Longrightarrow> \<not> held_by_other s i l \<Longrightarrow>
    go_on env i s (put i (x\<lparr>tx_locks := insert l (tx_locks x)\<rparr>) s)"
| execute: "sessions s i = Some x \<Longrightarrow> is_call (tx_prog x) \<Longrightarrow> next_lock s x = None \<Longrightarrow>
    advance (visible s x) (tx_prog x) = (p, ws) \<Longrightarrow>
    go_on env i s (put i (x\<lparr>tx_prog := p, tx_writes := tx_writes x @ ws\<rparr>) s)"
| commit: "sessions s i = Some x \<Longrightarrow> tx_prog x = Return (res, queued) \<Longrightarrow>
    go_on env i s (ends i (s\<lparr>committed := visible s x,
      history := history s @ [(tx_movement x, res)]\<rparr>))"
| roll_back: "sessions s i = Some x \<Longrightarrow> tx_prog x = Raise e \<Longrightarrow> go_on env i s (ends i s)"

text \<open>
  Requests arrive at any time, and a session may break off at any time: a fault of a statement, a
  lost connection, a crash of the program. Other work waits for the identifiers it inserts like
  everybody else.
\<close>

inductive cluster_step :: "env \<Rightarrow> WebhookConfig option \<Rightarrow> cluster \<Rightarrow> cluster \<Rightarrow> bool"
  for env hooks s where
  begins: "sessions s i = None \<Longrightarrow> session env hooks m = Inr p \<Longrightarrow>
    cluster_step env hooks s
      (put i \<lparr>tx_movement = m, tx_prog = p, tx_writes = [], tx_locks = {}\<rparr> s)"
| goes_on: "go_on env i s s' \<Longrightarrow> cluster_step env hooks s s'"
| breaks_off: "sessions s i = Some x \<Longrightarrow> cluster_step env hooks s (ends i s)"
| others_work: "beside_work (committed s) d \<Longrightarrow>
    (\<And>i x. sessions s i = Some x \<Longrightarrow> tx_locks x \<inter> new_locks (committed s) d = {}) \<Longrightarrow>
    (\<And>i x. sessions s i = Some x \<Longrightarrow> unnamed (committed s) d (tx_prog x)) \<Longrightarrow>
    cluster_step env hooks s (s\<lparr>committed := d\<rparr>)"

definition cluster_start :: "world \<Rightarrow> cluster" where
  "cluster_start w = \<lparr>committed = db w, sessions = (\<lambda>_. None), uuids_drawn = n_uuid w,
     clock_readings = n_time w, history = []\<rparr>"

inductive cluster_reachable :: "env \<Rightarrow> WebhookConfig option \<Rightarrow> world \<Rightarrow> cluster \<Rightarrow> bool"
  for env hooks w where
  start: "cluster_reachable env hooks w (cluster_start w)"
| step: "cluster_reachable env hooks w s \<Longrightarrow> cluster_step env hooks s s' \<Longrightarrow>
    cluster_reachable env hooks w s'"

section \<open>The specification: one after the other\<close>

text \<open>
  The operations of the use case, run one at a time without faults, and work beside them in between. The generated identifiers and
  the readings of the clock are those the interleaved run drew, which another order of the same
  calls would have drawn at other points: they are arbitrary in each run.
\<close>

definition same_code :: "env \<Rightarrow> env \<Rightarrow> bool" where
  "same_code env env' \<longleftrightarrow> (\<exists>u t. env' = env\<lparr>uuid_New := u, time_Now := t, sql_fault := (\<lambda>_. None)\<rparr>)"

inductive serial ::
  "env \<Rightarrow> WebhookConfig option \<Rightarrow> database \<Rightarrow> (movement \<times> OperationResult) list \<Rightarrow> database \<Rightarrow> bool"
  for env hooks d where
  none: "serial env hooks d [] d"
| one_more: "serial env hooks d h (db w) \<Longrightarrow> same_code env env' \<Longrightarrow>
    perform env' hooks m w = (Inr res, w') \<Longrightarrow> serial env hooks d (h @ [(m, res)]) (db w')"
| others: "serial env hooks d h d1 \<Longrightarrow> beside_work d1 d2 \<Longrightarrow> serial env hooks d h d2"

end
