(* ===== verification/Isolation.thy ===== *)
theory Isolation
  imports Interleaving
begin

text \<open>
  Why the sessions of \<^verbatim>\<open>Interleaving.thy\<close> do not disturb each other.

  \<open>sees d e C\<close> says that \<open>e\<close> differs from \<open>d\<close> in what the locks \<open>C\<close> protect only. The sessions of
  the use case are \<open>disciplined\<close>: they lock the wallets they save, complete the record they
  reserved, and use of a wallet that is not locked no more than its identifier. A call of such a
  session has the same reply on both tables, unless it ends the session (\<open>advance_again\<close>).
\<close>

section \<open>What the locks protect\<close>

definition owners :: "database \<Rightarrow> (uuid \<times> uuid) list" where
  "owners d = map (\<lambda>w. (w_ID w, w_UserID w)) (wallets d)"

definition reserved_ids :: "database \<Rightarrow> (uuid \<times> string \<times> uuid \<times> string) list" where
  "reserved_ids d = map (\<lambda>r. (ir_ID r, idempotency_key_of r)) (idempotency_records d)"

definition used :: "database \<Rightarrow> lock set" where
  "used d = (\<lambda>r. RecordKey (idempotency_key_of r)) ` set (idempotency_records d) \<union>
     (\<lambda>r. RecordID (ir_ID r)) ` set (idempotency_records d) \<union>
     (\<lambda>t. TransactionID (t_ID t)) ` set (transactions d) \<union>
     (\<lambda>t. TransactionRef (t_TransactionRef t)) ` set (transactions d) \<union>
     (\<lambda>e. EntryID (le_ID e)) ` set (ledger_entries d) \<union>
     (\<lambda>a. AuditID (al_ID a)) ` set (audit_logs d) \<union>
     (\<lambda>v. DeliveryID (wd_ID v)) ` set (webhook_deliveries d)"

text \<open>The unique values a write inserts.\<close>

fun claims :: "sql_write \<Rightarrow> lock set" where
  "claims (SaveWallet w) = {}"
| "claims (CompleteRecord i code body t) = {}"
| "claims w = set (locks_of w)"

lemma claims_locks: "claims w \<subseteq> set (locks_of w)"
  by (cases w) auto

lemma used_iff [simp]:
  "RecordKey k \<in> used d \<longleftrightarrow> k \<in> idempotency_key_of ` set (idempotency_records d)"
  "RecordID i \<in> used d \<longleftrightarrow> i \<in> ir_ID ` set (idempotency_records d)"
  "TransactionID i \<in> used d \<longleftrightarrow> has_transaction d i"
  "TransactionRef ref \<in> used d \<longleftrightarrow> ref \<in> t_TransactionRef ` set (transactions d)"
  "EntryID i \<in> used d \<longleftrightarrow> i \<in> le_ID ` set (ledger_entries d)"
  "AuditID i \<in> used d \<longleftrightarrow> i \<in> al_ID ` set (audit_logs d)"
  "DeliveryID i \<in> used d \<longleftrightarrow> has_webhook_delivery d i"
  "WalletRow i \<notin> used d"
  by (auto simp: used_def has_transaction_def has_webhook_delivery_def image_iff)

lemma has_wallet_owners: "has_wallet d i \<longleftrightarrow> i \<in> fst ` set (owners d)"
  by (force simp: has_wallet_def owners_def image_iff)

lemma one_owner:
  assumes "db_ok d" and "(i, u) \<in> set (owners d)" and "(j, v) \<in> set (owners d)"
  shows "i = j \<longleftrightarrow> u = v"
proof -
  have "inj_on w_ID (set (wallets d))" "inj_on w_UserID (set (wallets d))"
    using assms(1) by (simp_all add: db_ok_defs distinct_map)
  with assms(2,3) show ?thesis by (auto simp: owners_def dest: inj_onD)
qed

section \<open>Effects\<close>

lemma stored_audit_log_ID [simp]: "al_ID (stored_audit_log a) = al_ID a"
  by (simp add: stored_audit_log_def)

lemma sql_effect:
  assumes "sql_of w d = Inr (n, d')"
  shows "d' = (if n = 0 then d else effect w d)"
proof -
  have none: "map (completed i c b t) rs = rs" if "filter (\<lambda>r. ir_ID r = i) rs = []" for i c b t rs
    using that by (auto simp: filter_empty_conv completed_def intro: map_idI)
  from assms show ?thesis
    by (cases w) (auto simp: insert_idempotency_on_conflict_def insert_transaction_def save_wallet_def
        update_wallet_def insert_wallet_def insert_ledger_entries_def insert_audit_log_def
        insert_webhook_delivery_def complete_idempotency_def none split: if_splits)
qed

lemma sql_ok:
  assumes "sql_of w d = Inr (n, d')" and "db_ok d"
  shows "db_ok d'"
  using assms by (cases w) (auto intro: statements_ok)

lemma used_effect: "used (effect w d) = used d \<union> claims w"
  by (cases w) (auto simp: used_def image_Un image_image)

lemma users_effect [simp]: "users (effect w d) = users d"
  by (cases w) simp_all

lemma reserved_ids_effect:
  "reserved_ids (effect w d) = reserved_ids d @
     (case w of ReserveRecord r \<Rightarrow> [(ir_ID r, idempotency_key_of r)] | _ \<Rightarrow> [])"
  by (cases w) (simp_all add: reserved_ids_def)

lemma overlay_snoc [simp]: "overlay (ws @ [w]) d = effect w (overlay ws d)"
  by (simp add: overlay_def)

lemma overlay_Nil [simp]: "overlay [] d = d"
  by (simp add: overlay_def)

lemma has_user_effect [simp]: "has_user (effect w d) i = has_user d i"
  by (simp add: has_user_def)

lemma users_overlay [simp]: "users (overlay ws d) = users d"
  by (induction ws rule: rev_induct) simp_all

lemma used_overlay: "used (overlay ws d) = used d \<union> (\<Union>w \<in> set ws. claims w)"
  by (induction ws rule: rev_induct) (auto simp: used_effect)

lemma owners_effect:
  assumes "case w of SaveWallet x \<Rightarrow> (w_ID x, w_UserID x) \<in> set (owners d) | _ \<Rightarrow> True"
    and "distinct (map w_ID (wallets d))"
  shows "owners (effect w d) = owners d"
proof (cases w)
  case (SaveWallet x)
  with assms(1) have x: "(w_ID x, w_UserID x) \<in> set (owners d)" by simp
  then have "has_wallet d (w_ID x)" by (force simp: has_wallet_owners)
  moreover have "w_UserID v = w_UserID x" if "v \<in> set (wallets d)" "w_ID v = w_ID x" for v
    using x that assms(2) by (auto simp: owners_def distinct_map dest: inj_onD)
  ultimately show ?thesis using SaveWallet by (auto simp: owners_def replace_row_def)
qed (simp_all add: owners_def)

section \<open>Tables that differ in what some locks protect\<close>

definition sees :: "database \<Rightarrow> database \<Rightarrow> lock set \<Rightarrow> bool" where
  "sees d e C \<longleftrightarrow> (\<forall>i. has_user d i \<longrightarrow> has_user e i) \<and> set (owners d) \<subseteq> set (owners e) \<and>
     used d \<subseteq> used e \<and> used e \<subseteq> used d \<union> C \<and> set (reserved_ids d) \<subseteq> set (reserved_ids e) \<and>
     (\<forall>S. (\<forall>i \<in> S. WalletRow i \<notin> C) \<longrightarrow>
        filter (\<lambda>w. w_ID w \<in> S) (wallets e) = filter (\<lambda>w. w_ID w \<in> S) (wallets d)) \<and>
     (\<forall>k. RecordKey k \<notin> C \<longrightarrow>
        filter (\<lambda>r. idempotency_key_of r = k) (idempotency_records e) =
        filter (\<lambda>r. idempotency_key_of r = k) (idempotency_records d))"

lemma sees_same:
  assumes "sees d e C"
  shows "has_user d i \<Longrightarrow> has_user e i" "set (owners d) \<subseteq> set (owners e)" "used d \<subseteq> used e"
    "used e \<subseteq> used d \<union> C" "set (reserved_ids d) \<subseteq> set (reserved_ids e)"
  using assms by (simp_all add: sees_def)

lemma sees_rows:
  "sees d e C \<Longrightarrow> (\<And>i. i \<in> S \<Longrightarrow> WalletRow i \<notin> C) \<Longrightarrow>
   filter (\<lambda>w. w_ID w \<in> S) (wallets e) = filter (\<lambda>w. w_ID w \<in> S) (wallets d)"
  by (simp add: sees_def)

lemma sees_records:
  "sees d e C \<Longrightarrow> RecordKey k \<notin> C \<Longrightarrow>
   filter (\<lambda>r. idempotency_key_of r = k) (idempotency_records e) =
   filter (\<lambda>r. idempotency_key_of r = k) (idempotency_records d)"
  unfolding sees_def by blast

lemma seesI:
  assumes "\<And>i. has_user d i \<Longrightarrow> has_user e i" "set (owners d) \<subseteq> set (owners e)" "used d \<subseteq> used e"
    "used e \<subseteq> used d \<union> C" "set (reserved_ids d) \<subseteq> set (reserved_ids e)"
    and "\<And>S. (\<And>i. i \<in> S \<Longrightarrow> WalletRow i \<notin> C) \<Longrightarrow>
      filter (\<lambda>w. w_ID w \<in> S) (wallets e) = filter (\<lambda>w. w_ID w \<in> S) (wallets d)"
    and "\<And>k. RecordKey k \<notin> C \<Longrightarrow>
      filter (\<lambda>r. idempotency_key_of r = k) (idempotency_records e) =
      filter (\<lambda>r. idempotency_key_of r = k) (idempotency_records d)"
  shows "sees d e C"
  unfolding sees_def using assms(1-5) by (intro conjI allI impI assms(6,7)) simp_all

lemma sees_wallet: "sees d e C \<Longrightarrow> has_wallet d i \<Longrightarrow> has_wallet e i"
  using sees_same(2) [of d e C] by (auto simp: has_wallet_owners intro: rev_image_eqI)

lemma sees_refl: "sees d d C"
  by (simp add: sees_def)

lemma sees_mono:
  assumes "sees d e C" and "C \<subseteq> C'"
  shows "sees d e C'"
proof (rule seesI)
  show "used e \<subseteq> used d \<union> C'" using sees_same(4) [OF assms(1)] assms(2) by blast
qed (use assms sees_same [OF assms(1)] in \<open>auto intro!: sees_rows sees_records\<close>)

lemma sees_trans:
  assumes "sees d e C" and "sees e f C"
  shows "sees d f C"
proof (rule seesI)
  show "used d \<subseteq> used f" "used f \<subseteq> used d \<union> C" "set (reserved_ids d) \<subseteq> set (reserved_ids f)"
    "set (owners d) \<subseteq> set (owners f)"
    using sees_same(2-) [OF assms(1)] sees_same(2-) [OF assms(2)] by blast+
qed (simp_all add: sees_same [OF assms(1)] sees_same [OF assms(2)] sees_rows [OF assms(1)]
    sees_rows [OF assms(2)] sees_records [OF assms(1)] sees_records [OF assms(2)])

text \<open>A write that locks what it changes changes what its locks protect.\<close>

definition protected_by :: "lock set \<Rightarrow> database \<Rightarrow> sql_write \<Rightarrow> bool" where
  "protected_by C d w \<longleftrightarrow> set (locks_of w) \<subseteq> C \<and>
     (case w of
        SaveWallet x \<Rightarrow> (w_ID x, w_UserID x) \<in> set (owners d)
      | CompleteRecord i code body t \<Rightarrow> (\<forall>k. (i, k) \<in> set (reserved_ids d) \<longrightarrow> RecordKey k \<in> C)
      | _ \<Rightarrow> True)"

lemma filter_replace_row_other:
  "\<not> P r \<Longrightarrow> (\<And>x. key x = key r \<Longrightarrow> \<not> P x) \<Longrightarrow> filter P (replace_row key r rows) = filter P rows"
  by (induction rows) (auto simp: replace_row_def)

lemma filter_map_fixed:
  "(\<And>x. x \<in> set xs \<Longrightarrow> P (f x) = P x) \<Longrightarrow> (\<And>x. x \<in> set xs \<Longrightarrow> P x \<Longrightarrow> f x = x) \<Longrightarrow>
   filter P (map f xs) = filter P xs"
  by (induction xs) auto

lemma sees_effect:
  assumes w: "protected_by C d w" and d: "db_ok d"
  shows "sees d (effect w d) C"
proof -
  have owner: "case w of SaveWallet x \<Rightarrow> (w_ID x, w_UserID x) \<in> set (owners d) | _ \<Rightarrow> True"
    using w by (auto simp: protected_by_def split: sql_write.splits)
  have owners: "owners (effect w d) = owners d"
    using owners_effect [OF owner] d by (simp add: db_ok_defs)
  have rows: "filter (\<lambda>w. w_ID w \<in> S) (wallets (effect w d)) = filter (\<lambda>w. w_ID w \<in> S) (wallets d)"
    if "\<forall>i \<in> S. WalletRow i \<notin> C" for S
  proof (cases w)
    case (SaveWallet x)
    with w that have "w_ID x \<notin> S" "has_wallet d (w_ID x)"
      by (force simp: protected_by_def has_wallet_owners)+
    with SaveWallet show ?thesis by (simp add: filter_replace_row_other)
  qed simp_all
  have records: "filter (\<lambda>r. idempotency_key_of r = k) (idempotency_records (effect w d)) =
      filter (\<lambda>r. idempotency_key_of r = k) (idempotency_records d)" if "RecordKey k \<notin> C" for k
  proof (cases w)
    case (CompleteRecord i code body t)
    with w have keys: "\<forall>k. (i, k) \<in> set (reserved_ids d) \<longrightarrow> RecordKey k \<in> C"
      by (simp add: protected_by_def)
    have "ir_ID r \<noteq> i" if r: "r \<in> set (idempotency_records d)" "idempotency_key_of r = k" for r
    proof
      assume "ir_ID r = i"
      with r have "(i, k) \<in> set (reserved_ids d)" by (auto simp: reserved_ids_def)
      with keys \<open>RecordKey k \<notin> C\<close> show False by blast
    qed
    then have "filter (\<lambda>r. idempotency_key_of r = k) (map (completed i code body t)
        (idempotency_records d)) = filter (\<lambda>r. idempotency_key_of r = k) (idempotency_records d)"
      by (intro filter_map_fixed) (simp, simp add: completed_def)
    with CompleteRecord show ?thesis by simp
  qed (use w that in \<open>auto simp: protected_by_def\<close>)
  have "claims w \<subseteq> C"
    using w claims_locks [of w] by (auto simp: protected_by_def)
  then show ?thesis
    by (intro seesI) (use owners in \<open>auto intro!: rows records simp: used_effect reserved_ids_effect\<close>)
qed

text \<open>The same write on both sides keeps the difference.\<close>

lemma filter_replace_row:
  "filter (\<lambda>x. key x \<in> S) (replace_row key r rows) = replace_row key r (filter (\<lambda>x. key x \<in> S) rows)"
  by (induction rows) (auto simp: replace_row_def)

lemma filter_completed:
  "filter (\<lambda>r. idempotency_key_of r = k) (map (completed i c b t) rs) =
   map (completed i c b t) (filter (\<lambda>r. idempotency_key_of r = k) rs)"
  by (induction rs) auto

lemma sees_effects:
  assumes "sees d e C" and "db_ok d" "db_ok e"
    and "case w of SaveWallet x \<Rightarrow> (w_ID x, w_UserID x) \<in> set (owners d) | _ \<Rightarrow> True"
  shows "sees (effect w d) (effect w e) C"
proof -
  note same = sees_same [OF assms(1)]
  have distinct: "distinct (map w_ID (wallets d))" "distinct (map w_ID (wallets e))"
    using assms(2,3) by (simp_all add: db_ok_defs)
  have "case w of SaveWallet x \<Rightarrow> (w_ID x, w_UserID x) \<in> set (owners e) | _ \<Rightarrow> True"
    using assms(4) same(2) by (auto split: sql_write.splits)
  from owners_effect [OF this distinct(2)] owners_effect [OF assms(4) distinct(1)]
  have owners: "owners (effect w d) = owners d" "owners (effect w e) = owners e" by simp_all
  have saved: "has_wallet d (w_ID x)" "has_wallet e (w_ID x)" if "w = SaveWallet x" for x
    using that assms(4) same(2) by (force simp: has_wallet_owners)+
  have rows: "filter (\<lambda>w. w_ID w \<in> S) (wallets (effect w e)) = filter (\<lambda>w. w_ID w \<in> S) (wallets (effect w d))"
    if "\<forall>i \<in> S. WalletRow i \<notin> C" for S
    using sees_rows [OF assms(1), of S] that saved
    by (cases w) (simp_all add: filter_replace_row)
  have records: "filter (\<lambda>r. idempotency_key_of r = k) (idempotency_records (effect w e)) =
      filter (\<lambda>r. idempotency_key_of r = k) (idempotency_records (effect w d))"
    if "RecordKey k \<notin> C" for k
    using sees_records [OF assms(1) that] by (cases w) (simp_all add: filter_completed)
  show ?thesis
  proof (rule seesI)
    show "used (effect w d) \<subseteq> used (effect w e)" "used (effect w e) \<subseteq> used (effect w d) \<union> C"
      "set (reserved_ids (effect w d)) \<subseteq> set (reserved_ids (effect w e))"
      using same(3-5) by (auto simp: used_effect reserved_ids_effect)
  qed (use same(1,2) owners in \<open>auto intro!: rows records\<close>)
qed

section \<open>Disciplined sessions\<close>

text \<open>
  \<open>W\<close> holds the wallets locked so far with their owners, \<open>R\<close> the reserved record with its key. The
  key is reserved before wallets are locked, and wallets are locked once.
\<close>

primrec disciplined ::
  "'a prog \<Rightarrow> (uuid \<times> uuid) set \<Rightarrow> (uuid \<times> string \<times> uuid \<times> string) set \<Rightarrow> bool" where
  "disciplined (Return x) W R = True"
| "disciplined (Raise e) W R = True"
| "disciplined (NewUUID k) W R = (\<forall>i. disciplined (k i) W R)"
| "disciplined (Now k) W R = (\<forall>t. disciplined (k t) W R)"
| "disciplined (FindRecord key user ep k) W R =
     ((\<exists>e. k None = Raise e) \<and> (\<forall>r. disciplined (k r) W R))"
| "disciplined (FindWallet user k) W R =
     ((\<exists>e. k None = Raise e) \<and> (\<forall>w w'. w_ID w = w_ID w' \<longrightarrow> k (Some w) = k (Some w')) \<and>
      (\<forall>w. disciplined (k w) W R))"
| "disciplined (LockWallets ids k) W R = (W = {} \<and>
     (\<forall>ws. w_ID ` set ws = set ids \<longrightarrow> disciplined (k ws) ((\<lambda>w. (w_ID w, w_UserID w)) ` set ws) R) \<and>
     (\<forall>ws. w_ID ` set ws \<subset> set ids \<and> distinct (map w_ID ws) \<longrightarrow> (\<exists>e. k ws = Raise e)))"
| "disciplined (Write w k) W R =
     (case w of
        ReserveRecord r \<Rightarrow> W = {} \<and> R = {} \<and> disciplined (k 0) {} {} \<and>
          disciplined (k 1) {} {(ir_ID r, idempotency_key_of r)}
      | SaveWallet x \<Rightarrow> (w_ID x, w_UserID x) \<in> W \<and> (\<forall>n. disciplined (k n) W R)
      | CompleteRecord i code body t \<Rightarrow> i \<in> fst ` R \<and> (\<forall>n n'. k n = k n') \<and>
          (\<forall>n. disciplined (k n) W R)
      | _ \<Rightarrow> \<forall>n. disciplined (k n) W R)"

lemma disciplined_found: "disciplined (bind_prog (found x) f) W R \<longleftrightarrow> (\<forall>r. x = Some r \<longrightarrow> disciplined (f r) W R)"
  by (cases x) (simp_all add: found_def)

lemmas session_defs =
  session_topup_def session_transfer_def session_topup_post_def session_transfer_post_def
  session_reserve_or_replay_def session_replay_def session_Reserve_def session_Get_def
  session_GetByUserID_def session_LockByIDs_def session_Transactions_Create_def
  session_Wallets_Update_def session_CreateMany_def session_Audits_Create_def
  session_MarkCompleted_def session_Deliveries_Create_def session_createDelivery_def
  session_CreateTopUpDelivery_def session_CreateTransferDelivery_def found_def

lemma one_wallet: "w_ID ` set ws \<subset> {i} \<Longrightarrow> ws = []"
  by (cases ws) auto

lemma two_wallets:
  assumes "w_ID ` set ws \<subset> {i, j}" and "distinct (map w_ID ws)" shows "length ws \<noteq> 2"
proof
  assume "length ws = 2"
  then have "card (w_ID ` set ws) = 2" using distinct_card [OF assms(2)] by simp
  moreover have "card (w_ID ` set ws) < card {i, j}" by (rule psubset_card_mono [OF _ assms(1)]) simp
  ultimately show False using card_insert_le_m1 [of 2 "{j}" i] by simp
qed

lemma disciplined_topup_post:
  assumes "(w_ID locked, w_UserID locked) \<in> W" and "recordID \<in> fst ` R"
  shows "disciplined (session_topup_post env hooks req user recordID locked) W R"
  using assms by (auto simp: session_defs Let_def split: option.split)
lemma disciplined_transfer_post:
  assumes "(w_ID sender, w_UserID sender) \<in> W" and "(w_ID recipient, w_UserID recipient) \<in> W" and "recordID \<in> fst ` R"
  shows "disciplined (session_transfer_post env hooks req user recordID sender recipient) W R"
  using assms by (auto simp: session_defs Let_def split: option.split)
lemma disciplined_topup: "disciplined (session_topup env hooks req user) {} {}"
  unfolding session_topup_def session_reserve_or_replay_def session_replay_def session_Reserve_def session_Get_def
  session_GetByUserID_def session_LockByIDs_def found_def Let_def 
  by (auto simp: disciplined_topup_post reservation_def dest!: one_wallet split: option.split list.split)

lemma disciplined_transfer: "disciplined (session_transfer env hooks req user recipient) {} {}"
  unfolding session_transfer_def session_reserve_or_replay_def session_replay_def session_Reserve_def
    session_Get_def session_GetByUserID_def session_LockByIDs_def found_def Let_def
  by (auto simp: reservation_def dest!: two_wallets walletMap_Some
      intro!: disciplined_transfer_post split: option.split) (metis imageI)+

lemma disciplined_session: "session env hooks m = Inr p \<Longrightarrow> disciplined p {} {}"
  by (cases m) (auto simp: disciplined_topup disciplined_transfer split: if_splits option.splits)

section \<open>A statement again\<close>

lemma owners_unique_user:
  assumes "db_ok d" and "(i, u) \<in> set (owners d)"
  shows "\<forall>w' \<in> set (wallets d). w_ID w' \<noteq> i \<longrightarrow> w_UserID w' \<noteq> u"
  using one_owner [OF assms] by (force simp: owners_def)

lemma sql_again:
  assumes sees: "sees d e C" and e: "db_ok e" and run: "sql_of w d = Inr (n, d')"
    and fresh: "set (wanted d (Write w k)) \<inter> C = {}"
    and own: "case w of
        SaveWallet x \<Rightarrow> (w_ID x, w_UserID x) \<in> set (owners d)
      | CompleteRecord i code body t \<Rightarrow> i \<in> fst ` set (reserved_ids d)
      | _ \<Rightarrow> True"
  obtains n' e' where "sql_of w e = Inr (n', e')" and "n' = 0 \<longleftrightarrow> n = 0"
    and "(\<forall>i code body t. w \<noteq> CompleteRecord i code body t) \<longrightarrow> n' = n"
proof -
  note same = sees_same [OF sees]
  have fks: "\<And>i. has_user d i \<Longrightarrow> has_user e i" "\<And>i. has_wallet d i \<Longrightarrow> has_wallet e i"
    "\<And>i. has_transaction d i \<Longrightarrow> has_transaction e i"
    using same(1,3) sees_wallet [OF sees] by (auto simp flip: used_iff(3))
  have references: "list_all (has_user d) xs \<Longrightarrow> list_all (has_user e) xs"
    "list_all (has_wallet d) xs \<Longrightarrow> list_all (has_wallet e) xs" for xs
    using fks(1,2) by (auto simp: list_all_iff)
  have free: "l \<notin> used e" if "l \<in> set (wanted d (Write w k))" "l \<notin> used d" for l
    using that same(4) fresh by blast
  show ?thesis
  proof (cases w)
    case (ReserveRecord r)
    show ?thesis
    proof (cases "RecordKey (idempotency_key_of r) \<in> used d")
      case True
      moreover have "RecordKey (idempotency_key_of r) \<in> used e" using True same(3) by blast
      ultimately show ?thesis using run ReserveRecord
        by (intro that [of 0 e]) (auto simp: insert_idempotency_on_conflict_def split: if_splits)
    next
      case False
      with free [of "RecordKey (idempotency_key_of r)"] free [of "RecordID (ir_ID r)"] run fks ReserveRecord
      show ?thesis
        by (intro that [of 1]) (auto simp: insert_idempotency_on_conflict_def constrained_def split: if_splits)
    qed
  next
    case (InsertTransaction t)
    with free [of "TransactionID (t_ID t)"] free [of "TransactionRef (t_TransactionRef t)"] run fks
      references
    show ?thesis
      by (intro that [of 1]) (auto simp: insert_transaction_def constrained_def has_transaction_def split: if_splits)
  next
    case (SaveWallet x)
    with own same(2) have x: "(w_ID x, w_UserID x) \<in> set (owners e)" and w: "has_wallet d (w_ID x)"
      by (force simp: has_wallet_owners)+
    from owners_unique_user [OF e x] w SaveWallet run fks show ?thesis
      by (intro that [of 1]) (auto simp: save_wallet_def update_wallet_def split: if_splits)
  next
    case (InsertEntries es)
    have "EntryID i \<notin> used e" if "i \<in> le_ID ` set es" for i
      using that InsertEntries run free [of "EntryID i"] by (auto simp: insert_ledger_entries_def)
    then have "le_ID ` set es \<inter> le_ID ` set (ledger_entries e) = {}" by auto
    with InsertEntries run fks show ?thesis
      by (intro that [of "length es"]) (auto simp: insert_ledger_entries_def list_all_iff)
  next
    case (InsertAudit a)
    with free [of "AuditID (al_ID a)"] run references show ?thesis
      by (intro that [of 1]) (auto simp: insert_audit_log_def)
  next
    case (InsertDelivery v)
    with free [of "DeliveryID (wd_ID v)"] run fks show ?thesis
      by (intro that [of 1]) (auto simp: insert_webhook_delivery_def list_all_iff)
  next
    case (CompleteRecord i code body t)
    with own have "i \<in> fst ` set (reserved_ids d)" "i \<in> fst ` set (reserved_ids e)"
      using same(5) by auto
    then have "i \<in> ir_ID ` set (idempotency_records d)" "i \<in> ir_ID ` set (idempotency_records e)"
      by (force simp: reserved_ids_def)+
    with CompleteRecord run show ?thesis
      by (intro that) (auto simp: complete_idempotency_def filter_empty_conv)
  qed
qed
lemma map_sort_key: "map key (sort_key key xs) = sort (map key xs)"
  by (rule sym, rule properties_for_sort) simp_all

lemma select_wallet_again:
  assumes sees: "sees d e C" and e: "db_ok e" and w: "select_wallet user d = Some w"
  obtains w' where "select_wallet user e = Some w'" and "w_ID w' = w_ID w"
proof -
  from w have "w \<in> set (wallets d) \<and> w_UserID w = user"
    unfolding select_wallet_def by (rule sql_first_Some)
  with sees_same(2) [OF sees] have w_e: "(w_ID w, user) \<in> set (owners e)" by (auto simp: owners_def)
  then have "select_wallet user e \<noteq> None"
    by (auto simp: select_wallet_def owners_def sql_first_None)
  then obtain w' where w': "select_wallet user e = Some w'" by blast
  then have "w' \<in> set (wallets e) \<and> w_UserID w' = user"
    unfolding select_wallet_def by (rule sql_first_Some)
  then have "(w_ID w', user) \<in> set (owners e)" by (auto simp: owners_def)
  from one_owner [OF e w_e this] that [OF w'] show ?thesis by simp
qed

lemma select_record_filter:
  "select_record key user ep d =
     sql_first ir_ID (\<lambda>_. True) (filter (\<lambda>r. idempotency_key_of r = (key, user, ep)) (idempotency_records d))"
  by (simp add: select_record_def sql_first_def idempotency_key_of_def)

lemma select_record_again:
  assumes "sees d e C" and "RecordKey (key, user, ep) \<notin> C"
  shows "select_record key user ep e = select_record key user ep d"
  by (simp only: select_record_filter sees_records [OF assms])

lemma select_wallets_again:
  assumes "sees d e C" and "\<And>i. i \<in> set ids \<Longrightarrow> WalletRow i \<notin> C"
  shows "select_wallets ids e = select_wallets ids d"
  by (simp only: select_wallets_def sees_rows [OF assms])

lemma set_select_wallets: "set (select_wallets ids d) = {w \<in> set (wallets d). w_ID w \<in> set ids}"
  by (auto simp: select_wallets_def)

lemma distinct_select_wallets: "db_ok d \<Longrightarrow> distinct (map w_ID (select_wallets ids d))"
  by (simp add: select_wallets_def map_sort_key distinct_map_filter db_ok_defs)

lemma advance_again:
  assumes sees: "sees d e C" and p: "disciplined p W R" and W: "W \<subseteq> set (owners d)"
    and R: "R \<subseteq> set (reserved_ids d)" and keys: "\<And>k. RecordKey k \<in> used d \<Longrightarrow> RecordKey k \<notin> C"
    and fresh: "set (wanted d p) \<inter> C = {}" and run: "advance d p = (p', ws)" and d: "db_ok d"
    and e: "db_ok e"
  shows "(\<exists>err. p' = Raise err) \<or> advance e p = (p', ws) \<and> wanted e p = wanted d p"
proof (cases p)
  case (FindRecord key user ep k)
  show ?thesis
  proof (cases "select_record key user ep d")
    case None
    with FindRecord p run show ?thesis by auto
  next
    case (Some r)
    then have "r \<in> set (idempotency_records d) \<and> idempotency_key_of r = (key, user, ep)"
      unfolding select_record_def by (auto dest: sql_first_Some simp: idempotency_key_of_def)
    then have "RecordKey (key, user, ep) \<in> used d" by force
    from select_record_again [OF sees keys [OF this]] FindRecord run show ?thesis by simp
  qed
next
  case (FindWallet user k)
  show ?thesis
  proof (cases "select_wallet user d")
    case None
    with FindWallet p run show ?thesis by auto
  next
    case (Some w)
    obtain w' where w': "select_wallet user e = Some w'" "w_ID w' = w_ID w"
      by (rule select_wallet_again [OF sees e Some])
    from p have "\<forall>w w'. w_ID w = w_ID w' \<longrightarrow> k (Some w) = k (Some w')"
      unfolding FindWallet disciplined.simps by (elim conjE)
    with w'(2) have "k (Some w') = k (Some w)" by blast
    with FindWallet Some w'(1) run show ?thesis by simp
  qed
next
  case (LockWallets ids k)
  show ?thesis
  proof (cases "w_ID ` set (select_wallets ids d) = set ids")
    case True
    then have "\<And>i. i \<in> set ids \<Longrightarrow> WalletRow i \<notin> C"
      using fresh LockWallets by (auto simp: image_iff)
    from select_wallets_again [OF sees this] LockWallets run show ?thesis by simp
  next
    case False
    then have "w_ID ` set (select_wallets ids d) \<subset> set ids" by (auto simp: set_select_wallets)
    moreover have "\<forall>ws. w_ID ` set ws \<subset> set ids \<and> distinct (map w_ID ws) \<longrightarrow> (\<exists>e. k ws = Raise e)"
      using p unfolding LockWallets disciplined.simps by (elim conjE)
    ultimately have "\<exists>e. k (select_wallets ids d) = Raise e"
      using distinct_select_wallets [OF d] by blast
    with LockWallets run show ?thesis by auto
  qed
next
  case (Write w k)
  show ?thesis
  proof (cases "sql_of w d")
    case (Inl code)
    with Write run show ?thesis by auto
  next
    case (Inr nd)
    then obtain n d' where sql: "sql_of w d = Inr (n, d')" by (cases nd) auto
    have own: "case w of
        SaveWallet x \<Rightarrow> (w_ID x, w_UserID x) \<in> set (owners d)
      | CompleteRecord i code body t \<Rightarrow> i \<in> fst ` set (reserved_ids d)
      | _ \<Rightarrow> True"
      using p W R unfolding Write disciplined.simps by (cases w) (simp_all only: sql_write.case | blast)+
    from sql_again [OF sees e sql _ own, of k] fresh Write obtain n' e'
      where n': "sql_of w e = Inr (n', e')" "n' = 0 \<longleftrightarrow> n = 0"
        "(\<forall>i code body t. w \<noteq> CompleteRecord i code body t) \<longrightarrow> n' = n" by auto
    have "k n' = k n"
    proof (cases "\<exists>i code body t. w = CompleteRecord i code body t")
      case True
      then obtain i code body t where w: "w = CompleteRecord i code body t" by blast
      from p have "\<forall>n n'. k n = k n'"
        unfolding Write disciplined.simps w sql_write.case by (elim conjE)
      then show ?thesis by blast
    qed (use n'(3) in simp)
    moreover have "wanted e p = wanted d p"
    proof (cases "\<exists>r. w = ReserveRecord r")
      case True
      then obtain r where r: "w = ReserveRecord r" ..
      have "RecordKey (idempotency_key_of r) \<notin> C" if "RecordKey (idempotency_key_of r) \<notin> used d"
        using fresh Write r that by simp
      with sees_same(3,4) [OF sees]
      have "RecordKey (idempotency_key_of r) \<in> used e \<longleftrightarrow> RecordKey (idempotency_key_of r) \<in> used d"
        by blast
      with Write r show ?thesis by simp
    next
      case False
      with Write show ?thesis by (cases w) simp_all
    qed
    ultimately show ?thesis using Write run sql n' by auto
  qed
qed (use run in auto)

end
