(* ===== verification/Solo.thy ===== *)
theory Solo
  imports Isolation
begin

text \<open>
  \<open>solo\<close> runs a session on tables nobody else changes, with the identifiers and times it draws and
  the locks it wants. A disciplined session that has run on some tables can be run again, with the
  same replies, on tables another session has committed to meanwhile (\<open>solo_again\<close>).
\<close>

section \<open>A session by itself\<close>

lemma sql_claims:
  "sql_of w d = Inr (n, d') \<Longrightarrow> n \<noteq> 0 \<Longrightarrow> claims w \<inter> used d = {}"
  by (cases w) (auto simp: insert_idempotency_on_conflict_def insert_transaction_def has_transaction_def
      insert_ledger_entries_def insert_audit_log_def insert_webhook_delivery_def split: if_splits)

definition owned_write ::
  "(uuid \<times> uuid) set \<Rightarrow> (uuid \<times> string \<times> uuid \<times> string) set \<Rightarrow> sql_write \<Rightarrow> bool" where
  "owned_write W R w \<longleftrightarrow> (case w of
     SaveWallet x \<Rightarrow> (w_ID x, w_UserID x) \<in> W
   | CompleteRecord i code body t \<Rightarrow> i \<in> fst ` R
   | _ \<Rightarrow> True)"

lemma disciplined_write:
  assumes p: "disciplined (Write w k) W R" and sql: "sql_of w d = Inr (n, d')"
    and R: "R \<subseteq> set (reserved_ids d)"
  obtains W' R' where "disciplined (k n) W' R'" and "W' \<subseteq> W"
    and "R' \<subseteq> set (reserved_ids d')"
    and "\<forall>i key. (i, key) \<in> R' \<longrightarrow> (i, key) \<in> R \<or> n \<noteq> 0 \<and> RecordKey key \<in> set (locks_of w)"
    and "owned_write W R w"
proof (cases "\<exists>r. w = ReserveRecord r")
  case True
  then obtain r where r: "w = ReserveRecord r" ..
  with p have k: "disciplined (k 0) {} {}" "disciplined (k 1) {} {(ir_ID r, idempotency_key_of r)}"
    by simp_all
  from sql r have n: "n = 0 \<or> n = 1 \<and> d' = effect w d"
    using sql_effect [OF sql] by (auto simp: insert_idempotency_on_conflict_def split: if_splits)
  show ?thesis
  proof (cases "n = 0")
    case True
    with k r show ?thesis by (intro that [of "{}" "{}"]) (simp_all add: owned_write_def)
  next
    case False
    with n k r show ?thesis
      by (intro that [of "{}" "{(ir_ID r, idempotency_key_of r)}"])
        (auto simp: owned_write_def reserved_ids_def)
  qed
next
  case False
  with p have "disciplined (k n) W R" "owned_write W R w"
    by (cases w; simp add: owned_write_def)+
  moreover have "set (reserved_ids d) \<subseteq> set (reserved_ids d')"
    using sql_effect [OF sql] by (simp add: reserved_ids_effect)
  ultimately show ?thesis using R by (intro that [of W R]) auto
qed

inductive solo ::
  "database \<Rightarrow> 'a prog \<Rightarrow> uuid list \<Rightarrow> time list \<Rightarrow> 'a prog \<Rightarrow> sql_write list \<Rightarrow> lock set \<Rightarrow> bool"
  for d p0 where
  begins: "solo d p0 [] [] p0 [] {}"
| draws: "solo d p0 us ts (NewUUID k) ws L \<Longrightarrow> solo d p0 (us @ [u]) ts (k u) ws L"
| reads_clock: "solo d p0 us ts (Now k) ws L \<Longrightarrow> solo d p0 us (ts @ [t]) (k t) ws L"
| executes: "solo d p0 us ts p ws L \<Longrightarrow> is_call p \<Longrightarrow> advance (overlay ws d) p = (p', ws') \<Longrightarrow>
    solo d p0 us ts p' (ws @ ws') (L \<union> set (wanted (overlay ws d) p))"

definition write_locks :: "sql_write list \<Rightarrow> lock set" where
  "write_locks ws = (\<Union>w \<in> set ws. set (locks_of w))"

lemma write_locks_simps [simp]:
  "write_locks [] = {}" "write_locks (ws @ ws') = write_locks ws \<union> write_locks ws'"
  "write_locks [w] = set (locks_of w)"
  by (auto simp: write_locks_def)

text \<open>What is known of a disciplined session on the way.\<close>

definition in_order :: "database \<Rightarrow> 'a prog \<Rightarrow> sql_write list \<Rightarrow> lock set \<Rightarrow> bool" where
  "in_order d p ws L \<longleftrightarrow> db_ok (overlay ws d) \<and> sees d (overlay ws d) (write_locks ws) \<and>
     owners (overlay ws d) = owners d \<and> write_locks ws \<subseteq> L \<and> (\<forall>w \<in> set ws. claims w \<inter> used d = {}) \<and>
     (\<exists>W R. disciplined p W R \<and> W \<subseteq> set (owners d) \<and> R \<subseteq> set (reserved_ids (overlay ws d)) \<and>
        (\<forall>i key. (i, key) \<in> R \<longrightarrow> RecordKey key \<in> write_locks ws) \<and> WalletRow ` fst ` W \<subseteq> L)"

lemma in_orderI:
  assumes "db_ok (overlay ws d)" and "sees d (overlay ws d) (write_locks ws)"
    and "owners (overlay ws d) = owners d"
    and "write_locks ws \<subseteq> L" and "\<forall>w \<in> set ws. claims w \<inter> used d = {}"
    and "disciplined p W R" and "W \<subseteq> set (owners d)" and "R \<subseteq> set (reserved_ids (overlay ws d))"
    and "\<forall>i key. (i, key) \<in> R \<longrightarrow> RecordKey key \<in> write_locks ws" and "WalletRow ` fst ` W \<subseteq> L"
  shows "in_order d p ws L"
proof -
  have "disciplined p W R \<and> W \<subseteq> set (owners d) \<and> R \<subseteq> set (reserved_ids (overlay ws d)) \<and>
    (\<forall>i key. (i, key) \<in> R \<longrightarrow> RecordKey key \<in> write_locks ws) \<and> WalletRow ` fst ` W \<subseteq> L"
    by (intro conjI assms)
  then show ?thesis
    unfolding in_order_def using assms(1-5) by blast
qed

lemma in_orderE:
  assumes "in_order d p ws L"
  obtains W R where "db_ok (overlay ws d)" and "sees d (overlay ws d) (write_locks ws)"
    and "owners (overlay ws d) = owners d" and "write_locks ws \<subseteq> L" and "\<forall>w \<in> set ws. claims w \<inter> used d = {}"
    and "disciplined p W R" and "W \<subseteq> set (owners d)" and "R \<subseteq> set (reserved_ids (overlay ws d))"
    and "\<forall>i key. (i, key) \<in> R \<longrightarrow> RecordKey key \<in> write_locks ws" and "WalletRow ` fst ` W \<subseteq> L"
  using assms unfolding in_order_def by (elim conjE exE) (rule that; assumption)

lemma in_order_write:
  assumes io: "in_order d (Write w k) ws L" and sql: "sql_of w (overlay ws d) = Inr (n, d')" and n: "n \<noteq> 0"
  shows "in_order d (k n) (ws @ [w]) (L \<union> set (wanted (overlay ws d) (Write w k)))"
proof -
  let ?V = "overlay ws d" and ?C = "write_locks ws \<union> set (locks_of w)"
  from io obtain W R where ok: "db_ok ?V" and sees: "sees d ?V (write_locks ws)"
    and same: "owners ?V = owners d" and L: "write_locks ws \<subseteq> L" and fresh: "\<forall>w \<in> set ws. claims w \<inter> used d = {}"
    and p: "disciplined (Write w k) W R" and W: "W \<subseteq> set (owners d)" and R: "R \<subseteq> set (reserved_ids ?V)"
    and keys: "\<forall>i key. (i, key) \<in> R \<longrightarrow> RecordKey key \<in> write_locks ws" and rows: "WalletRow ` fst ` W \<subseteq> L"
    by (rule in_orderE)
  from disciplined_write [OF p sql R] obtain W' R' where
    k: "disciplined (k n) W' R'" "W' \<subseteq> W" "R' \<subseteq> set (reserved_ids d')"
      "\<forall>i key. (i, key) \<in> R' \<longrightarrow> (i, key) \<in> R \<or> n \<noteq> 0 \<and> RecordKey key \<in> set (locks_of w)"
    and own: "owned_write W R w" .
  have d': "d' = effect w ?V" using sql_effect [OF sql] n by simp
  have wanted: "set (locks_of w) \<subseteq> set (wanted ?V (Write w k))"
    using sql n by (cases w) (auto simp: insert_idempotency_on_conflict_def split: if_splits)
  have "distinct (map ir_ID (idempotency_records ?V))" using ok by (simp add: db_ok_defs)
  then have one_key: "key' = key" if "(i, key) \<in> set (reserved_ids ?V)" "(i, key') \<in> set (reserved_ids ?V)" for i key key'
    using that by (auto simp: reserved_ids_def distinct_map dest: inj_onD)
  have "protected_by ?C ?V w"
  proof (cases w)
    case (SaveWallet x)
    with own W same show ?thesis by (auto simp: protected_by_def owned_write_def)
  next
    case (CompleteRecord i code body t)
    with own obtain key where "(i, key) \<in> R" by (auto simp: owned_write_def)
    with R keys have key: "(i, key) \<in> set (reserved_ids ?V)" "RecordKey key \<in> write_locks ws" by blast+
    then have "\<forall>k. (i, k) \<in> set (reserved_ids ?V) \<longrightarrow> RecordKey k \<in> ?C"
      using one_key [OF key(1)] by blast
    with CompleteRecord show ?thesis by (simp add: protected_by_def)
  qed (simp_all add: protected_by_def)
  from sees_effect [OF this ok] sees have "sees d (effect w ?V) ?C"
    by (auto intro: sees_trans [OF sees_mono])
  moreover have "owners (effect w ?V) = owners d"
  proof -
    have "case w of SaveWallet x \<Rightarrow> (w_ID x, w_UserID x) \<in> set (owners ?V) | _ \<Rightarrow> True"
      using own W same by (auto simp: owned_write_def split: sql_write.splits)
    with owners_effect [OF this] ok same show ?thesis by (simp add: db_ok_defs)
  qed
  moreover have "claims w \<inter> used d = {}"
    using sql_claims [OF sql n] sees_same(3) [OF sees] by blast
  ultimately show ?thesis
  proof (intro in_orderI [where W = W' and R = R'])
    show "\<forall>i key. (i, key) \<in> R' \<longrightarrow> RecordKey key \<in> write_locks (ws @ [w])"
      using k(4) keys unfolding write_locks_simps by blast
    show "WalletRow ` fst ` W' \<subseteq> L \<union> set (wanted ?V (Write w k))" using rows k(2) by blast
    show "write_locks (ws @ [w]) \<subseteq> L \<union> set (wanted ?V (Write w k))" using L wanted by auto
    show "W' \<subseteq> set (owners d)" using k(2) W by (rule order_trans)
  qed (use k fresh sql_ok [OF sql ok] d' in simp_all)
qed

lemma in_order_call:
  fixes p :: "'a prog"
  assumes io: "in_order d p ws L" and p: "is_call p" and run: "advance (overlay ws d) p = (p', ws')"
  shows "in_order d p' (ws @ ws') (L \<union> set (wanted (overlay ws d) p))"
proof -
  from io obtain W R where ok: "db_ok (overlay ws d)" and sees: "sees d (overlay ws d) (write_locks ws)"
    and same: "owners (overlay ws d) = owners d" and L: "write_locks ws \<subseteq> L" and fresh: "\<forall>w \<in> set ws. claims w \<inter> used d = {}"
    and dp: "disciplined p W R" and W: "W \<subseteq> set (owners d)"
    and R: "R \<subseteq> set (reserved_ids (overlay ws d))"
    and keys: "\<forall>i key. (i, key) \<in> R \<longrightarrow> RecordKey key \<in> write_locks ws" and rows: "WalletRow ` fst ` W \<subseteq> L"
    by (rule in_orderE)
  have more: "in_order d p'' ws (L \<union> L')" if "disciplined p'' W' R" "W' \<subseteq> set (owners d)"
    "WalletRow ` fst ` W' \<subseteq> L \<union> L'" for p'' :: "'a prog" and W' L'
    using ok sees same L fresh R keys that by (intro in_orderI [where W = W' and R = R]) auto
  have stay: "in_order d p'' ws L" if "disciplined p'' W R" for p'' :: "'a prog"
    using more [OF that W, of "{}"] rows by simp
  have stop: "in_order d (Raise e :: 'a prog) ws (L \<union> L')" for e L'
    using W rows by (intro more [where W' = W]) auto
  show ?thesis
  proof (cases p)
    case (LockWallets ids k)
    let ?rows = "select_wallets ids (overlay ws d)"
    show ?thesis
    proof (cases "w_ID ` set ?rows = set ids")
      case True
      have k: "\<forall>ws. w_ID ` set ws = set ids \<longrightarrow> disciplined (k ws) ((\<lambda>w. (w_ID w, w_UserID w)) ` set ws) R"
        using dp unfolding LockWallets disciplined.simps by (elim conjE)
      have "(\<lambda>w. (w_ID w, w_UserID w)) ` set ?rows \<subseteq> set (owners (overlay ws d))"
        by (auto simp: owners_def set_select_wallets)
      moreover have "disciplined (k ?rows) ((\<lambda>w. (w_ID w, w_UserID w)) ` set ?rows) R"
        using k True by blast
      ultimately have "in_order d (k ?rows) ws (L \<union> set (wanted (overlay ws d) p))"
        by (intro more [where W' = "(\<lambda>w. (w_ID w, w_UserID w)) ` set ?rows"])
          (auto simp: LockWallets image_image same)
      with LockWallets run show ?thesis by simp
    next
      case False
      then have "w_ID ` set ?rows \<subset> set ids" by (auto simp: set_select_wallets)
      then have short: "w_ID ` set ?rows \<subset> set ids \<and> distinct (map w_ID ?rows)"
        using distinct_select_wallets [OF ok] by (rule conjI)
      have "\<forall>ws. w_ID ` set ws \<subset> set ids \<and> distinct (map w_ID ws) \<longrightarrow> (\<exists>e. k ws = Raise e)"
        using dp unfolding LockWallets disciplined.simps by (elim conjE)
      from mp [OF spec [OF this] short] obtain e where "k ?rows = Raise e" by (rule exE)
      with LockWallets run have "p' = Raise e" "ws' = []" by simp_all
      with stop show ?thesis by simp
    qed
  next
    case (Write w k)
    show ?thesis
    proof (cases "sql_of w (overlay ws d)")
      case (Inl code)
      with Write run stop show ?thesis by auto
    next
      case (Inr nd)
      then obtain n d' where sql: "sql_of w (overlay ws d) = Inr (n, d')" by (cases nd) auto
      show ?thesis
      proof (cases "n = 0")
        case False
        with in_order_write [OF io [unfolded Write] sql] Write run sql show ?thesis by auto
      next
        case True
        from disciplined_write [OF dp [unfolded Write] sql R] obtain W' R'
          where k: "disciplined (k n) W' R'" "W' \<subseteq> W" "R' \<subseteq> set (reserved_ids d')"
            "\<forall>i key. (i, key) \<in> R' \<longrightarrow> (i, key) \<in> R \<or> n \<noteq> 0 \<and> RecordKey key \<in> set (locks_of w)" .
        have "in_order d (k n) ws (L \<union> set (wanted (overlay ws d) p))"
        proof (rule in_orderI [OF ok sees same _ fresh k(1)])
          show "write_locks ws \<subseteq> L \<union> set (wanted (overlay ws d) p)" using L by blast
          show "WalletRow ` fst ` W' \<subseteq> L \<union> set (wanted (overlay ws d) p)" using rows k(2) by blast
          show "\<forall>i key. (i, key) \<in> R' \<longrightarrow> RecordKey key \<in> write_locks ws"
            using k(4) keys True by blast
          show "R' \<subseteq> set (reserved_ids (overlay ws d))" using k(3) sql_effect [OF sql] True by simp
          show "W' \<subseteq> set (owners d)" using k(2) W by (rule order_trans)
        qed
        moreover have "p' = k n" "ws' = []" using Write run sql True by simp_all
        ultimately show ?thesis by simp
      qed
    qed
  qed (use p dp run in \<open>auto intro!: stay\<close>)
qed

lemma solo_in_order:
  assumes "solo d p0 us ts p ws L" and "disciplined p0 {} {}" and "db_ok d"
  shows "in_order d p ws L"
  using assms(1)
proof induction
  case begins
  show ?case using assms(2,3) by (intro in_orderI [where W = "{}" and R = "{}"]) (simp_all add: sees_refl)
next
  case (draws us ts k ws L u)
  then show ?case by (elim in_orderE) (rule in_orderI; (assumption | simp))
next
  case (reads_clock us ts k ws L t)
  then show ?case by (elim in_orderE) (rule in_orderI; (assumption | simp))
next
  case (executes us ts p ws L p' ws')
  show ?case by (rule in_order_call [OF executes.IH executes.hyps(2,3)])
qed

section \<open>A session again\<close>

lemma advance_writes:
  "advance d p = (p', ws) \<Longrightarrow> ws = [] \<or> (\<exists>w k. p = Write w k \<and> ws = [w])"
  by (cases p) (auto split: sum.splits if_splits)

lemma claims_write_locks: "w \<in> set ws \<Longrightarrow> claims w \<subseteq> write_locks ws"
  using claims_locks by (fastforce simp: write_locks_def)

lemma sees_overlay_snoc:
  assumes "sees (overlay ws d) (overlay ws e) C" and "db_ok (overlay ws d)" and "db_ok (overlay ws e)"
    and "disciplined p W R" and "W \<subseteq> set (owners (overlay ws d))"
    and "advance (overlay ws d) p = (p', ws')"
  shows "sees (overlay (ws @ ws') d) (overlay (ws @ ws') e) C"
proof -
  from advance_writes [OF assms(6)] show ?thesis
  proof
    assume "\<exists>w k. p = Write w k \<and> ws' = [w]"
    then obtain w k where w: "p = Write w k" "ws' = [w]" by blast
    have "case w of SaveWallet x \<Rightarrow> (w_ID x, w_UserID x) \<in> set (owners (overlay ws d)) | _ \<Rightarrow> True"
      using assms(4,5) by (cases w) (auto simp: w)
    from sees_effects [OF assms(1-3) this] w show ?thesis by simp
  qed (use assms(1) in simp)
qed

lemma solo_again:
  assumes "solo d p0 us ts p ws L" and p0: "disciplined p0 {} {}" and d: "db_ok d" "db_ok e"
    and sees: "sees d e C" and "L \<inter> C = {}" and keys: "\<And>k. RecordKey k \<in> C \<Longrightarrow> RecordKey k \<notin> used d"
  shows "(\<exists>err. p = Raise err) \<or>
    solo e p0 us ts p ws L \<and> sees (overlay ws d) (overlay ws e) C"
  using assms(1,6)
proof induction
  case begins
  then show ?case using sees by (simp add: solo.begins)
next
  case (draws us ts k ws L u)
  then show ?case by (auto intro: solo.draws)
next
  case (reads_clock us ts k ws L t)
  then show ?case by (auto intro: solo.reads_clock)
next
  case (executes us ts p ws L p' ws')
  let ?V = "overlay ws d" and ?V' = "overlay ws e"
  have IH: "solo e p0 us ts p ws L" "sees ?V ?V' C"
    using executes by (cases p; auto)+
  from solo_in_order [OF executes.hyps(1) p0 d(1)] obtain W R where ok: "db_ok ?V"
    and own: "owners ?V = owners d" and L: "write_locks ws \<subseteq> L" and p: "disciplined p W R"
    and W: "W \<subseteq> set (owners d)" and R: "R \<subseteq> set (reserved_ids ?V)" by (rule in_orderE)
  have ok': "db_ok ?V'"
    using solo_in_order [OF IH(1) p0 d(2)] by (simp add: in_order_def)
  have W': "W \<subseteq> set (owners ?V)" using W own by simp
  have "RecordKey k \<notin> C" if k: "RecordKey k \<in> used ?V" for k
  proof
    assume C: "RecordKey k \<in> C"
    with keys k obtain w where "w \<in> set ws" "RecordKey k \<in> claims w"
      unfolding used_overlay by blast
    with claims_write_locks L C executes.prems show False by blast
  qed
  moreover have "set (wanted ?V p) \<inter> C = {}" using executes.prems by blast
  ultimately have "(\<exists>err. p' = Raise err) \<or> advance ?V' p = (p', ws') \<and> wanted ?V' p = wanted ?V p"
    by (intro advance_again [OF IH(2) p W' R _ _ executes.hyps(3) ok ok'])
  then show ?case
  proof
    assume again: "advance ?V' p = (p', ws') \<and> wanted ?V' p = wanted ?V p"
    then have "solo e p0 us ts p' (ws @ ws') (L \<union> set (wanted ?V p))"
      using solo.executes [OF IH(1) executes.hyps(2)] by metis
    moreover have "sees (overlay (ws @ ws') d) (overlay (ws @ ws') e) C"
      by (rule sees_overlay_snoc [OF IH(2) ok ok' p W' executes.hyps(3)])
    ultimately show ?thesis by simp
  qed simp
qed

end
