(* ===== verification/Concurrency.thy ===== *)
theory Concurrency
  imports Solo
begin

text \<open>
  What holds of sessions that run at the same time: the committed tables and the answers are those
  of the same operations run one after the other, in the order of their commits, so that the books
  are right whatever the interleaving; and sessions never wait for each other in a circle.
\<close>

section \<open>A session by itself is the operation\<close>

definition at :: "world \<Rightarrow> database \<Rightarrow> nat \<Rightarrow> nat \<Rightarrow> nat \<Rightarrow> world" where
  "at w d nu nt ns = w\<lparr>db := d, n_uuid := nu, n_time := nt, n_sql := ns\<rparr>"

lemma at_simps [simp]:
  "db (at w d nu nt ns) = d" "n_uuid (at w d nu nt ns) = nu" "n_time (at w d nu nt ns) = nt"
  "n_sql (at w d nu nt ns) = ns" "sql_session (at w d nu nt ns) = sql_session w"
  "(at w d nu nt ns)\<lparr>n_uuid := nu'\<rparr> = at w d nu' nt ns"
  "(at w d nu nt ns)\<lparr>n_time := nt'\<rparr> = at w d nu nt' ns"
  "(at w d nu nt ns)\<lparr>n_sql := ns', db := d'\<rparr> = at w d' nu nt ns'"
  by (simp_all add: at_def)

lemma statement_at:
  assumes "sql_session w = InTx" and "no_faults env" and "q d = Inr (x, d')"
  shows "statement env q (at w d nu nt ns) = (Inr x, at w d' nu nt (Suc ns))"
  using assms by (simp add: statement_Inr live_def no_faults_def)

lemma query_at:
  assumes "sql_session w = InTx" and "no_faults env"
  shows "query env f (at w d nu nt ns) = (Inr (f d), at w d nu nt (Suc ns))"
  unfolding query_def by (rule statement_at [OF assms]) simp

lemma and_then_run:
  "m s = (Inr x, s') \<Longrightarrow> and_then m f s = f x s'"
  by (simp add: and_then_def)

text \<open>
  An environment that hands out the identifiers and times the session has drawn makes the
  uninterrupted program take the same way.
\<close>

lemma solo_run:
  assumes "solo d p0 us ts p ws L" and w: "sql_session w = InTx" and f: "no_faults env"
    and "\<And>i. i < length us \<Longrightarrow> uuid_New env i = us ! i"
    and "\<And>i. i < length ts \<Longrightarrow> time_Now env i = ts ! i"
  shows "(\<exists>e. p = Raise e) \<or>
    (\<exists>ns. run env p0 (at w d 0 0 n0) = run env p (at w (overlay ws d) (length us) (length ts) ns))"
  using assms(1,4,5)
proof induction
  case begins
  show ?case by auto
next
  case (draws us ts k ws L u)
  have us: "uuid_New env i = us ! i" if "i < length us" for i
    using draws.prems(1) [of i] that by (simp add: nth_append)
  from draws.IH [OF us draws.prems(2)] obtain ns
    where ns: "run env p0 (at w d 0 0 n0) = run env (NewUUID k) (at w (overlay ws d) (length us) (length ts) ns)"
    by auto
  have "uuid_New env (length us) = u"
    using draws.prems(1) [of "length us"] by simp
  then have "run env (NewUUID k) (at w (overlay ws d) (length us) (length ts) ns) =
      run env (k u) (at w (overlay ws d) (length (us @ [u])) (length ts) ns)"
    by (simp add: and_then_run new_uuid_def)
  with ns show ?case by auto
next
  case (reads_clock us ts k ws L t)
  have ts: "time_Now env i = ts ! i" if "i < length ts" for i
    using reads_clock.prems(2) [of i] that by (simp add: nth_append)
  from reads_clock.IH [OF reads_clock.prems(1) ts] obtain ns
    where ns: "run env p0 (at w d 0 0 n0) = run env (Now k) (at w (overlay ws d) (length us) (length ts) ns)"
    by auto
  have "time_Now env (length ts) = t"
    using reads_clock.prems(2) [of "length ts"] by simp
  then have "run env (Now k) (at w (overlay ws d) (length us) (length ts) ns) =
      run env (k t) (at w (overlay ws d) (length us) (length (ts @ [t])) ns)"
    by (simp add: and_then_run now_def)
  with ns show ?case by auto
next
  case (executes us ts p ws L p' ws')
  then obtain ns
    where ns: "run env p0 (at w d 0 0 n0) = run env p (at w (overlay ws d) (length us) (length ts) ns)"
    by (cases p) auto
  have "(\<exists>e. p' = Raise e) \<or> run env p (at w (overlay ws d) (length us) (length ts) ns) =
      run env p' (at w (overlay (ws @ ws') d) (length us) (length ts) (Suc ns))"
  proof (cases p)
    case (Write wr k)
    show ?thesis
    proof (cases "sql_of wr (overlay ws d)")
      case (Inl code)
      with Write executes.hyps(3) show ?thesis by auto
    next
      case (Inr nd)
      then obtain n d' where sql: "sql_of wr (overlay ws d) = Inr (n, d')" by (cases nd) auto
      with Write executes.hyps(3) sql_effect [OF sql] have "p' = k n" "d' = overlay (ws @ ws') d"
        by (auto split: if_splits)
      with Write show ?thesis
        by (simp add: and_then_def statement_at [where q = "sql_of wr", OF w f sql])
    qed
  qed (use executes.hyps(2,3) in \<open>auto simp: and_then_def query_at [OF w f]\<close>)
  with ns show ?case by metis
qed

lemma responses_cong:
  assumes "uuid_String env' = uuid_String env"
  shows "toTransactionResponse env' = toTransactionResponse env"
    and "toWalletResponse env' = toWalletResponse env"
    and "webhook_payload env' = webhook_payload env"
    and "session_LockByIDs env' = session_LockByIDs env"
  by ((rule ext)+, simp add: toTransactionResponse_def toWalletResponse_def webhook_payload_def
      session_LockByIDs_def assms)+

lemma session_cong:
  assumes "uuid_String env' = uuid_String env" and "uuid_Parse env' = uuid_Parse env"
  shows "session env' hooks m = session env hooks m"
proof -
  note same = responses_cong [OF assms(1)] assms
  have "session_CreateTopUpDelivery env' hooks t w = session_CreateTopUpDelivery env hooks t w"
    "session_CreateTransferDelivery env' hooks t w w' = session_CreateTransferDelivery env hooks t w w'" for t w w'
    by (simp_all add: session_CreateTopUpDelivery_def session_CreateTransferDelivery_def same split: option.split)
  then have deliveries: "session_CreateTopUpDelivery env' hooks = session_CreateTopUpDelivery env hooks"
    "session_CreateTransferDelivery env' hooks = session_CreateTransferDelivery env hooks"
    by (simp_all add: fun_eq_iff)
  have "session_topup_post env' hooks = session_topup_post env hooks"
    "session_transfer_post env' hooks = session_transfer_post env hooks"
    by (unfold session_topup_post_def session_transfer_post_def same deliveries) (rule refl)+
  then have "session_topup env' hooks = session_topup env hooks"
    "session_transfer env' hooks = session_transfer env hooks"
    by (unfold session_topup_def session_transfer_def same) (simp_all only:)
  then show ?thesis by (cases m) (simp_all add: same split: option.split)
qed

lemma solo_perform:
  assumes s: "session env hooks m = Inr p0" and solo: "solo d p0 us ts (Return (res, queued)) ws L"
  obtains env' w w' where "same_code env env'" and "db w = d"
    and "perform env' hooks m w = (Inr res, w')" and "db w' = overlay ws d"
proof -
  let ?env = "env\<lparr>uuid_New := (!) us, time_Now := (!) ts, sql_fault := (\<lambda>_. None)\<rparr>"
  let ?w = "initial_world\<lparr>db := d\<rparr>" and ?n = "configured_notifier ?env hooks"
  have f: "no_faults ?env" by (simp add: no_faults_def)
  have "session ?env hooks m = Inr p0" using session_cong [of ?env env] s by simp
  then have perform: "perform ?env hooks m = finish ?n (WithinTransaction ?env (run ?env p0))"
    by (simp add: perform_session)
  let ?w1 = "?w\<lparr>sql_session := InTx\<rparr>"
  from solo_run [OF solo _ f, of ?w1 1] obtain ns where "run ?env p0 (at ?w1 d 0 0 1) =
      run ?env (Return (res, queued)) (at ?w1 (overlay ws d) (length us) (length ts) ns)"
    by auto
  moreover have "at ?w1 d 0 0 1 = ?w\<lparr>n_sql := Suc (n_sql ?w), sql_session := InTx\<rparr>"
    by (simp add: at_def initial_world_def)
  ultimately have "run ?env p0 (?w\<lparr>n_sql := Suc (n_sql ?w), sql_session := InTx\<rparr>) =
      (Inr (res, queued), at ?w1 (overlay ws d) (length us) (length ts) ns)"
    by (simp add: ok_def)
  then have "\<exists>w2. WithinTransaction ?env (run ?env p0) ?w = (Inr (res, queued), w2) \<and> db w2 = overlay ws d"
    by (simp add: WithinTransaction_def sql_commit_def Let_def)
  then obtain w2 where w2: "WithinTransaction ?env (run ?env p0) ?w = (Inr (res, queued), w2)"
    "db w2 = overlay ws d" by blast
  show ?thesis
  proof (rule that)
    show "same_code env ?env" by (auto simp: same_code_def)
    show "perform ?env hooks m ?w =
        (Inr res, case queued of None \<Rightarrow> w2 | Some i \<Rightarrow> Enqueue ?n i w2)"
      unfolding perform finish_def by (simp add: w2(1))
    show "db (case queued of None \<Rightarrow> w2 | Some i \<Rightarrow> Enqueue ?n i w2) = overlay ws d"
      using webhook_notifier.enqueue_touches(1) [OF configured_notifier_ok] w2(2)
      by (simp split: option.split)
  qed simp
qed

section \<open>Every interleaving is as good as an order\<close>

text \<open>
  What holds of a cluster: every session that has not failed could have done all it did alone, on
  the tables as they are committed now, and no two sessions hold the same lock.
\<close>

definition alone :: "env \<Rightarrow> WebhookConfig option \<Rightarrow> cluster \<Rightarrow> tx \<Rightarrow> bool" where
  "alone env hooks s x \<longleftrightarrow> (\<exists>p0. session env hooks (tx_movement x) = Inr p0 \<and>
     ((\<exists>e. tx_prog x = Raise e) \<or>
      (\<exists>us ts L. solo (committed s) p0 us ts (tx_prog x) (tx_writes x) L \<and> L \<subseteq> tx_locks x)))"

definition exclusive :: "cluster \<Rightarrow> bool" where
  "exclusive s \<longleftrightarrow> (\<forall>i j x y. i \<noteq> j \<longrightarrow> sessions s i = Some x \<longrightarrow> sessions s j = Some y \<longrightarrow>
     tx_locks x \<inter> tx_locks y = {})"

definition cluster_ok :: "env \<Rightarrow> WebhookConfig option \<Rightarrow> database \<Rightarrow> cluster \<Rightarrow> bool" where
  "cluster_ok env hooks d s \<longleftrightarrow> db_ok (committed s) \<and> serial env hooks d (history s) (committed s) \<and>
     exclusive s \<and> (\<forall>i x. sessions s i = Some x \<longrightarrow> alone env hooks s x)"

lemma cluster_fields [simp]:
  "committed (put i x s) = committed s" "history (put i x s) = history s"
  "sessions (put i x s) j = (if j = i then Some x else sessions s j)"
  "committed (ends i s) = committed s" "history (ends i s) = history s"
  "sessions (ends i s) j = (if j = i then None else sessions s j)"
  by (simp_all add: put_def ends_def)

lemma alone_committed: "committed s' = committed s \<Longrightarrow> alone env hooks s' x = alone env hooks s x"
  by (simp add: alone_def)

lemma cluster_ok_put:
  assumes "cluster_ok env hooks d s" and "alone env hooks s x" and "committed s' = committed s"
    and "history s' = history s" and "sessions s' = (sessions s)(i \<mapsto> x)"
    and "\<And>l. l \<in> tx_locks x \<Longrightarrow> \<not> held_by_other s i l"
  shows "cluster_ok env hooks d s'"
proof -
  have others: "tx_locks x \<inter> tx_locks y = {}" if "sessions s j = Some y" "j \<noteq> i" for j y
    using assms(6) that unfolding held_by_other_def by blast
  have "exclusive s" using assms(1) by (simp add: cluster_ok_def)
  then have "exclusive s'"
    unfolding exclusive_def assms(5) using others by (auto simp: Int_commute)
  with assms(1-5) show ?thesis
    unfolding cluster_ok_def by (auto simp: alone_committed [OF assms(3)])
qed

lemma cluster_ok_ends:
  assumes "cluster_ok env hooks d s"
  shows "cluster_ok env hooks d (ends i s)"
  using assms unfolding cluster_ok_def exclusive_def
  by (auto simp: alone_committed [of "ends i s" s] split: if_splits)

lemma cluster_ok_start: "db_ok (db w) \<Longrightarrow> cluster_ok env hooks (db w) (cluster_start w)"
  by (simp add: cluster_ok_def cluster_start_def exclusive_def serial.none)

lemma own_locks:
  "cluster_ok env hooks d s \<Longrightarrow> sessions s i = Some x \<Longrightarrow> l \<in> tx_locks x \<Longrightarrow> \<not> held_by_other s i l"
  unfolding cluster_ok_def exclusive_def held_by_other_def by blast

lemma next_lock_None: "next_lock s x = None \<Longrightarrow> set (wanted (visible s x) (tx_prog x)) \<subseteq> tx_locks x"
  by (auto simp: next_lock_def find_None_iff)

text \<open>A session could have done the same on tables that differ in what it has not locked.\<close>

lemma alone_later:
  assumes "alone env hooks s x" and "db_ok (committed s)" and "db_ok e" and "committed s' = e"
    and "sees (committed s) e C" and "\<And>k. RecordKey k \<in> C \<Longrightarrow> RecordKey k \<notin> used (committed s)"
    and "tx_locks x \<inter> C = {}"
  shows "alone env hooks s' x"
proof -
  from assms(1) obtain p0 where p0: "session env hooks (tx_movement x) = Inr p0"
    and run: "(\<exists>e. tx_prog x = Raise e) \<or>
      (\<exists>us ts L. solo (committed s) p0 us ts (tx_prog x) (tx_writes x) L \<and> L \<subseteq> tx_locks x)"
    unfolding alone_def by blast
  from run show ?thesis
  proof (elim disjE exE conjE)
    fix us ts L assume solo: "solo (committed s) p0 us ts (tx_prog x) (tx_writes x) L" and L: "L \<subseteq> tx_locks x"
    have "L \<inter> C = {}" using L assms(7) by blast
    from solo_again [OF solo disciplined_session [OF p0] assms(2,3,5) this assms(6)] L p0 assms(4)
    show ?thesis unfolding alone_def by blast
  qed (use p0 in \<open>auto simp: alone_def\<close>)
qed

text \<open>A commit is another step of the serial run, and leaves the other sessions undisturbed.\<close>

lemma locked_key_claimed: "RecordKey k \<in> set (locks_of w) \<Longrightarrow> RecordKey k \<in> claims w"
  by (cases w) auto

lemma cluster_ok_commit:
  assumes ok: "cluster_ok env hooks d s" and x: "sessions s i = Some x"
    and p: "tx_prog x = Return (res, queued)"
  shows "cluster_ok env hooks d (ends i (s\<lparr>committed := visible s x,
    history := history s @ [(tx_movement x, res)]\<rparr>))" (is "cluster_ok env hooks d ?s'")
proof -
  from ok x p obtain p0 us ts L where s: "session env hooks (tx_movement x) = Inr p0"
    and solo: "solo (committed s) p0 us ts (Return (res, queued)) (tx_writes x) L" and L: "L \<subseteq> tx_locks x"
    unfolding cluster_ok_def alone_def by fastforce
  have d: "db_ok (committed s)" using ok by (simp add: cluster_ok_def)
  from solo_in_order [OF solo disciplined_session [OF s] d]
  have d': "db_ok (visible s x)" and sees: "sees (committed s) (visible s x) (write_locks (tx_writes x))"
    and locks: "write_locks (tx_writes x) \<subseteq> tx_locks x"
    and fresh: "\<forall>w \<in> set (tx_writes x). claims w \<inter> used (committed s) = {}"
    using L by (auto simp: in_order_def visible_def)
  from solo_perform [OF s solo] obtain env' w w' where w: "same_code env env'" "db w = committed s"
    "perform env' hooks (tx_movement x) w = (Inr res, w')" "db w' = visible s x"
    unfolding visible_def by blast
  have serial: "serial env hooks d (history s @ [(tx_movement x, res)]) (visible s x)"
    using serial.one_more [of env hooks d "history s" w env' "tx_movement x" res w'] ok w
    by (simp add: cluster_ok_def)
  have keys: "RecordKey k \<notin> used (committed s)" if "RecordKey k \<in> write_locks (tx_writes x)" for k
  proof -
    from that obtain w where "w \<in> set (tx_writes x)" "RecordKey k \<in> set (locks_of w)"
      by (auto simp: write_locks_def)
    with fresh locked_key_claimed show ?thesis by blast
  qed
  have "alone env hooks ?s' y" if y: "sessions s j = Some y" "j \<noteq> i" for j y
  proof (rule alone_later [OF _ d d' _ sees keys])
    show "alone env hooks s y" using ok y by (simp add: cluster_ok_def)
    have "tx_locks x \<inter> tx_locks y = {}"
      using ok x y unfolding cluster_ok_def exclusive_def by blast
    with locks show "tx_locks y \<inter> write_locks (tx_writes x) = {}" by blast
  qed simp
  with ok d' serial show ?thesis
    unfolding cluster_ok_def exclusive_def by (auto split: if_splits)
qed

lemma alone_put:
  assumes "alone env hooks s x" and "\<And>e. tx_prog x \<noteq> Raise e"
    and "\<And>p0 us ts L. session env hooks (tx_movement x) = Inr p0 \<Longrightarrow>
      solo (committed s) p0 us ts (tx_prog x) (tx_writes x) L \<Longrightarrow> L \<subseteq> tx_locks x \<Longrightarrow>
      \<exists>us ts L. solo (committed s) p0 us ts (tx_prog x') (tx_writes x') L \<and> L \<subseteq> tx_locks x'"
    and "tx_movement x' = tx_movement x"
  shows "alone env hooks s x'"
  using assms unfolding alone_def by fastforce

lemma cluster_ok_go_on:
  assumes "go_on env i s s'" and ok: "cluster_ok env hooks d s"
  shows "cluster_ok env hooks d s'"
  using assms(1)
proof cases
  case (draw x k)
  have "alone env hooks s x" using ok draw by (simp add: cluster_ok_def)
  then have "alone env hooks s (x\<lparr>tx_prog := k (uuid_New env (uuids_drawn s))\<rparr>)"
    by (rule alone_put) (use draw in \<open>auto intro: solo.draws\<close>)
  then show ?thesis
    unfolding draw(1) by (rule cluster_ok_put [OF ok]) (use own_locks [OF ok draw(2)] in \<open>auto simp: put_def\<close>)
next
  case (read_clock x k)
  have "alone env hooks s x" using ok read_clock by (simp add: cluster_ok_def)
  then have "alone env hooks s (x\<lparr>tx_prog := k (time_Now env (clock_readings s))\<rparr>)"
    by (rule alone_put) (use read_clock in \<open>auto intro: solo.reads_clock\<close>)
  then show ?thesis
    unfolding read_clock(1)
    by (rule cluster_ok_put [OF ok]) (use own_locks [OF ok read_clock(2)] in \<open>auto simp: put_def\<close>)
next
  case (acquire x l)
  have x: "alone env hooks s x" using ok acquire by (simp add: cluster_ok_def)
  then have "alone env hooks s (x\<lparr>tx_locks := insert l (tx_locks x)\<rparr>)"
    unfolding alone_def by fastforce
  then show ?thesis
    unfolding acquire(1)
    by (rule cluster_ok_put [OF ok]) (use own_locks [OF ok acquire(2)] acquire in \<open>auto simp: put_def\<close>)
next
  case (execute x p ws)
  have "alone env hooks s x" using ok execute by (simp add: cluster_ok_def)
  then have "alone env hooks s (x\<lparr>tx_prog := p, tx_writes := tx_writes x @ ws\<rparr>)"
  proof (rule alone_put)
    fix p0 us ts L
    assume "solo (committed s) p0 us ts (tx_prog x) (tx_writes x) L" and "L \<subseteq> tx_locks x"
    with solo.executes execute(3,5) next_lock_None [OF execute(4)]
    show "\<exists>us ts L. solo (committed s) p0 us ts (tx_prog (x\<lparr>tx_prog := p, tx_writes := tx_writes x @ ws\<rparr>))
        (tx_writes (x\<lparr>tx_prog := p, tx_writes := tx_writes x @ ws\<rparr>)) L \<and>
        L \<subseteq> tx_locks (x\<lparr>tx_prog := p, tx_writes := tx_writes x @ ws\<rparr>)"
      by (fastforce simp: visible_def)
  qed (use execute(3) in auto)
  then show ?thesis
    unfolding execute(1)
    by (rule cluster_ok_put [OF ok]) (use own_locks [OF ok execute(2)] in \<open>auto simp: put_def\<close>)
next
  case (commit x res queued)
  then show ?thesis using cluster_ok_commit [OF ok] by simp
next
  case (roll_back x e)
  then show ?thesis using cluster_ok_ends [OF ok] by simp
qed

text \<open>Other work and registrations change nothing a session depends on.\<close>

lemma other_work_used:
  assumes "other_work d e"
  shows "used d \<subseteq> used e" and "used e \<subseteq> used d \<union> new_locks d e"
proof -
  let ?ids = "\<lambda>d. map (\<lambda>v. (wd_ID v, wd_TransactionID v)) (webhook_deliveries d)"
  have "?ids e = ?ids d" using assms by (simp add: other_work_def)
  then have "set (map (\<lambda>p. DeliveryID (fst p)) (?ids e)) = set (map (\<lambda>p. DeliveryID (fst p)) (?ids d))"
    by (simp only:)
  then have "(\<lambda>v. DeliveryID (wd_ID v)) ` set (webhook_deliveries e) =
      (\<lambda>v. DeliveryID (wd_ID v)) ` set (webhook_deliveries d)"
    by (simp add: image_image)
  with assms show "used d \<subseteq> used e" "used e \<subseteq> used d \<union> new_locks d e"
    by (auto simp: used_def other_work_def new_locks_def)
qed

lemma other_work_sees:
  assumes "other_work d e"
  shows "sees d e (new_locks d e)"
  by (rule seesI) (use assms other_work_used [OF assms] in
    \<open>auto simp: other_work_def owners_def reserved_ids_def has_user_def\<close>)

lemma registered_sees:
  assumes "registered user d e"
  shows "sees d e (new_locks d e)"
proof -
  from assms obtain u v a where e: "users e = users d @ [u]" "wallets e = wallets d @ [v]"
      "transactions e = transactions d" "ledger_entries e = ledger_entries d"
      "idempotency_records e = idempotency_records d" "webhook_deliveries e = webhook_deliveries d"
      "audit_logs e = audit_logs d @ [a]" and v: "\<not> has_wallet d (w_ID v)"
    unfolding registered_def by blast
  have "WalletRow (w_ID v) \<in> new_locks d e"
    using e(2) v by (auto simp: new_locks_def has_wallet_def)
  then have rows: "filter (\<lambda>w. w_ID w \<in> S) (wallets e) = filter (\<lambda>w. w_ID w \<in> S) (wallets d)"
    if "\<And>i. i \<in> S \<Longrightarrow> WalletRow i \<notin> new_locks d e" for S
    using that e(2) by auto
  have "used d \<subseteq> used e" "used e \<subseteq> used d \<union> new_locks d e"
    using e by (auto simp: used_def new_locks_def)
  then show ?thesis
    by (rule seesI [rotated 2]) (use e rows in \<open>auto simp: owners_def reserved_ids_def has_user_def\<close>)
qed

lemma beside_work_sees: "beside_work d e \<Longrightarrow> sees d e (new_locks d e)"
  using other_work_sees registered_sees unfolding beside_work_def by blast

lemma beside_work_ok: "beside_work d e \<Longrightarrow> db_ok e"
  by (auto simp: beside_work_def other_work_def)

lemma cluster_ok_others:
  assumes ok: "cluster_ok env hooks d s" and work: "beside_work (committed s) e"
    and free: "\<And>i x. sessions s i = Some x \<Longrightarrow> tx_locks x \<inter> new_locks (committed s) e = {}"
  shows "cluster_ok env hooks d (s\<lparr>committed := e\<rparr>)"
proof -
  have d: "db_ok (committed s)" "db_ok e" using ok beside_work_ok [OF work] by (simp_all add: cluster_ok_def)
  have "alone env hooks (s\<lparr>committed := e\<rparr>) x" if x: "sessions s i = Some x" for i x
  proof (rule alone_later [OF _ d _ beside_work_sees [OF work] _ free [OF x]])
    show "alone env hooks s x" using ok x by (simp add: cluster_ok_def)
  qed (auto simp: new_locks_def)
  with ok d(2) serial.others [OF _ work] show ?thesis
    by (auto simp: cluster_ok_def exclusive_def)
qed

lemma cluster_ok_step:
  assumes "cluster_step env hooks s s'" and ok: "cluster_ok env hooks d s"
  shows "cluster_ok env hooks d s'"
  using assms(1)
proof cases
  case (begins i m p)
  let ?x = "\<lparr>tx_movement = m, tx_prog = p, tx_writes = [], tx_locks = {}\<rparr>"
  have "alone env hooks s ?x"
    using begins(3) solo.begins [of "committed s" p] by (auto simp: alone_def)
  then show ?thesis
    unfolding begins(1) by (rule cluster_ok_put [OF ok]) (auto simp: put_def)
next
  case (goes_on i)
  then show ?thesis by (rule cluster_ok_go_on [OF _ ok])
next
  case (breaks_off i x)
  then show ?thesis using cluster_ok_ends [OF ok] by simp
next
  case (others_work e)
  show ?thesis unfolding others_work(1) by (rule cluster_ok_others [OF ok others_work(2,3)])
qed

lemma cluster_reachable_ok:
  "cluster_reachable env hooks w s \<Longrightarrow> db_ok (db w) \<Longrightarrow> cluster_ok env hooks (db w) s"
  by (induction rule: cluster_reachable.induct) (auto intro: cluster_ok_start cluster_ok_step)

section \<open>The books\<close>

lemma perform_balanced:
  assumes run: "perform env hooks m w = (r, w')" and w: "balanced (db w)"
  shows "balanced (db w')"
proof (cases m)
  case (MTopUp req)
  have "db_ok (db w)" using w by (simp add: balanced_def)
  from configured_notifier_ok this run [unfolded MTopUp perform.simps] show ?thesis
    by (cases rule: TopUp_cases) (use w balanced_topup in auto)
next
  case (MTransfer req)
  have "db_ok (db w)" using w by (simp add: balanced_def)
  from configured_notifier_ok this run [unfolded MTransfer perform.simps] show ?thesis
    by (cases rule: Transfer_cases) (use w balanced_transfer in auto)
qed

lemma registered_balanced:
  assumes r: "registered user d e" and d: "balanced d" and e: "db_ok e"
  shows "balanced e"
proof -
  have "db_ok d" "books_ok d" using d by (simp_all add: balanced_def)
  with r obtain v where "books_ok e" "total_balance e = total_balance d" by (rule registered_effect)
  moreover from r have "transactions e = transactions d" "idempotency_records e = idempotency_records d"
    by (auto simp: registered_def)
  ultimately show ?thesis using d e by (simp add: balanced_def keys_ok_def)
qed

lemma other_work_balanced: "other_work d e \<Longrightarrow> balanced d \<Longrightarrow> balanced e"
  by (auto simp: other_work_def balanced_def books_ok_def keys_ok_def total_balance_def)

lemma beside_work_balanced: "beside_work d e \<Longrightarrow> balanced d \<Longrightarrow> balanced e"
  unfolding beside_work_def by (auto intro: registered_balanced other_work_balanced)

lemma serial_balanced: "serial env hooks d h d' \<Longrightarrow> balanced d \<Longrightarrow> balanced d'"
  by (induction rule: serial.induct) (auto dest: perform_balanced beside_work_balanced)

end
