(* ===== verification/Waiting.thy ===== *)
theory Waiting
  imports Concurrency
begin

text \<open>
  Sessions never wait for each other in a circle. The key is reserved first, when nothing else is
  locked, and the wallets are locked in the order of their identifiers; so among the wallets
  waited for, whoever holds the last one can go on. Beyond that, a session waits only when a
  generated identifier collides with that of another session.
\<close>

section \<open>The reservation comes first\<close>

primrec reserves :: "'a prog \<Rightarrow> bool" where
  "reserves (Return x) = False"
| "reserves (Raise e) = False"
| "reserves (NewUUID k) = (\<exists>i. reserves (k i))"
| "reserves (Now k) = (\<exists>t. reserves (k t))"
| "reserves (FindRecord key user ep k) = (\<exists>r. reserves (k r))"
| "reserves (FindWallet user k) = (\<exists>w. reserves (k w))"
| "reserves (LockWallets ids k) = (\<exists>ws. reserves (k ws))"
| "reserves (Write w k) = ((\<exists>r. w = ReserveRecord r) \<or> (\<exists>n. reserves (k n)))"

primrec reserves_first :: "'a prog \<Rightarrow> bool" where
  "reserves_first (Return x) = True"
| "reserves_first (Raise e) = True"
| "reserves_first (NewUUID k) = (\<forall>i. reserves_first (k i))"
| "reserves_first (Now k) = (\<forall>t. reserves_first (k t))"
| "reserves_first (FindRecord key user ep k) = (\<forall>r. \<not> reserves (k r))"
| "reserves_first (FindWallet user k) = (\<forall>w. \<not> reserves (k w))"
| "reserves_first (LockWallets ids k) = (\<forall>ws. \<not> reserves (k ws))"
| "reserves_first (Write w k) = (\<forall>n. \<not> reserves (k n))"

lemma reserves_bind:
  "(\<And>x. \<not> reserves (f x)) \<Longrightarrow> reserves (bind_prog p f) \<Longrightarrow> reserves p"
  by (induction p) auto

lemma posts_reserve_nothing:
  "\<not> reserves (session_topup_post env hooks req user i w)"
  "\<not> reserves (session_transfer_post env hooks treq user i w w')"
  by (auto simp: session_defs Let_def split: option.split)

lemma not_reserves: "\<not> reserves_first p \<Longrightarrow> reserves p"
  by (induction p) auto

lemma session_reserves_first:
  assumes "session env hooks m = Inr p"
  shows "reserves_first p"
proof -
  have "reserves_first (session_topup env hooks req user)" for req user
    unfolding session_topup_def session_reserve_or_replay_def session_replay_def session_Reserve_def
      session_Get_def session_GetByUserID_def session_LockByIDs_def found_def Let_def
    by (auto simp: posts_reserve_nothing split: option.splits list.splits if_splits)
  moreover have "reserves_first (session_transfer env hooks req user i)" for req user i
    unfolding session_transfer_def session_reserve_or_replay_def session_replay_def session_Reserve_def
      session_Get_def session_GetByUserID_def session_LockByIDs_def found_def Let_def
    by (auto simp: posts_reserve_nothing split: option.splits list.splits if_splits)
  ultimately show ?thesis
    using assms by (cases m) (auto split: if_splits option.splits)
qed

lemma reserves_first_advance:
  "reserves_first p \<Longrightarrow> is_call p \<Longrightarrow> advance d p = (p', ws) \<Longrightarrow> \<not> reserves p'"
  by (cases p) (auto split: sum.splits)

lemma disciplined_next:
  "disciplined (Write w k) W R \<Longrightarrow> sql_of w d = Inr (n, d') \<Longrightarrow> \<exists>R'. disciplined (k n) W R'"
  by (cases w) (auto simp: insert_idempotency_on_conflict_def split: if_splits)

section \<open>What a session holds\<close>

text \<open>The wallets a statement locks, in the order in which it locks them.\<close>

definition wallets_to_lock :: "uuid list \<Rightarrow> database \<Rightarrow> uuid list" where
  "wallets_to_lock ids d = sort (filter (\<lambda>i. i \<in> set ids) (map fst (owners d)))"

lemma wanted_LockWallets: "wanted d (LockWallets ids k) = map WalletRow (wallets_to_lock ids d)"
proof -
  have "map w_ID (select_wallets ids d) = wallets_to_lock ids d"
    by (simp add: select_wallets_def map_sort_key wallets_to_lock_def owners_def filter_map comp_def)
  then have "map WalletRow (map w_ID (select_wallets ids d)) = map WalletRow (wallets_to_lock ids d)"
    by simp
  then show ?thesis by (simp add: comp_def)
qed

text \<open>Nothing yet, or locks for the reservation the session is at.\<close>

definition at_reservation :: "tx \<Rightarrow> bool" where
  "at_reservation x \<longleftrightarrow> tx_locks x = {} \<or>
     (\<exists>r k. tx_prog x = Write (ReserveRecord r) k \<and>
        tx_locks x \<subseteq> {RecordKey (idempotency_key_of r), RecordID (ir_ID r)})"

text \<open>In the middle of a locking statement: the wallets up to \<open>m\<close>.\<close>

definition locked_up_to :: "database \<Rightarrow> tx \<Rightarrow> uuid \<Rightarrow> bool" where
  "locked_up_to d x m \<longleftrightarrow> (\<exists>ids k. tx_prog x = LockWallets ids k \<and> m \<in> set (wallets_to_lock ids d) \<and>
     (\<forall>m' \<in> set (wallets_to_lock ids d). m' \<le> m \<longrightarrow> WalletRow m' \<in> tx_locks x))"

definition holds_wallets :: "database \<Rightarrow> tx \<Rightarrow> uuid set \<Rightarrow> bool" where
  "holds_wallets d x I \<longleftrightarrow> WalletRow ` I \<subseteq> tx_locks x \<and>
     (\<forall>m. WalletRow m \<in> tx_locks x \<longrightarrow> m \<in> I \<or> locked_up_to d x m)"

definition well_held :: "database \<Rightarrow> tx \<Rightarrow> bool" where
  "well_held d x \<longleftrightarrow> (reserves (tx_prog x) \<longrightarrow> reserves_first (tx_prog x) \<and> at_reservation x) \<and>
     (\<exists>W R. disciplined (tx_prog x) W R \<and> holds_wallets d x (fst ` W))"

lemma sorted_find:
  assumes "sorted xs" and "find (\<lambda>x. \<not> P x) xs = Some x" and "y \<in> set xs" and "y < x"
  shows "P y"
  using assms by (induction xs) (auto split: if_splits)

lemma next_lock_Some:
  "next_lock s x = Some l \<Longrightarrow> l \<in> set (wanted (visible s x) (tx_prog x)) \<and> l \<notin> tx_locks x"
  by (auto simp: next_lock_def find_Some_iff)

lemma next_wallet:
  assumes "next_lock s x = Some (WalletRow m)" and p: "tx_prog x = LockWallets ids k"
    and own: "owners (visible s x) = owners d"
  shows "m \<in> set (wallets_to_lock ids d)"
    and "m' \<in> set (wallets_to_lock ids d) \<Longrightarrow> m' < m \<Longrightarrow> WalletRow m' \<in> tx_locks x"
proof -
  have to_lock: "wallets_to_lock ids (visible s x) = wallets_to_lock ids d"
    by (simp add: wallets_to_lock_def own)
  have "find (\<lambda>i. WalletRow i \<notin> tx_locks x) (wallets_to_lock ids d) = Some m"
    using assms(1) unfolding next_lock_def p wanted_LockWallets to_lock
    by (auto simp: find_Some_iff)
  moreover have sorted: "sorted (wallets_to_lock ids d)" by (simp add: wallets_to_lock_def)
  ultimately show "m \<in> set (wallets_to_lock ids d)"
    and "m' \<in> set (wallets_to_lock ids d) \<Longrightarrow> m' < m \<Longrightarrow> WalletRow m' \<in> tx_locks x"
    using sorted_find [of "wallets_to_lock ids d" "\<lambda>i. WalletRow i \<in> tx_locks x" m m'] sorted
    by (auto simp: find_Some_iff)
qed

lemma wallet_wanted:
  assumes "WalletRow m \<in> set (wanted d p)"
  shows "(\<exists>ids k. p = LockWallets ids k) \<or> (\<exists>v k. p = Write (SaveWallet v) k \<and> m = w_ID v)"
proof (cases p)
  case (Write w k)
  with assms show ?thesis by (cases w) (auto split: if_splits)
qed (use assms in auto)

lemma key_wanted:
  assumes "RecordKey key \<in> set (wanted d p)"
  shows "\<exists>r k. p = Write (ReserveRecord r) k \<and> key = idempotency_key_of r"
proof (cases p)
  case (Write w k)
  with assms show ?thesis by (cases w) (auto split: if_splits)
qed (use assms in auto)

text \<open>Each step keeps it.\<close>

lemma well_held_quiet:
  assumes x: "well_held d x" and p: "\<not> is_call (tx_prog x)"
    and k: "\<And>W R. disciplined (tx_prog x) W R \<Longrightarrow> disciplined p' W R"
    and r: "reserves p' \<Longrightarrow> reserves (tx_prog x)" "reserves_first (tx_prog x) \<Longrightarrow> reserves_first p'"
  shows "well_held d (x\<lparr>tx_prog := p'\<rparr>)"
proof -
  from x obtain W R where W: "disciplined (tx_prog x) W R" "holds_wallets d x (fst ` W)"
    unfolding well_held_def by blast
  have "\<not> locked_up_to d x m" for m using p by (auto simp: locked_up_to_def)
  with W(2) have "holds_wallets d (x\<lparr>tx_prog := p'\<rparr>) (fst ` W)"
    by (simp add: holds_wallets_def)
  moreover have "at_reservation (x\<lparr>tx_prog := p'\<rparr>)" if "at_reservation x"
    using that p by (auto simp: at_reservation_def)
  ultimately show ?thesis
    using x k [OF W(1)] r unfolding well_held_def by auto
qed

lemma well_held_acquire:
  assumes x: "well_held d x" and l: "next_lock s x = Some l" and own: "owners (visible s x) = owners d"
  shows "well_held d (x\<lparr>tx_locks := insert l (tx_locks x)\<rparr>)" (is "well_held d ?x'")
proof -
  from x obtain W R where W: "disciplined (tx_prog x) W R" "holds_wallets d x (fst ` W)"
    unfolding well_held_def by blast
  have wanted: "l \<in> set (wanted (visible s x) (tx_prog x))" "l \<notin> tx_locks x"
    using next_lock_Some [OF l] by simp_all
  have "at_reservation ?x'" if at: "reserves (tx_prog x)" "reserves_first (tx_prog x)" "at_reservation x"
  proof -
    have "is_call (tx_prog x)" using wanted(1) by (cases "tx_prog x") auto
    then obtain r k where "tx_prog x = Write (ReserveRecord r) k"
      using at(1,2) by (cases "tx_prog x") auto
    with wanted(1) at(3) show ?thesis by (auto simp: at_reservation_def split: if_splits)
  qed
  moreover have "holds_wallets d ?x' (fst ` W)"
    unfolding holds_wallets_def
  proof (intro conjI allI impI)
    show "WalletRow ` fst ` W \<subseteq> tx_locks ?x'" using W(2) by (auto simp: holds_wallets_def)
    fix m assume m: "WalletRow m \<in> tx_locks ?x'"
    show "m \<in> fst ` W \<or> locked_up_to d ?x' m"
    proof (cases "WalletRow m \<in> tx_locks x")
      case True
      with W(2) show ?thesis by (auto simp: holds_wallets_def locked_up_to_def)
    next
      case False
      with m have l': "l = WalletRow m" by simp
      from wallet_wanted [OF wanted(1) [unfolded l']] show ?thesis
      proof (elim disjE exE conjE)
        fix ids k assume p: "tx_prog x = LockWallets ids k"
        with next_wallet [OF l [unfolded l'] p own] l' show ?thesis
          by (auto simp: locked_up_to_def order_le_less)
      next
        fix v k assume "tx_prog x = Write (SaveWallet v) k" "m = w_ID v"
        with W(1) show ?thesis by force
      qed
    qed
  qed
  ultimately show ?thesis
    using x W(1) unfolding well_held_def by auto
qed

lemma well_held_execute:
  assumes x: "well_held d x" and p: "is_call (tx_prog x)" and l: "next_lock s x = None"
    and run: "advance (visible s x) (tx_prog x) = (p', ws)" and own: "owners (visible s x) = owners d"
    and ok: "db_ok (visible s x)"
  shows "well_held d (x\<lparr>tx_prog := p', tx_writes := tx_writes x @ ws\<rparr>)" (is "well_held d ?x'")
proof -
  from x obtain W R where W: "disciplined (tx_prog x) W R" "holds_wallets d x (fst ` W)"
    unfolding well_held_def by blast
  have "reserves_first (tx_prog x)" using x not_reserves unfolding well_held_def by blast
  from reserves_first_advance [OF this p run] have no: "\<not> reserves p'" .
  have any: "well_held d ?x'" if "disciplined p' W' R'" "holds_wallets d ?x' (fst ` W')" for W' R'
    using that no unfolding well_held_def by auto
  have raise: "well_held d ?x'" if "p' = Raise e" for e
  proof (rule any)
    show "holds_wallets d ?x' (fst ` ((\<lambda>m. (m, m)) ` {m. WalletRow m \<in> tx_locks x}))"
      by (auto simp: holds_wallets_def image_image)
  qed (simp add: that)
  have same: "well_held d ?x'" if "disciplined p' W R'" "\<And>ids k. tx_prog x \<noteq> LockWallets ids k" for R'
    using W(2) that by (intro any [OF that(1)]) (auto simp: holds_wallets_def locked_up_to_def)
  show ?thesis
  proof (cases "tx_prog x")
    case (LockWallets ids k)
    let ?rows = "select_wallets ids (visible s x)"
    have locked: "set (wanted (visible s x) (tx_prog x)) \<subseteq> tx_locks x" by (rule next_lock_None [OF l])
    have to_lock: "wallets_to_lock ids (visible s x) = wallets_to_lock ids d"
      by (simp add: wallets_to_lock_def own)
    show ?thesis
    proof (cases "w_ID ` set ?rows = set ids")
      case True
      have "W = {}" and k: "\<forall>ws. w_ID ` set ws = set ids \<longrightarrow> disciplined (k ws) ((\<lambda>w. (w_ID w, w_UserID w)) ` set ws) R"
        using W(1) unfolding LockWallets disciplined.simps by (blast elim: conjE)+
      have "disciplined p' ((\<lambda>w. (w_ID w, w_UserID w)) ` set ?rows) R"
        using k True run LockWallets by auto
      then show ?thesis
      proof (rule any)
        have "fst ` (\<lambda>w. (w_ID w, w_UserID w)) ` set ?rows = set ids"
          using True by (simp add: image_image)
        moreover have "WalletRow ` set ids \<subseteq> tx_locks x"
          using locked unfolding LockWallets by (simp add: image_image flip: True)
        moreover have "m \<in> set ids" if "WalletRow m \<in> tx_locks x" for m
          using W(2) \<open>W = {}\<close> that LockWallets
          by (auto simp: holds_wallets_def locked_up_to_def wallets_to_lock_def)
        ultimately show "holds_wallets d ?x' (fst ` (\<lambda>w. (w_ID w, w_UserID w)) ` set ?rows)"
          by (simp add: holds_wallets_def)
      qed
    next
      case False
      then have "w_ID ` set ?rows \<subset> set ids" by (auto simp: set_select_wallets)
      then have short: "w_ID ` set ?rows \<subset> set ids \<and> distinct (map w_ID ?rows)"
        using distinct_select_wallets [OF ok] by (rule conjI)
      have "\<forall>ws. w_ID ` set ws \<subset> set ids \<and> distinct (map w_ID ws) \<longrightarrow> (\<exists>e. k ws = Raise e)"
        using W(1) unfolding LockWallets disciplined.simps by (elim conjE)
      from mp [OF spec [OF this] short] obtain e where "k ?rows = Raise e" by (rule exE)
      with LockWallets run have "p' = Raise e" by simp
      then show ?thesis by (rule raise)
    qed
  next
    case (Write w k)
    show ?thesis
    proof (cases "sql_of w (visible s x)")
      case (Inl code)
      with Write run raise show ?thesis by auto
    next
      case (Inr nd)
      then obtain n d' where "sql_of w (visible s x) = Inr (n, d')" by (cases nd) auto
      with disciplined_next [OF W(1) [unfolded Write]] Write run same show ?thesis by auto
    qed
  qed (use p W(1) run same in auto)
qed

section \<open>The cluster\<close>

definition cluster_held :: "cluster \<Rightarrow> bool" where
  "cluster_held s \<longleftrightarrow> finite (dom (sessions s)) \<and>
     (\<forall>i x. sessions s i = Some x \<longrightarrow> well_held (committed s) x)"

text \<open>What a session holds depends on the committed wallets its statement names only.\<close>

lemma well_held_same:
  assumes "well_held d x"
    and "\<And>ids k. tx_prog x = LockWallets ids k \<Longrightarrow> set (wallets_to_lock ids e) = set (wallets_to_lock ids d)"
  shows "well_held e x"
proof -
  have "locked_up_to e x m = locked_up_to d x m" for m
    using assms(2) by (auto simp: locked_up_to_def)
  then show ?thesis using assms(1) by (simp add: well_held_def holds_wallets_def)
qed

lemma well_held_owners: "owners e = owners d \<Longrightarrow> well_held e x = well_held d x"
  by (auto intro: well_held_same simp: wallets_to_lock_def)

lemma beside_work_held:
  assumes "well_held d x" and work: "beside_work d e" and p: "unnamed d e (tx_prog x)"
  shows "well_held e x"
proof (rule well_held_same [OF assms(1)])
  fix ids k assume "tx_prog x = LockWallets ids k"
  with p have "set ids \<inter> w_ID ` set (wallets e) \<subseteq> w_ID ` set (wallets d)" by (simp add: unnamed_def)
  moreover have "set (owners d) \<subseteq> set (owners e)" by (rule sees_same(2) [OF beside_work_sees [OF work]])
  then have "w_ID ` set (wallets d) \<subseteq> w_ID ` set (wallets e)"
    by (auto simp: owners_def)
  ultimately show "set (wallets_to_lock ids e) = set (wallets_to_lock ids d)"
    by (auto simp: wallets_to_lock_def owners_def image_image)
qed

lemma visible_facts:
  assumes ok: "cluster_ok env hooks d0 s" and x: "sessions s i = Some x" and p: "\<And>e. tx_prog x \<noteq> Raise e"
  shows "db_ok (visible s x)" and "owners (visible s x) = owners (committed s)"
proof -
  from ok x p obtain p0 us ts L where "session env hooks (tx_movement x) = Inr p0"
    "solo (committed s) p0 us ts (tx_prog x) (tx_writes x) L" "db_ok (committed s)"
    unfolding cluster_ok_def alone_def by blast
  with solo_in_order disciplined_session
  have io: "in_order (committed s) (tx_prog x) (tx_writes x) L" by blast
  then show "db_ok (visible s x)" "owners (visible s x) = owners (committed s)"
    using sees_same(2) by (auto simp: in_order_def visible_def)
qed

lemma cluster_held_put:
  assumes "cluster_held s" and "well_held (committed s) x" and "committed s' = committed s"
    and "sessions s' = (sessions s)(i \<mapsto> x)"
  shows "cluster_held s'"
  using assms by (simp add: cluster_held_def)

lemma cluster_held_ends:
  assumes "cluster_held s" and "owners (committed s') = owners (committed s)"
    and "sessions s' = (sessions s)(i := None)"
  shows "cluster_held s'"
  using assms by (auto simp: cluster_held_def well_held_owners [OF assms(2)])

lemma cluster_held_go_on:
  assumes "go_on env i s s'" and ok: "cluster_ok env hooks d0 s" and held: "cluster_held s"
  shows "cluster_held s'"
  using assms(1)
proof cases
  case (draw x k)
  have "well_held (committed s) x" using held draw by (simp add: cluster_held_def)
  then have "well_held (committed s) (x\<lparr>tx_prog := k (uuid_New env (uuids_drawn s))\<rparr>)"
    by (rule well_held_quiet) (use draw in auto)
  then show ?thesis unfolding draw(1) by (rule cluster_held_put [OF held]) (simp_all add: put_def)
next
  case (read_clock x k)
  have "well_held (committed s) x" using held read_clock by (simp add: cluster_held_def)
  then have "well_held (committed s) (x\<lparr>tx_prog := k (time_Now env (clock_readings s))\<rparr>)"
    by (rule well_held_quiet) (use read_clock in auto)
  then show ?thesis unfolding read_clock(1) by (rule cluster_held_put [OF held]) (simp_all add: put_def)
next
  case (acquire x l)
  have "well_held (committed s) x" using held acquire by (simp add: cluster_held_def)
  moreover have "tx_prog x \<noteq> Raise e" for e
    using next_lock_Some [OF acquire(3)] by auto
  then have "owners (visible s x) = owners (committed s)"
    using visible_facts(2) [OF ok acquire(2)] held by (simp add: cluster_held_def)
  ultimately have "well_held (committed s) (x\<lparr>tx_locks := insert l (tx_locks x)\<rparr>)"
    by (intro well_held_acquire [OF _ acquire(3)])
  then show ?thesis unfolding acquire(1) by (rule cluster_held_put [OF held]) (simp_all add: put_def)
next
  case (execute x p ws)
  have "well_held (committed s) x" using held execute by (simp add: cluster_held_def)
  moreover have "tx_prog x \<noteq> Raise e" for e using execute(3) by auto
  then have "owners (visible s x) = owners (committed s)" "db_ok (visible s x)"
    using visible_facts [OF ok execute(2)] held by (simp_all add: cluster_held_def)
  ultimately have "well_held (committed s) (x\<lparr>tx_prog := p, tx_writes := tx_writes x @ ws\<rparr>)"
    by (intro well_held_execute [OF _ execute(3-5)])
  then show ?thesis unfolding execute(1) by (rule cluster_held_put [OF held]) (simp_all add: put_def)
next
  case (commit x res queued)
  then have "owners (visible s x) = owners (committed s)"
    using visible_facts(2) [OF ok commit(2)] held by (simp add: cluster_held_def)
  then show ?thesis unfolding commit(1) by (intro cluster_held_ends [OF held]) (simp_all add: ends_def)
next
  case (roll_back x e)
  then show ?thesis using held by (intro cluster_held_ends [OF held]) (simp_all add: ends_def cluster_held_def)
qed

lemma cluster_reachable_held:
  assumes "cluster_reachable env hooks w s" and d: "db_ok (db w)"
  shows "cluster_held s"
  using assms(1)
proof induction
  case start
  show ?case by (simp add: cluster_held_def cluster_start_def)
next
  case (step s s')
  have ok: "cluster_ok env hooks (db w) s" by (rule cluster_reachable_ok [OF step.hyps(1) d])
  from step.hyps(2) show ?case
  proof cases
    case (begins i m p)
    have "well_held (committed s) \<lparr>tx_movement = m, tx_prog = p, tx_writes = [], tx_locks = {}\<rparr>"
      using disciplined_session [OF begins(3)] session_reserves_first [OF begins(3)]
      unfolding well_held_def by (auto simp: at_reservation_def holds_wallets_def intro!: exI [of _ "{}"])
    then show ?thesis unfolding begins(1) by (rule cluster_held_put [OF step.IH]) (simp_all add: put_def)
  next
    case (goes_on i)
    then show ?thesis by (rule cluster_held_go_on [OF _ ok step.IH])
  next
    case (breaks_off i x)
    then show ?thesis using step.IH
      by (intro cluster_held_ends [OF step.IH]) (simp_all add: ends_def cluster_held_def)
  next
    case (others_work e)
    then show ?thesis using step.IH by (auto simp: cluster_held_def intro: beside_work_held [where d = "committed s"])
  qed
qed

section \<open>Somebody can go on\<close>

text \<open>Locks on generated identifiers, for which a session waits only when two of them are equal.\<close>

fun generated :: "lock \<Rightarrow> bool" where
  "generated (RecordKey k) = False"
| "generated (WalletRow i) = False"
| "generated _ = True"

definition identifiers_collide :: "cluster \<Rightarrow> bool" where
  "identifiers_collide s \<longleftrightarrow> (\<exists>i x l. sessions s i = Some x \<and> next_lock s x = Some l \<and>
     held_by_other s i l \<and> generated l)"

lemma stuck_waits:
  assumes x: "sessions s i = Some x" and stuck: "\<And>s'. \<not> go_on env i s s'"
  obtains l where "next_lock s x = Some l" and "held_by_other s i l"
proof (cases "next_lock s x")
  case (Some l)
  with stuck go_on.acquire [of s i x l env] x that show ?thesis by blast
next
  case None
  obtain p ws where run: "advance (visible s x) (tx_prog x) = (p, ws)"
    by (cases "advance (visible s x) (tx_prog x)")
  have "\<exists>s'. go_on env i s s'"
  proof (cases "tx_prog x")
    case (Return r)
    then show ?thesis using go_on.commit [of s i x "fst r" "snd r"] x by auto
  next
    case (Raise e)
    then show ?thesis using go_on.roll_back [of s i x e] x by blast
  next
    case (NewUUID k)
    then show ?thesis using go_on.draw [of s i x k] x by blast
  next
    case (Now k)
    then show ?thesis using go_on.read_clock [of s i x k] x by blast
  qed (use go_on.execute [OF x _ None run] in auto)
  with stuck show ?thesis by blast
qed

text \<open>Waiting for a wallet: the holder waits for a later wallet, if it waits at all.\<close>

lemma waits_for_wallet:
  assumes ok: "cluster_ok env hooks d0 s" and held: "cluster_held s"
    and y: "sessions s j = Some y" and m: "WalletRow m \<in> tx_locks y"
    and l: "next_lock s y = Some l" and g: "\<not> generated l"
  obtains m' where "l = WalletRow m'" and "m < m'"
proof -
  have y_held: "well_held (committed s) y" using held y by (simp add: cluster_held_def)
  from y_held obtain W R where W: "disciplined (tx_prog y) W R" "holds_wallets (committed s) y (fst ` W)"
    unfolding well_held_def by blast
  note wanted = next_lock_Some [OF l]
  show ?thesis
  proof (cases l)
    case (RecordKey key)
    with wanted key_wanted obtain r k where r: "tx_prog y = Write (ReserveRecord r) k" by blast
    then have "reserves (tx_prog y)" by auto
    with y_held have "at_reservation y" by (simp add: well_held_def)
    with m r show ?thesis by (auto simp: at_reservation_def)
  next
    case (WalletRow m')
    have "tx_prog y \<noteq> Raise e" for e using wanted by auto
    then have own: "owners (visible s y) = owners (committed s)"
      using visible_facts(2) [OF ok y] held by (simp add: cluster_held_def)
    from wanted WalletRow wallet_wanted have
      "(\<exists>ids k. tx_prog y = LockWallets ids k) \<or> (\<exists>v k. tx_prog y = Write (SaveWallet v) k \<and> m' = w_ID v)"
      by blast
    then show ?thesis
    proof (elim disjE exE conjE)
      fix ids k assume p: "tx_prog y = LockWallets ids k"
      then have "W = {}" using W(1) by simp
      with W(2) m have "locked_up_to (committed s) y m" by (auto simp: holds_wallets_def)
      with p have "\<forall>m'' \<in> set (wallets_to_lock ids (committed s)). m'' \<le> m \<longrightarrow> WalletRow m'' \<in> tx_locks y"
        by (auto simp: locked_up_to_def)
      with next_wallet(1) [OF l [unfolded WalletRow] p own] wanted WalletRow have "\<not> m' \<le> m" by blast
      with that [OF WalletRow] show ?thesis by simp
    next
      fix v k assume p: "tx_prog y = Write (SaveWallet v) k" and v: "m' = w_ID v"
      with W(1) have "m' \<in> fst ` W" by force
      with W(2) wanted WalletRow show ?thesis by (auto simp: holds_wallets_def)
    qed
  qed (use g in simp_all)
qed

lemma waits_for_key:
  assumes held: "cluster_held s" and y: "sessions s j = Some y" and key: "RecordKey key \<in> tx_locks y"
    and l: "next_lock s y = Some (RecordKey key')"
  shows False
proof -
  note wanted = next_lock_Some [OF l]
  with key_wanted obtain r k where r: "tx_prog y = Write (ReserveRecord r) k" "key' = idempotency_key_of r"
    by blast
  then have "reserves (tx_prog y)" by auto
  with held y have "at_reservation y" by (simp add: cluster_held_def well_held_def)
  with r key wanted show False by (auto simp: at_reservation_def)
qed

lemma somebody_goes_on:
  assumes reach: "cluster_reachable env hooks w s" and d: "db_ok (db w)" and x: "sessions s i = Some x"
  shows "(\<exists>j s'. go_on env j s s') \<or> identifiers_collide s"
proof (rule ccontr)
  assume "\<not> ?thesis"
  then have stuck: "\<And>j s'. \<not> go_on env j s s'" and apart: "\<not> identifiers_collide s" by blast+
  have ok: "cluster_ok env hooks (db w) s" by (rule cluster_reachable_ok [OF reach d])
  have held: "cluster_held s" by (rule cluster_reachable_held [OF reach d])
  have waits: "\<exists>l j z. next_lock s y = Some l \<and> \<not> generated l \<and> sessions s j = Some z \<and> l \<in> tx_locks z"
    if "sessions s k = Some y" for k y
    using stuck_waits [OF that stuck] apart that
    unfolding identifiers_collide_def held_by_other_def by metis
  let ?M = "{m. \<exists>k y. sessions s k = Some y \<and> next_lock s y = Some (WalletRow m)}"
  have "?M \<noteq> {}"
  proof -
    from waits [OF x] obtain l j z where l: "next_lock s x = Some l" "\<not> generated l"
      and z: "sessions s j = Some z" "l \<in> tx_locks z" by blast
    show ?thesis
    proof (cases l)
      case (RecordKey key)
      from waits [OF z(1)] obtain l' where l': "next_lock s z = Some l'" "\<not> generated l'" by blast
      with waits_for_key [OF held z(1) z(2) [unfolded RecordKey]] z(1) show ?thesis
        by (cases l') auto
    qed (use l x in auto)
  qed
  moreover have finite: "finite ?M"
  proof (rule finite_imageD)
    have "WalletRow ` ?M \<subseteq> (\<Union>k \<in> dom (sessions s). set_option (next_lock s (the (sessions s k))))"
      by (force simp: dom_def)
    then show "finite (WalletRow ` ?M)"
      by (rule finite_subset) (use held in \<open>simp add: cluster_held_def\<close>)
  qed (simp add: inj_on_def)
  ultimately have "Max ?M \<in> ?M" by (intro Max_in)
  then obtain k y where y: "sessions s k = Some y" "next_lock s y = Some (WalletRow (Max ?M))"
    unfolding mem_Collect_eq by (elim exE conjE)
  with waits [OF y(1)] obtain j z where z: "sessions s j = Some z" "WalletRow (Max ?M) \<in> tx_locks z" by auto
  from waits [OF z(1)] obtain l where l: "next_lock s z = Some l" "\<not> generated l" by blast
  from waits_for_wallet [OF ok held z l] obtain m' where "l = WalletRow m'" "Max ?M < m'" .
  moreover from this z(1) l(1) have "m' \<in> ?M" by blast
  with Max_ge [OF finite] have "m' \<le> Max ?M" by blast
  ultimately show False by simp
qed

end
