(* ===== verification/Completion.thy ===== *)
theory Completion
  imports Waiting "HOL-Library.Multiset"
begin

text \<open>
  Sessions that go on come to their end: every step a session takes by itself leaves less to do,
  the program of the session shrinks or one lock fewer is wanted, so the open sessions finish
  whatever the order in which they go on. And an operation that nothing interrupts is a run of the
  cluster, so what is shown of interleavings is not shown of nothing.
\<close>

section \<open>Every session comes to its end\<close>

text \<open>A program and what it may go on with.\<close>

inductive goes_on_as :: "'a prog \<Rightarrow> 'a prog \<Rightarrow> bool" where
  "goes_on_as (k i) (NewUUID k)"
| "goes_on_as (k t) (Now k)"
| "goes_on_as (k r) (FindRecord key user ep k)"
| "goes_on_as (k w) (FindWallet user k)"
| "goes_on_as (k ws) (LockWallets ids k)"
| "goes_on_as (k n) (Write wr k)"
| "goes_on_as (Raise e) (Write wr k)"

inductive_simps goes_on_as_simps:
  "goes_on_as q (Return x)" "goes_on_as q (Raise e)" "goes_on_as q (NewUUID k)" "goes_on_as q (Now k)"
  "goes_on_as q (FindRecord key user ep k)" "goes_on_as q (FindWallet user k)"
  "goes_on_as q (LockWallets ids k)" "goes_on_as q (Write wr k)"

lemma wf_goes_on_as: "wf {(q, p). goes_on_as q p}"
proof -
  have raise: "Wellfounded.accp goes_on_as (Raise e :: 'a prog)" for e
    by (rule accp.accI) (simp add: goes_on_as_simps)
  have "Wellfounded.accp goes_on_as p" for p :: "'a prog"
    by (induction p) (rule accp.accI; use raise in \<open>auto simp: goes_on_as_simps\<close>)+
  then show ?thesis by (simp add: wfp_def [symmetric] wfp_iff_accp)
qed

lemma mult_replace: "(b, a) \<in> r \<Longrightarrow> (add_mset b M, add_mset a M) \<in> mult r"
  using one_step_implies_mult [of "{#a#}" "{#b#}" r M] by simp

lemma mult_remove: "(M, add_mset a M) \<in> mult r"
  using one_step_implies_mult [of "{#a#}" "{#}" r M] by simp

lemma advance_goes_on:
  "is_call p \<Longrightarrow> advance d p = (q, ws) \<Longrightarrow> goes_on_as q p"
  by (cases p) (auto simp: goes_on_as_simps split: sum.splits)

text \<open>What is left to do: the programs of the open sessions, and the locks they still want.\<close>

definition to_do :: "cluster \<Rightarrow> body_result prog multiset" where
  "to_do s = image_mset (\<lambda>i. tx_prog (the (sessions s i))) (mset_set (dom (sessions s)))"

definition to_lock :: "cluster \<Rightarrow> nat \<Rightarrow> nat" where
  "to_lock s i = (case sessions s i of None \<Rightarrow> 0
     | Some x \<Rightarrow> card (set (wanted (visible s x) (tx_prog x)) - tx_locks x))"

lemma to_do_split:
  assumes "finite (dom (sessions s))" and "sessions s i = Some x"
  shows "to_do s = add_mset (tx_prog x) (image_mset (\<lambda>j. tx_prog (the (sessions s j)))
    (mset_set (dom (sessions s) - {i})))"
proof -
  have "mset_set (dom (sessions s)) = add_mset i (mset_set (dom (sessions s) - {i}))"
    using assms by (simp add: mset_set.remove domI)
  with assms(2) show ?thesis by (simp add: to_do_def)
qed

lemma to_do_put:
  assumes "finite (dom (sessions s))" and "sessions s i = Some x" and "goes_on_as (tx_prog y) (tx_prog x)"
    and "sessions s' = sessions s"
  shows "(to_do (put i y s'), to_do s) \<in> mult {(q, p). goes_on_as q p}"
proof -
  let ?M = "image_mset (\<lambda>j. tx_prog (the (sessions s j))) (mset_set (dom (sessions s) - {i}))"
  have "to_do (put i y s') = add_mset (tx_prog y) (image_mset
      (\<lambda>j. tx_prog (the (sessions (put i y s') j))) (mset_set (dom (sessions s) - {i})))"
    using to_do_split [of "put i y s'" i y] assms(1,4) by (simp add: put_def)
  also have "image_mset (\<lambda>j. tx_prog (the (sessions (put i y s') j))) (mset_set (dom (sessions s) - {i})) = ?M"
    using assms(1,4) by (intro image_mset_cong) (auto simp: put_def)
  finally show ?thesis
    using to_do_split [OF assms(1,2)] assms(3) by (simp add: mult_replace)
qed

lemma to_do_ends:
  assumes "finite (dom (sessions s))" and "sessions s i = Some x" and "sessions s' = sessions s"
  shows "(to_do (ends i s'), to_do s) \<in> mult {(q, p). goes_on_as q p}"
proof -
  have "to_do (ends i s') = image_mset (\<lambda>j. tx_prog (the (sessions s j))) (mset_set (dom (sessions s) - {i}))"
    using assms(1,3) by (auto simp: to_do_def ends_def intro!: image_mset_cong)
  with to_do_split [OF assms(1,2)] show ?thesis by (simp add: mult_remove)
qed

lemma to_do_acquire:
  assumes "finite (dom (sessions s))" and "sessions s i = Some x"
  shows "to_do (put i (x\<lparr>tx_locks := L\<rparr>) s) = to_do s"
proof -
  have "dom (sessions (put i (x\<lparr>tx_locks := L\<rparr>) s)) = dom (sessions s)" using assms(2) by (auto simp: put_def)
  then show ?thesis using assms unfolding to_do_def by (auto simp: put_def intro!: image_mset_cong)
qed

lemma to_lock_acquire:
  assumes fin: "finite (dom (sessions s))" and x: "sessions s i = Some x" and l: "next_lock s x = Some l"
  shows "sum (to_lock (put i (x\<lparr>tx_locks := insert l (tx_locks x)\<rparr>) s)) (dom (sessions s)) <
    sum (to_lock s) (dom (sessions s))"
proof (rule sum_strict_mono_ex1 [OF fin])
  let ?s = "put i (x\<lparr>tx_locks := insert l (tx_locks x)\<rparr>) s"
  have vis: "visible ?s y = visible s y" for y by (simp add: visible_def)
  let ?W = "set (wanted (visible s x) (tx_prog x))"
  have "card (?W - insert l (tx_locks x)) < card (?W - tx_locks x)"
    using next_lock_Some [OF l] by (intro psubset_card_mono) auto
  then have "to_lock ?s i < to_lock s i" using x by (simp add: to_lock_def put_def visible_def)
  moreover have "to_lock ?s j = to_lock s j" if "j \<noteq> i" for j
    using that by (simp add: to_lock_def put_def visible_def split: option.split)
  ultimately show "\<forall>j \<in> dom (sessions s). to_lock ?s j \<le> to_lock s j"
    and "\<exists>j \<in> dom (sessions s). to_lock ?s j < to_lock s j" using x by (metis less_imp_le order_refl, blast)
qed

definition nearer :: "(cluster \<times> cluster) set" where
  "nearer = inv_image (mult {(q, p). goes_on_as q p} <*lex*> less_than)
     (\<lambda>s. (to_do s, sum (to_lock s) (dom (sessions s))))"

lemma wf_nearer: "wf nearer"
  unfolding nearer_def by (intro wf_inv_image wf_lex_prod wf_mult wf_goes_on_as wf_less_than)

lemma dom_put [simp]: "sessions s i = Some x \<Longrightarrow> dom (sessions (put i y s)) = dom (sessions s)"
  by (auto simp: put_def)

lemma dom_ends [simp]: "dom (sessions (ends i s)) = dom (sessions s) - {i}"
  by (auto simp: ends_def)

lemma nearer_to_do: "(to_do s', to_do s) \<in> mult {(q, p). goes_on_as q p} \<Longrightarrow> (s', s) \<in> nearer"
  by (simp add: nearer_def)

lemma go_on_nearer:
  assumes "go_on env i s s'" and fin: "finite (dom (sessions s))"
  shows "(s', s) \<in> nearer \<and> finite (dom (sessions s'))"
  using assms(1)
proof cases
  case (draw x k)
  then show ?thesis
    using fin by (auto intro!: nearer_to_do to_do_put simp: goes_on_as_simps)
next
  case (read_clock x k)
  then show ?thesis
    using fin by (auto intro!: nearer_to_do to_do_put simp: goes_on_as_simps)
next
  case (acquire x l)
  with to_do_acquire [OF fin acquire(2)] to_lock_acquire [OF fin acquire(2,3)] fin show ?thesis
    by (simp add: nearer_def)
next
  case (execute x p ws)
  with advance_goes_on [OF execute(3,5)] fin show ?thesis
    by (auto intro!: nearer_to_do to_do_put)
next
  case (commit x res queued)
  with fin show ?thesis by (auto intro!: nearer_to_do to_do_ends)
next
  case (roll_back x e)
  with fin show ?thesis by (auto intro!: nearer_to_do to_do_ends)
qed

definition all_ended :: "cluster \<Rightarrow> bool" where
  "all_ended s \<longleftrightarrow> sessions s = Map.empty"

text \<open>
  Whichever session goes on, and however long, the open sessions all come to their end; unless
  two generated identifiers collide.
\<close>

inductive winds_down :: "env \<Rightarrow> cluster \<Rightarrow> bool" for env where
  finished: "all_ended s \<or> identifiers_collide s \<Longrightarrow> winds_down env s"
| going: "go_on env i s s' \<Longrightarrow> (\<And>j s'. go_on env j s s' \<Longrightarrow> winds_down env s') \<Longrightarrow> winds_down env s"

lemma reachable_winds_down:
  assumes "cluster_reachable env hooks w s" and d: "db_ok (db w)"
  shows "winds_down env s"
  using assms(1)
proof (induction s rule: wf_induct_rule [OF wf_nearer])
  case (1 s)
  show ?case
  proof (cases "all_ended s \<or> identifiers_collide s")
    case False
    then obtain i x where "sessions s i = Some x" by (auto simp: all_ended_def fun_eq_iff)
    with somebody_goes_on [OF 1(2) d] False obtain j s1 where go: "go_on env j s s1" by blast
    have "finite (dom (sessions s))"
      using cluster_reachable_held [OF 1(2) d] by (simp add: cluster_held_def)
    then show ?thesis
      using go_on_nearer 1 cluster_reachable.step [OF 1(2) cluster_step.goes_on]
      by (intro winds_down.going [OF go]) blast
  qed (rule winds_down.finished)
qed

section \<open>A run without interruption is an interleaving\<close>

text \<open>Only session \<open>i\<close> is active.\<close>

definition only_session :: "nat \<Rightarrow> tx \<Rightarrow> cluster \<Rightarrow> bool" where
  "only_session i x s \<longleftrightarrow> sessions s = [i \<mapsto> x]"

lemma only_session_put: "only_session i x s \<Longrightarrow> only_session i y (put i y s)"
  by (simp add: only_session_def put_def)

lemma only_session_free: "only_session i x s \<Longrightarrow> \<not> held_by_other s i l"
  by (simp add: only_session_def held_by_other_def)

lemma takes_its_locks:
  assumes "only_session i x s"
  obtains x' s' where "(go_on env i)\<^sup>*\<^sup>* s s'" and "only_session i x' s'"
    and "next_lock s' x' = None" and "\<exists>L. x' = x\<lparr>tx_locks := L\<rparr>" and "\<exists>m. s' = s\<lparr>sessions := m\<rparr>"
  using assms
proof (induction "card (set (wanted (visible s x) (tx_prog x)) - tx_locks x)" arbitrary: s x thesis rule: less_induct)
  case less
  show ?case
  proof (cases "next_lock s x")
    case None
    then show ?thesis by (intro less.prems(1) [of s x] less.prems(2)) (auto intro: exI [of _ "tx_locks x"] exI [of _ "sessions s"])
  next
    case (Some l)
    let ?x = "x\<lparr>tx_locks := insert l (tx_locks x)\<rparr>" and ?s = "put i (x\<lparr>tx_locks := insert l (tx_locks x)\<rparr>) s"
    have x: "sessions s i = Some x" using less.prems(2) by (simp add: only_session_def)
    have step: "go_on env i s ?s" by (rule go_on.acquire [OF x Some only_session_free [OF less.prems(2)]])
    have "visible ?s ?x = visible s x" by (simp add: visible_def)
    moreover have "l \<in> set (wanted (visible s x) (tx_prog x)) - tx_locks x" using next_lock_Some [OF Some] by simp
    ultimately have "card (set (wanted (visible ?s ?x) (tx_prog ?x)) - tx_locks ?x) <
        card (set (wanted (visible s x) (tx_prog x)) - tx_locks x)"
      by (intro psubset_card_mono) auto
    from less.hyps [OF this] only_session_put [OF less.prems(2)] obtain x' s' where
      "(go_on env i)\<^sup>*\<^sup>* ?s s'" "only_session i x' s'" "next_lock s' x' = None"
      "\<exists>L. x' = ?x\<lparr>tx_locks := L\<rparr>" "\<exists>m. s' = ?s\<lparr>sessions := m\<rparr>" by blast
    with step show ?thesis
      by (intro less.prems(1) [of s' x']) (auto simp: put_def intro: converse_rtranclp_into_rtranclp)
  qed
qed

text \<open>Session \<open>i\<close>, running alone, reaches the answer \<open>r\<close> and sees the tables \<open>d\<close>.\<close>

definition gets_through :: "env \<Rightarrow> nat \<Rightarrow> tx \<Rightarrow> cluster \<Rightarrow> body_result \<Rightarrow> database \<Rightarrow> bool" where
  "gets_through env i x s r d \<longleftrightarrow>
     (\<exists>x' s'. (go_on env i)\<^sup>*\<^sup>* s s' \<and> only_session i x' s' \<and> tx_prog x' = Return r \<and>
        tx_movement x' = tx_movement x \<and> visible s' x' = d \<and> history s' = history s)"

lemma gets_through_step:
  assumes "(go_on env i)\<^sup>*\<^sup>* s s1" and "gets_through env i x1 s1 r d"
    and "tx_movement x1 = tx_movement x" and "history s1 = history s"
  shows "gets_through env i x s r d"
  using assms unfolding gets_through_def by (metis rtranclp_trans)

text \<open>The world of an uninterrupted run that stands where the session does.\<close>

definition in_step :: "env \<Rightarrow> tx \<Rightarrow> cluster \<Rightarrow> world \<Rightarrow> bool" where
  "in_step env x s w \<longleftrightarrow> no_faults env \<and> sql_session w = InTx \<and> db w = visible s x \<and>
     n_uuid w = uuids_drawn s \<and> n_time w = clock_readings s"

lemma query_Inr:
  "query env f w = (Inr x, w') \<longleftrightarrow> live env w \<and> x = f (db w) \<and> w' = w\<lparr>n_sql := Suc (n_sql w)\<rparr>"
  by (auto simp: query_def statement_Inr)

lemma run_call:
  assumes "run env p w = (Inr r, w')" and "is_call p" and "no_faults env" and "sql_session w = InTx"
    and "advance (db w) p = (p1, ws)"
  obtains w1 where "run env p1 w1 = (Inr r, w')" and "sql_session w1 = InTx"
    and "db w1 = overlay ws (db w)" and "n_uuid w1 = n_uuid w" and "n_time w1 = n_time w"
proof -
  have "\<exists>w1. run env p1 w1 = (Inr r, w') \<and> sql_session w1 = InTx \<and>
      db w1 = overlay ws (db w) \<and> n_uuid w1 = n_uuid w \<and> n_time w1 = n_time w"
  proof (cases p)
    case (Write wr k)
    obtain n d' where q: "sql_of wr (db w) = Inr (n, d')"
      and r: "run env (k n) (w\<lparr>n_sql := Suc (n_sql w), db := d'\<rparr>) = (Inr r, w')"
      using assms(1) by (auto simp: Write and_then_Inr statement_Inr)
    from assms(5) r sql_effect [OF q] assms(4) show ?thesis
      by (intro exI [of _ "w\<lparr>n_sql := Suc (n_sql w), db := d'\<rparr>"]) (auto simp: Write q overlay_def)
  qed (use assms in \<open>auto simp: and_then_Inr query_Inr overlay_def
      intro!: exI [of _ "w\<lparr>n_sql := Suc (n_sql w)\<rparr>"]\<close>)
  then show thesis using that by blast
qed

lemma call_alone:
  assumes only: "only_session i x s" and step: "in_step env x s w" and call: "is_call (tx_prog x)"
    and r: "run env (tx_prog x) w = (Inr r, w')" and adv: "advance (visible s x) (tx_prog x) = (p1, ws)"
    and IH: "\<And>x1 s1 w1. tx_prog x1 = p1 \<Longrightarrow> only_session i x1 s1 \<Longrightarrow> in_step env x1 s1 w1 \<Longrightarrow>
      run env (tx_prog x1) w1 = (Inr r, w') \<Longrightarrow> gets_through env i x1 s1 r (db w')"
  shows "gets_through env i x s r (db w')"
proof -
  from only obtain x0 s0 where go: "(go_on env i)\<^sup>*\<^sup>* s s0" and only0: "only_session i x0 s0"
    and free: "next_lock s0 x0 = None" and "\<exists>L. x0 = x\<lparr>tx_locks := L\<rparr>"
    and "\<exists>m. s0 = s\<lparr>sessions := m\<rparr>" by (rule takes_its_locks)
  then obtain L m where x0: "x0 = x\<lparr>tx_locks := L\<rparr>" and s0: "s0 = s\<lparr>sessions := m\<rparr>" by auto
  let ?x = "x0\<lparr>tx_prog := p1, tx_writes := tx_writes x0 @ ws\<rparr>"
  have same: "visible s0 x0 = visible s x" by (simp add: x0 s0 visible_def)
  have "go_on env i s0 (put i ?x s0)"
    using only0 call adv free same by (intro go_on.execute) (auto simp: only_session_def x0)
  with go have go': "(go_on env i)\<^sup>*\<^sup>* s (put i ?x s0)" by simp
  have st: "no_faults env" "sql_session w = InTx" "db w = visible s x" "n_uuid w = uuids_drawn s"
    "n_time w = clock_readings s" using step by (simp_all add: in_step_def)
  from run_call [OF r call st(1,2), of p1 ws] adv st(3) obtain w1 where
    w1: "run env p1 w1 = (Inr r, w')" "sql_session w1 = InTx" "db w1 = overlay ws (db w)"
      "n_uuid w1 = n_uuid w" "n_time w1 = n_time w" by auto
  have "in_step env ?x (put i ?x s0) w1"
    using w1 st by (simp add: in_step_def visible_def put_def overlay_def x0 s0)
  from IH [of ?x, OF _ only_session_put [OF only0] this] w1(1)
  have "gets_through env i ?x (put i ?x s0) r (db w')" by simp
  then show ?thesis by (rule gets_through_step [OF go']) (simp_all add: x0 s0 put_def)
qed

lemma runs_alone:
  assumes "only_session i x s" and "in_step env x s w" and "run env (tx_prog x) w = (Inr r, w')"
  shows "gets_through env i x s r (db w')"
  using assms
proof (induction "tx_prog x" arbitrary: x s w)
  case (Return r')
  then show ?case
    unfolding gets_through_def in_step_def
    by (intro exI [of _ x] exI [of _ s]) (auto simp: ok_def simp flip: Return.hyps)
next
  case (Raise e)
  then show ?case by (simp add: throw_def flip: Raise.hyps)
next
  case (NewUUID k)
  let ?x = "x\<lparr>tx_prog := k (uuid_New env (uuids_drawn s))\<rparr>"
  let ?s = "put i ?x (s\<lparr>uuids_drawn := Suc (uuids_drawn s)\<rparr>)"
  have x: "sessions s i = Some x" using NewUUID.prems(1) by (simp add: only_session_def)
  have "go_on env i s ?s" by (rule go_on.draw [OF x NewUUID.hyps(2) [symmetric]])
  then have go: "(go_on env i)\<^sup>*\<^sup>* s ?s" by simp
  have "run env (tx_prog ?x) (w\<lparr>n_uuid := Suc (n_uuid w)\<rparr>) = (Inr r, w')"
    using NewUUID.prems by (simp add: in_step_def and_then_def new_uuid_def flip: NewUUID.hyps(2))
  moreover have "only_session i ?x ?s" using NewUUID.prems(1) by (simp add: only_session_def put_def)
  moreover have "in_step env ?x ?s (w\<lparr>n_uuid := Suc (n_uuid w)\<rparr>)"
    using NewUUID.prems(2) by (simp add: in_step_def visible_def put_def)
  ultimately have "gets_through env i ?x ?s r (db w')"
    by (intro NewUUID.hyps(1) [of ?x ?s "w\<lparr>n_uuid := Suc (n_uuid w)\<rparr>"]) simp_all
  then show ?case by (rule gets_through_step [OF go]) (simp_all add: put_def)
next
  case (Now k)
  let ?x = "x\<lparr>tx_prog := k (time_Now env (clock_readings s))\<rparr>"
  let ?s = "put i ?x (s\<lparr>clock_readings := Suc (clock_readings s)\<rparr>)"
  have x: "sessions s i = Some x" using Now.prems(1) by (simp add: only_session_def)
  have "go_on env i s ?s" by (rule go_on.read_clock [OF x Now.hyps(2) [symmetric]])
  then have go: "(go_on env i)\<^sup>*\<^sup>* s ?s" by simp
  have "run env (tx_prog ?x) (w\<lparr>n_time := Suc (n_time w)\<rparr>) = (Inr r, w')"
    using Now.prems by (simp add: in_step_def and_then_def now_def flip: Now.hyps(2))
  moreover have "only_session i ?x ?s" using Now.prems(1) by (simp add: only_session_def put_def)
  moreover have "in_step env ?x ?s (w\<lparr>n_time := Suc (n_time w)\<rparr>)"
    using Now.prems(2) by (simp add: in_step_def visible_def put_def)
  ultimately have "gets_through env i ?x ?s r (db w')"
    by (intro Now.hyps(1) [of ?x ?s "w\<lparr>n_time := Suc (n_time w)\<rparr>"]) simp_all
  then show ?case by (rule gets_through_step [OF go]) (simp_all add: put_def)
next
  case (FindRecord key user ep k)
  show ?case
    by (rule call_alone [OF FindRecord.prems(1,2) _ FindRecord.prems(3)])
      (auto simp flip: FindRecord.hyps(2) intro!: FindRecord.hyps(1))
next
  case (FindWallet user k)
  show ?case
    by (rule call_alone [OF FindWallet.prems(1,2) _ FindWallet.prems(3)])
      (auto simp flip: FindWallet.hyps(2) intro!: FindWallet.hyps(1))
next
  case (LockWallets ids k)
  show ?case
    by (rule call_alone [OF LockWallets.prems(1,2) _ LockWallets.prems(3)])
      (auto simp flip: LockWallets.hyps(2) intro!: LockWallets.hyps(1))
next
  case (Write wr k)
  obtain n d' where "sql_of wr (db w) = Inr (n, d')"
    using Write.prems(3) by (auto simp: and_then_Inr statement_Inr simp flip: Write.hyps(2))
  then have "advance (visible s x) (tx_prog x) = (k n, if n = 0 then [] else [wr])"
    using Write.prems(2) by (simp add: in_step_def flip: Write.hyps(2))
  from Write.prems(1,2) _ Write.prems(3) this show ?case
    by (rule call_alone) (auto simp flip: Write.hyps(2) intro!: Write.hyps(1))
qed

text \<open>
  An operation that succeeds without faults and alone is a run of the cluster: it begins, goes on
  and commits, and nothing is left open.
\<close>

lemma goes_on_reachable:
  assumes "(go_on env i)\<^sup>*\<^sup>* s s'" and "cluster_reachable env hooks w s"
  shows "cluster_reachable env hooks w s'"
  using assms by (induction rule: rtranclp_induct) (auto intro: cluster_reachable.step cluster_step.goes_on)

lemma perform_reachable:
  assumes run: "perform env hooks m w = (Inr res, w')" and f: "no_faults env" and n: "sql_session w = NoTx"
  obtains s where "cluster_reachable env hooks w s" and "all_ended s" and "committed s = db w'"
    and "history s = [(m, res)]"
proof -
  let ?w1 = "w\<lparr>n_sql := Suc (n_sql w), sql_session := InTx\<rparr>"
  from run obtain p where p: "session env hooks m = Inr p"
    by (auto simp: perform_session throw_def split: sum.splits)
  with run obtain queued w2 where within: "WithinTransaction env (run env p) w = (Inr (res, queued), w2)"
    and w': "w' = (case queued of None \<Rightarrow> w2 | Some j \<Rightarrow> Enqueue (configured_notifier env hooks) j w2)"
    by (auto simp: perform_session finish_def split: sum.splits prod.splits)
  have "sql_fault env k = None" for k using f by (simp add: no_faults_def)
  with within obtain w3 where r: "run env p ?w1 = (Inr (res, queued), w3)" and w2: "db w2 = db w3"
    by (auto simp: WithinTransaction_def Let_def sql_commit_def sql_rollback_def
        split: sum.splits prod.splits if_splits)
  have db: "db w' = db w3"
    using w' w2 webhook_notifier.enqueue_touches(1) [OF configured_notifier_ok] by (simp split: option.splits)
  let ?x = "\<lparr>tx_movement = m, tx_prog = p, tx_writes = [], tx_locks = {}\<rparr>" and ?s = "cluster_start w"
  have begun: "cluster_reachable env hooks w (put 0 ?x ?s)"
    by (rule cluster_reachable.step [OF cluster_reachable.start])
      (rule cluster_step.begins, simp_all add: p cluster_start_def)
  have "gets_through env 0 ?x (put 0 ?x ?s) (res, queued) (db w3)"
    by (rule runs_alone) (use r f in \<open>simp_all add: only_session_def in_step_def put_def cluster_start_def
      visible_def overlay_def\<close>)
  then obtain x' s' where go: "(go_on env 0)\<^sup>*\<^sup>* (put 0 ?x ?s) s'" and x': "only_session 0 x' s'"
    "tx_prog x' = Return (res, queued)" "tx_movement x' = m" "visible s' x' = db w3" "history s' = []"
    by (auto simp: gets_through_def put_def cluster_start_def)
  have "go_on env 0 s' (ends 0 (s'\<lparr>committed := visible s' x', history := history s' @ [(tx_movement x', res)]\<rparr>))"
    by (rule go_on.commit) (use x' in \<open>simp_all add: only_session_def\<close>)
  then have "cluster_reachable env hooks w
      (ends 0 (s'\<lparr>committed := visible s' x', history := history s' @ [(tx_movement x', res)]\<rparr>))"
    by (intro cluster_reachable.step [OF goes_on_reachable [OF go begun]] cluster_step.goes_on)
  with x' db show thesis
    by (intro that) (auto simp: ends_def only_session_def all_ended_def)
qed

end
