(* ===== verification/Overlap.thy ===== *)
theory Overlap
  imports Completion Outbox Demo
begin

text \<open>
  The properties of requests that are handled at the same time: that they are as good as handled
  one after the other, that the books stay in order and a key posts once, and that sessions never
  block each other for good.
\<close>

section \<open>Answers under a key\<close>

text \<open>The key a movement is stored under.\<close>

fun movement_key :: "env \<Rightarrow> movement \<Rightarrow> string \<times> uuid option \<times> string" where
  "movement_key env (MTopUp req) =
     (tu_IdempotencyKey req, uuid_Parse env (tu_UserID req), topUpEndpoint)"
| "movement_key env (MTransfer req) =
     (tf_IdempotencyKey req, uuid_Parse env (tf_UserID req), transferEndpoint)"

definition stored_key :: "IdempotencyRecord \<Rightarrow> string \<times> uuid option \<times> string" where
  "stored_key r = (ir_IdempotencyKey r, Some (ir_UserID r), ir_Endpoint r)"

definition answered :: "env \<Rightarrow> IdempotencyRecord list \<Rightarrow> movement \<times> OperationResult \<Rightarrow> bool" where
  "answered env rs = (\<lambda>(m, res). \<exists>r \<in> set rs. stored_key r = movement_key env m \<and>
     ir_StatusCode r = or_StatusCode res \<and> ir_ResponseBody r = or_Body res)"

definition fresh_keys :: "env \<Rightarrow> (movement \<times> OperationResult) list \<Rightarrow> (string \<times> uuid option \<times> string) list" where
  "fresh_keys env h = map (\<lambda>(m, res). movement_key env m) (filter (\<lambda>(m, res). \<not> or_Replay res) h)"

lemma stored_keyI: "idempotency_key_of r = (key, u, ep) \<Longrightarrow> stored_key r = (key, Some u, ep)"
  by (simp add: stored_key_def idempotency_key_of_def)

lemma stored_key_of: "stored_key r = (\<lambda>(key, u, ep). (key, Some u, ep)) (idempotency_key_of r)"
  by (simp add: stored_key_def idempotency_key_of_def)

lemma stored_keys_distinct: "db_ok d \<Longrightarrow> distinct (map stored_key (idempotency_records d))"
proof -
  assume "db_ok d"
  then have "distinct (map idempotency_key_of (idempotency_records d))"
    by (simp add: db_ok_def idempotency_records_ok_def)
  moreover have "inj_on stored_key (set rs)" if "inj_on idempotency_key_of (set rs)" for rs
    using that by (auto simp: inj_on_def stored_key_def idempotency_key_of_def)
  ultimately show ?thesis by (simp add: distinct_map)
qed

lemma recorded_grows:
  assumes "recorded key u h ep res d d'"
  shows "\<exists>r. idempotency_records d' = idempotency_records d @ [r] \<and> stored_key r = (key, Some u, ep) \<and>
    ir_StatusCode r = or_StatusCode res \<and> ir_ResponseBody r = or_Body res \<and> \<not> or_Replay res"
  using assms unfolding recorded_def by (auto intro: stored_keyI)

lemma replayed_answered:
  assumes "replayed key u h ep res d"
  shows "or_Replay res \<and> (\<exists>r \<in> set (idempotency_records d). stored_key r = (key, Some u, ep) \<and>
    ir_StatusCode r = or_StatusCode res \<and> ir_ResponseBody r = or_Body res)"
  using assms unfolding replayed_def by (auto intro!: bexI stored_keyI)

text \<open>A fresh answer adds the record of its key, a replay finds it.\<close>

lemma perform_records:
  assumes run: "perform env hooks m w = (Inr res, w')" and ok: "db_ok (db w)"
  shows "db_ok (db w') \<and> answered env (idempotency_records (db w')) (m, res) \<and>
    (\<exists>rs. idempotency_records (db w') = idempotency_records (db w) @ rs \<and>
       map stored_key rs = fresh_keys env [(m, res)])"
proof (cases m)
  case (MTopUp req)
  from configured_notifier_ok ok run [unfolded MTopUp perform.simps] show ?thesis
  proof (cases rule: TopUp_cases)
    case (replay u res')
    with replayed_answered [OF replay(3)] ok MTopUp show ?thesis
      by (auto simp: answered_def fresh_keys_def)
  next
    case (posted u res')
    then obtain h where "recorded (tu_IdempotencyKey req) u h topUpEndpoint res' (db w) (db w')"
      unfolding topup_done_def by blast
    from recorded_grows [OF this] posted MTopUp show ?thesis
      by (auto simp: answered_def fresh_keys_def)
  qed simp
next
  case (MTransfer req)
  from configured_notifier_ok ok run [unfolded MTransfer perform.simps] show ?thesis
  proof (cases rule: Transfer_cases)
    case (replay u res')
    with replayed_answered [OF replay(3)] ok MTransfer show ?thesis
      by (auto simp: answered_def fresh_keys_def)
  next
    case (posted u i res')
    then obtain h where "recorded (tf_IdempotencyKey req) u h transferEndpoint res' (db w) (db w')"
      unfolding transfer_done_def by blast
    from recorded_grows [OF this] posted MTransfer show ?thesis
      by (auto simp: answered_def fresh_keys_def)
  qed simp
qed

lemma same_code_key [simp]: "same_code env env' \<Longrightarrow> movement_key env' m = movement_key env m"
  by (cases m) (auto simp: same_code_def)

lemma serial_records:
  assumes "serial env hooks d h d'" and "db_ok d"
  shows "db_ok d' \<and> list_all (answered env (idempotency_records d')) h \<and>
    (\<exists>rs. idempotency_records d' = idempotency_records d @ rs \<and> map stored_key rs = fresh_keys env h)"
  using assms
proof (induction rule: serial.induct)
  case (one_more h w env' m res w')
  from one_more.IH [OF one_more.prems] perform_records [OF one_more.hyps(3)] one_more.hyps(2) show ?case
    by (fastforce simp: list_all_iff answered_def fresh_keys_def)
next
  case (others h d1 d2)
  from others.hyps(2) have "idempotency_records d2 = idempotency_records d1"
    by (auto simp: beside_work_def other_work_def registered_def)
  with others.IH [OF others.prems] beside_work_ok [OF others.hyps(2)] show ?case by simp
qed (simp add: fresh_keys_def)

section \<open>Deliveries\<close>

definition outbox_matches :: "WebhookConfig option \<Rightarrow> database \<Rightarrow> bool" where
  "outbox_matches hooks d \<longleftrightarrow> map wd_TransactionID (webhook_deliveries d) =
     (if hooks_on hooks then map (\<lambda>t. Some (t_ID t)) (transactions d) else [])"

lemma outbox_step_matches: "outbox_step hooks d d' \<Longrightarrow> outbox_matches hooks d \<Longrightarrow> outbox_matches hooks d'"
  by (auto simp: outbox_step_def outbox_matches_def new_delivery_def split: if_splits)

lemma other_work_matches:
  assumes "other_work d e" and "outbox_matches hooks d"
  shows "outbox_matches hooks e"
proof -
  let ?ids = "\<lambda>d. map (\<lambda>v. (wd_ID v, wd_TransactionID v)) (webhook_deliveries d)"
  have "map snd (?ids e) = map snd (?ids d)" using assms(1) by (simp only: other_work_def)
  then have ids: "map wd_TransactionID (webhook_deliveries e) = map wd_TransactionID (webhook_deliveries d)"
    by (simp add: comp_def)
  have "transactions e = transactions d" using assms(1) by (simp add: other_work_def)
  with assms(2) show ?thesis unfolding outbox_matches_def ids by simp
qed

lemma beside_work_matches: "beside_work d e \<Longrightarrow> outbox_matches hooks d \<Longrightarrow> outbox_matches hooks e"
  unfolding beside_work_def
  by (auto intro: other_work_matches, auto simp: registered_def outbox_matches_def)

lemma perform_outbox:
  assumes "perform env hooks m w = (r, w')" and "db_ok (db w)"
  shows "outbox_step hooks (db w) (db w')"
  using assms(1) TopUp_outbox [OF assms(2), of hooks env] Transfer_outbox [OF assms(2), of hooks env]
  by (cases m) (metis perform.simps snd_conv)+

lemma serial_outbox:
  assumes "serial env hooks d h d'" and "db_ok d" and "outbox_matches hooks d"
  shows "outbox_matches hooks d'"
  using assms
proof (induction rule: serial.induct)
  case (one_more h w env' m res w')
  from serial_records [OF one_more.hyps(1) one_more.prems(1)] one_more.IH [OF one_more.prems]
    perform_outbox [OF one_more.hyps(3)] show ?case by (blast intro: outbox_step_matches)
qed (auto intro: beside_work_matches)

section \<open>The work beside the movements\<close>

text \<open>
  Every request that moves no money, and the worker, is work beside the movements in the sense of the
  interleavings: what holds of overlapping movements holds in the presence of these.
\<close>

fun beside :: "command \<Rightarrow> bool" where
  "beside Seed = True"
| "beside (DoRegister req) = True"
| "beside (DoLogin req) = True"
| "beside (DoQuery q) = True"
| "beside (DoReconcile admin) = True"
| "beside (DoWork ev) = True"
| "beside Restart = True"
| "beside (DoTopUp req) = False"
| "beside (DoTransfer req) = False"

definition logs_and_states :: "database \<Rightarrow> database \<Rightarrow> bool" where
  "logs_and_states d e \<longleftrightarrow>
     map (\<lambda>v. (wd_ID v, wd_TransactionID v)) (webhook_deliveries e) =
       map (\<lambda>v. (wd_ID v, wd_TransactionID v)) (webhook_deliveries d) \<and>
     (\<exists>ls. audit_logs e = audit_logs d @ ls)"

lemma logs_and_states_refl: "logs_and_states d d"
  by (simp add: logs_and_states_def)

interpretation logs: delivery_invariant "logs_and_states d" for d
proof unfold_locales
  fix a cfg i e e'
  show "logs_and_states d e \<Longrightarrow> insert_audit_log a e = Inr ((), e') \<Longrightarrow> logs_and_states d e'"
    by (auto simp: logs_and_states_def insert_audit_log_def)
  assume "row_step cfg i e e'" and ok: "db_ok e" and e: "logs_and_states d e"
  then consider "e' = e"
    | v v' where "v \<in> set (webhook_deliveries e)" "delivery_step cfg v v'"
        "e' = e\<lparr>webhook_deliveries := replace_row wd_ID v' (webhook_deliveries e)\<rparr>"
    unfolding row_step_def by blast
  then show "logs_and_states d e'"
  proof cases
    case 2
    have "same_message v v'" using 2(2) by (rule delivery_step_message)
    then have "map (\<lambda>v. (wd_ID v, wd_TransactionID v)) (replace_row wd_ID v' (webhook_deliveries e)) =
        map (\<lambda>v. (wd_ID v, wd_TransactionID v)) (webhook_deliveries e)"
      using delivery_unique [OF ok 2(1)] by (auto simp: replace_row_def same_message_def)
    with 2(3) e show ?thesis by (simp add: logs_and_states_def)
  qed (use e in simp)
qed

lemma command_other_work:
  assumes "beside c" and ok: "db_ok (db w)" and "c \<noteq> Seed" and "\<And>req. c \<noteq> DoRegister req"
  shows "other_work (db w) (db (run_command env pg c w))"
proof -
  let ?beside = "\<lambda>w'. aside w w' \<and> logs_and_states (db w) (db w')"
  note refl = logs_and_states_refl and run = surjective_pairing
  have "?beside (run_command env pg c w)"
  proof (cases c)
    case (DoLogin req)
    with preserves_snd [OF logs.login_kept _ run] aside_preserves [OF aside_Login run] refl
    show ?thesis by simp
  next
    case (DoQuery q)
    then show ?thesis by (simp add: run_query_aside logs.query_kept refl)
  next
    case (DoReconcile admin)
    with preserves_snd [OF logs.reconciliation_kept _ run] aside_preserves [OF aside_Reconciliation_Run run] refl
    show ?thesis by simp
  next
    case (DoWork ev)
    then show ?thesis
      by (simp add: aside_worker_turn logs.worker_kept [OF ok refl] refl split: option.split)
  next
    case Restart
    then show ?thesis by (simp add: aside_def refl)
  qed (use assms in simp_all)
  then show ?thesis using ok by (simp add: other_work_def logs_and_states_def aside_def)
qed

lemma beside_command:
  assumes "beside c" and ok: "db_ok (db w)"
  shows "beside_work (db w) (db (run_command env pg c w))"
proof -
  have same: "beside_work (db w) d" if "d = db w" for d
    using that ok by (simp add: beside_work_def other_work_def)
  have new: "beside_work (db w) d" if "registered user (db w) d" "db_ok d" for user d
    using that by (auto simp: beside_work_def)
  show ?thesis
  proof (cases c)
    case Seed
    from ok surjective_pairing [of "seedAdmin env (pg_seed pg) w"] show ?thesis
      by (rule seedAdmin_cases) (use Seed same new in auto)
  next
    case (DoRegister req)
    from ok surjective_pairing [of "Register env req w"] show ?thesis
      by (rule Register_cases) (use DoRegister same new in auto)
  qed (use assms(1) command_other_work [OF assms] in \<open>simp_all add: beside_work_def\<close>)
qed

text \<open>So a cluster in which no session is open can go on with any such command.\<close>

lemma beside_reachable:
  assumes "cluster_reachable env hooks w s" and "all_ended s" and "db_ok (committed s)"
    and "beside c" and "db v = committed s"
  shows "cluster_reachable env hooks w (s\<lparr>committed := db (run_command env pg c v)\<rparr>)"
proof (rule cluster_reachable.step [OF assms(1)], rule cluster_step.others_work)
  show "beside_work (committed s) (db (run_command env pg c v))"
    using beside_command [OF assms(4), of v] assms(3,5) by simp
qed (use assms(2) in \<open>simp_all add: all_ended_def\<close>)

section \<open>A cluster\<close>

text \<open>
  From the tables of the two users: a top-up has committed, the same request has come again, and
  a transfer is open at the same time.
\<close>

abbreviation demo_clusters :: "cluster \<Rightarrow> bool" where
  "demo_clusters \<equiv> cluster_reachable demo_env (pg_hooks demo_program) demo_world"

lemma demo_cluster:
  obtains res s where "demo_clusters s" and "history s = [(MTopUp demo_topup, res)]" and "\<not> or_Replay res"
    and "committed s = db demo_funded" and "dom (sessions s) = {0, 1}"
proof -
  obtain res where run: "perform demo_env (pg_hooks demo_program) (MTopUp demo_topup) demo_world = (Inr res, demo_funded)"
    and fresh: "\<not> or_Replay res" using demo_TopUp by auto
  have "sql_session demo_world = NoTx" by (simp add: demo_world_eq)
  from perform_reachable [OF run demo_no_faults this] obtain s where
    s: "demo_clusters s" "all_ended s" "committed s = db demo_funded" "history s = [(MTopUp demo_topup, res)]" .
  obtain p q where p: "session demo_env (pg_hooks demo_program) (MTopUp demo_topup) = Inr p"
    and q: "session demo_env (pg_hooks demo_program) (MTransfer demo_transfer) = Inr q"
    by (simp add: demo_topup_def demo_transfer_def)
  let ?s1 = "put 0 \<lparr>tx_movement = MTopUp demo_topup, tx_prog = p, tx_writes = [], tx_locks = {}\<rparr> s"
  let ?s2 = "put 1 \<lparr>tx_movement = MTransfer demo_transfer, tx_prog = q, tx_writes = [], tx_locks = {}\<rparr> ?s1"
  have "demo_clusters ?s1"
    by (rule cluster_reachable.step [OF s(1)], rule cluster_step.begins) (use s(2) p in \<open>simp_all add: all_ended_def\<close>)
  then have "demo_clusters ?s2"
    by (rule cluster_reachable.step, intro cluster_step.begins)
      (use s(2) q in \<open>simp_all add: all_ended_def put_def\<close>)
  then show thesis
    using s(2-4) fresh by (intro that [of ?s2 res]) (auto simp: put_def all_ended_def)
qed

section \<open>A report torn between two states\<close>

text \<open>
  \<open>ReconciliationUsecase.Run\<close> reads wallets, transactions and entries in three statements outside
  any transaction, so another session may commit in between. Here the wallets are read before the
  top-up commits and the rest after it: the report finds fault with books that are in order
  before and after.
\<close>

lemma singleton_sorted: "mset xs = {#e#} \<Longrightarrow> xs = [e]"
  by (metis mset_single_iff_right)

lemma reconciliation_torn:
  "\<exists>s. demo_clusters s \<and> books_ok (db demo_world) \<and> books_ok (committed s) \<and>
     \<not> rr_Healthy (reconcileState demo_env checked (wallets (db demo_world)) (transactions (committed s))
         (ledger_entries (committed s)))"
proof -
  obtain res s where s: "demo_clusters s" "history s = [(MTopUp demo_topup, res)]"
    "\<not> or_Replay res" "committed s = db demo_funded" "dom (sessions s) = {0, 1}" by (rule demo_cluster)
  let ?es = "ledger_entries (db demo_funded)"
  obtain e where e: "?es = [e]" "le_WalletID e = 1" "le_BalanceAfter e = 500" by (simp add: demo_funded_eq)
  have "sortLedgerEntries demo_env (entries_of_wallet ?es 1) = [e]"
    by (rule singleton_sorted) (simp add: e entries_of_wallet_def)
  then have "\<not> consistent demo_env (wallets (db demo_world)) (transactions (db demo_funded)) ?es"
    by (simp add: consistent_def demo_world_eq e)
  with s demo_books show ?thesis by (auto simp: report_consistent)
qed

section \<open>The properties\<close>

text \<open>
  C8: Top-ups and transfers that are handled at the same time, statement by statement in any
  interleaving, with the row locks the code asks for, with sessions that break off anywhere, and
  with registrations, reads, logins and worker turns in between, are serializable: those that
  commit have the effect and the answers of TopUp and Transfer run one after the other in the
  order in which they commit.
\<close>

theorem movements_serializable:
  assumes "cluster_reachable env hooks w s" and "db_ok (db w)"
  shows "serial env hooks (db w) (history s) (committed s)"
  using cluster_reachable_ok [OF assms] by (simp add: cluster_ok_def)

lemma movements_serializable_witness:
  "\<exists>s res. demo_clusters s \<and> dom (sessions s) = {0, 1} \<and> history s = [(MTopUp demo_topup, res)] \<and>
     serial demo_env (pg_hooks demo_program) (db demo_world) (history s) (db demo_funded)"
proof -
  obtain res s where s: "demo_clusters s" "history s = [(MTopUp demo_topup, res)]"
    "\<not> or_Replay res" "committed s = db demo_funded" "dom (sessions s) = {0, 1}" by (rule demo_cluster)
  with movements_serializable [OF s(1) demo_books(1)] show ?thesis by auto
qed

text \<open>
  C9: Whatever requests led up to it and however top-ups and transfers overlap from then on, the
  committed tables satisfy the constraints, the ledger chains are intact, no key has posted twice,
  the money in all wallets is the money that was topped up, and with webhooks configured every
  transaction has its delivery.
\<close>

theorem overlapping_books:
  assumes "reachable env pg w" and "cluster_reachable env (pg_hooks pg) w s"
  shows "db_ok (committed s) \<and> books_ok (committed s) \<and>
    distinct (map transaction_key (transactions (committed s))) \<and>
    total_balance (committed s) = minted (transactions (committed s)) \<and>
    map wd_TransactionID (webhook_deliveries (committed s)) =
      (if hooks_on (pg_hooks pg) then map (\<lambda>t. Some (t_ID t)) (transactions (committed s)) else [])"
proof -
  have w: "balanced (db w)" using reachable_invariant [OF assms(1)] by (simp add: invariant_balanced)
  then have "db_ok (db w)" by (simp add: balanced_def)
  from cluster_reachable_ok [OF assms(2) this]
  have "serial env (pg_hooks pg) (db w) (history s) (committed s)" by (simp add: cluster_ok_def)
  moreover have "outbox_matches (pg_hooks pg) (db w)"
    using reachable_outbox [OF assms(1)] by (simp add: outbox_ok_def outbox_matches_def)
  ultimately have c: "balanced (committed s)" and o: "outbox_matches (pg_hooks pg) (committed s)"
    using serial_balanced [OF _ w] serial_outbox w by (blast, auto simp: balanced_def)
  then have "distinct (map idempotency_key_of (idempotency_records (committed s)))"
    by (simp add: balanced_def db_ok_def idempotency_records_ok_def)
  moreover have "map idempotency_key_of (idempotency_records (committed s)) =
      map transaction_key (transactions (committed s))"
    using c by (simp add: balanced_def keys_ok_def)
  ultimately show ?thesis using c o by (simp add: balanced_def outbox_matches_def)
qed

lemma overlapping_books_witness:
  "\<exists>s. demo_clusters s \<and> dom (sessions s) = {0, 1} \<and> transactions (committed s) \<noteq> [] \<and>
     books_ok (committed s) \<and> total_balance (committed s) = minted (transactions (committed s))"
proof -
  obtain res s where s: "demo_clusters s" "history s = [(MTopUp demo_topup, res)]"
    "\<not> or_Replay res" "committed s = db demo_funded" "dom (sessions s) = {0, 1}" by (rule demo_cluster)
  moreover have "transactions (db demo_funded) \<noteq> []" by (simp add: demo_funded_eq)
  ultimately show ?thesis using overlapping_books [OF demo_world_reachable s(1)] by auto
qed

text \<open>
  C14: Among top-ups and transfers handled at the same time, at most one under each key is carried
  out, and all that are answered under the same key get the same status and body.
\<close>

theorem key_answers_agree:
  assumes "cluster_reachable env hooks w s" and "db_ok (db w)"
  shows "distinct (fresh_keys env (history s)) \<and>
    (\<forall>(m, res) \<in> set (history s). \<forall>(m', res') \<in> set (history s).
       movement_key env m = movement_key env m' \<longrightarrow>
       or_StatusCode res = or_StatusCode res' \<and> or_Body res = or_Body res')"
proof -
  have "serial env hooks (db w) (history s) (committed s)"
    using cluster_reachable_ok [OF assms] by (simp add: cluster_ok_def)
  from serial_records [OF this assms(2)] obtain rs where ok: "db_ok (committed s)"
    and all: "list_all (answered env (idempotency_records (committed s))) (history s)"
    and rs: "idempotency_records (committed s) = idempotency_records (db w) @ rs"
      "map stored_key rs = fresh_keys env (history s)" by blast
  note keys = stored_keys_distinct [OF ok]
  have "or_StatusCode res = or_StatusCode res' \<and> or_Body res = or_Body res'"
    if "(m, res) \<in> set (history s)" "(m', res') \<in> set (history s)"
      "movement_key env m = movement_key env m'" for m res m' res'
  proof -
    have found: "\<exists>r \<in> set (idempotency_records (committed s)). stored_key r = movement_key env n \<and>
        ir_StatusCode r = or_StatusCode a \<and> ir_ResponseBody r = or_Body a" if "(n, a) \<in> set (history s)" for n a
      using all that unfolding list_all_iff answered_def by auto
    from found [OF that(1)] found [OF that(2)] that(3) obtain r r' where "r \<in> set (idempotency_records (committed s))"
      "r' \<in> set (idempotency_records (committed s))" "stored_key r = stored_key r'"
      "ir_StatusCode r = or_StatusCode res" "ir_ResponseBody r = or_Body res"
      "ir_StatusCode r' = or_StatusCode res'" "ir_ResponseBody r' = or_Body res'"
      by metis
    moreover from this keys have "r = r'" by (auto simp: distinct_map dest: inj_onD)
    ultimately show ?thesis by simp
  qed
  moreover have "distinct (fresh_keys env (history s))"
    using keys unfolding rs(1) rs(2) [symmetric] by simp
  ultimately show ?thesis by blast
qed

lemma key_answers_agree_witness:
  "\<exists>s. demo_clusters s \<and> fresh_keys demo_env (history s) = [(''k1'', Some 0, topUpEndpoint)] \<and>
     distinct (fresh_keys demo_env (history s))"
proof -
  obtain res s where s: "demo_clusters s" "history s = [(MTopUp demo_topup, res)]"
    "\<not> or_Replay res" "committed s = db demo_funded" "dom (sessions s) = {0, 1}" by (rule demo_cluster)
  with key_answers_agree [OF s(1) demo_books(1)] show ?thesis
    by (intro exI [of _ s]) (auto simp: fresh_keys_def demo_topup_def)
qed

text \<open>
  C17: Sessions that move money never wait for each other for good: whichever of them goes on at
  each point, after finitely many steps all have ended, unless two generated identifiers are the
  same.
\<close>

theorem sessions_end:
  assumes "cluster_reachable env hooks w s" and "db_ok (db w)"
  shows "winds_down env s"
  using reachable_winds_down [OF assms] .

lemma sessions_end_witness:
  "\<exists>s. demo_clusters s \<and> dom (sessions s) = {0, 1} \<and> winds_down demo_env s"
proof -
  obtain res s where s: "demo_clusters s" "history s = [(MTopUp demo_topup, res)]"
    "\<not> or_Replay res" "committed s = db demo_funded" "dom (sessions s) = {0, 1}" by (rule demo_cluster)
  with sessions_end [OF s(1) demo_books(1)] show ?thesis by blast
qed

end
