(* ===== verification/Spec2Isabelle.thy ===== *)
theory Spec2Isabelle
  imports Demo RateLimit Service Overlap
begin

text \<open>
  go-hermes: a wallet backend. Users register and log in, top up their wallet and transfer money
  to another wallet; every movement leaves a transaction and ledger entries and is announced by
  a signed webhook; an administrator reads the tables and has the books reconciled. The tables are
  in PostgreSQL, the counters of the rate limits in Redis.

  \<^bold>\<open>The parts of the program and where they are modelled.\<close>

  \<^item> \<^verbatim>\<open>Prelude.thy\<close>: operations with an error result, their weakest preconditions, integers at
    64 bits, lists and sorting. \<^verbatim>\<open>Strconv.thy\<close>: \<open>Atoi\<close> and \<open>ParseBool\<close>.
  \<^item> \<^verbatim>\<open>Entities.thy\<close>, \<^verbatim>\<open>Apperror.thy\<close>, \<^verbatim>\<open>Responses.thy\<close>, \<^verbatim>\<open>Pagination.thy\<close>: \<^verbatim>\<open>internal/entity\<close>,
    \<^verbatim>\<open>internal/pkg/apperror\<close> with \<^verbatim>\<open>internal/repository/errors.go\<close>, \<^verbatim>\<open>internal/usecase/types.go\<close>,
    \<^verbatim>\<open>internal/pkg/pagination\<close>.
  \<^item> \<^verbatim>\<open>Runtime.thy\<close>: the environment (\<open>env\<close>), the world, statements that may fail, and
    \<open>WithinTransaction\<close>. \<^verbatim>\<open>Schema.thy\<close>: the tables and constraints of \<^verbatim>\<open>migrations\<close>.
    \<^verbatim>\<open>Repositories.thy\<close>: \<^verbatim>\<open>internal/repository/gorm.go\<close>.
  \<^item> \<^verbatim>\<open>Transactions.thy\<close>: \<^verbatim>\<open>internal/usecase/transaction.go\<close>. \<^verbatim>\<open>Webhook.thy\<close>: \<^verbatim>\<open>internal/usecase/webhook.go\<close>.
    \<^verbatim>\<open>Auth.thy\<close>: \<^verbatim>\<open>internal/usecase/auth.go\<close>, \<^verbatim>\<open>internal/pkg/hash\<close>, the issuing of tokens and
    \<open>seedAdmin\<close>. \<^verbatim>\<open>Queries.thy\<close>: the reading use cases and the health check.
    \<^verbatim>\<open>Reconciliation.thy\<close>: \<^verbatim>\<open>internal/usecase/reconciliation.go\<close>.
  \<^item> \<^verbatim>\<open>RateLimit.thy\<close>, \<^verbatim>\<open>Middleware.thy\<close>, \<^verbatim>\<open>Tokens.thy\<close>: \<^verbatim>\<open>internal/pkg/ratelimit\<close>, the decisions of
    \<^verbatim>\<open>internal/middleware\<close>, \<open>ParseToken\<close>. \<^verbatim>\<open>Config.thy\<close>: \<^verbatim>\<open>internal/config\<close>.
  \<^item> \<^verbatim>\<open>Http.thy\<close>, \<^verbatim>\<open>Handlers.thy\<close>, \<^verbatim>\<open>Router.thy\<close>: requests, the stack of handlers, the middleware as
    handlers, \<^verbatim>\<open>internal/delivery/http\<close>, \<^verbatim>\<open>internal/app\<close> and what \<^verbatim>\<open>cmd/api/main.go\<close> wires together.
    \<^verbatim>\<open>Serving.thy\<close>: the start of the process and the requests and worker turns that follow.
  \<^item> \<^verbatim>\<open>System.thy\<close>: the commands all of this amounts to, the reachable worlds and the invariant.
  \<^item> \<^verbatim>\<open>Sessions.thy\<close>: the movements of money once more, as programs that stop at every call, with
    the proof that an uninterrupted run is \<open>TopUp\<close> or \<open>Transfer\<close>. \<^verbatim>\<open>Interleaving.thy\<close>: many of them at
    the same time, with the locks of PostgreSQL.

  \<^bold>\<open>How the parts interact.\<close> A handler calls one use case; a use case calls the repositories, in a
  transaction where the code opens one, and the notifier; the notifier creates a delivery in the
  same transaction and queues it after the commit; the worker takes deliveries from the queue or
  from its periodic scan and sends them. The interfaces between the parts are locales, each with
  its interpretation on the model of the code: \<open>transaction_manager\<close> (\<open>WithinTransaction\<close>),
  \<open>webhook_notifier\<close> (the service and the one that does nothing), \<open>limiter\<close> (both rate limiters),
  \<open>audit_invariant\<close> and \<open>delivery_invariant\<close> (what survives reading requests and the worker),
  and \<open>routes\<close>, what the stack of routes needs of endpoints and middleware so that every request
  meets a property.

  \<^bold>\<open>State.\<close> A \<open>world\<close> has the seven tables as lists of rows, the state of the SQL session, how many
  identifiers, clock readings, statements and salts have been used, the queue of the worker and
  the webhook requests sent. A \<open>server\<close> adds the Redis server, the counters and the log. Errors
  are values (\<open>goerror\<close>); panics are an outcome of a handler.

  \<^bold>\<open>What the lemmas show.\<close>

  \<^item> \<^verbatim>\<open>Ledger.thy\<close> and \<^verbatim>\<open>Accounts.thy\<close> hold the abstract specification: ledger chains, and a bank whose
    accounts are deposited to and moved between. \<^verbatim>\<open>Postings.thy\<close> and \<^verbatim>\<open>Money.thy\<close> derive what \<open>TopUp\<close>
    and \<open>Transfer\<close> do to it, statement by statement, faults included; \<^verbatim>\<open>Progress.thy\<close> that they
    succeed when they should.
  \<^item> \<^verbatim>\<open>System.thy\<close>: the invariant of every reachable world. \<^verbatim>\<open>Outbox.thy\<close> and \<^verbatim>\<open>Worker.thy\<close>: the
    deliveries follow the transactions, keep to their life cycle, and the scan delivers.
  \<^item> \<^verbatim>\<open>Isolation.thy\<close>: a statement that has taken its locks gives the same reply whatever others commit
    meanwhile. \<^verbatim>\<open>Solo.thy\<close>: a session's past could be repeated on the tables committed now.
    \<^verbatim>\<open>Concurrency.thy\<close>: so every interleaving is as good as the order of the commits.
    \<^verbatim>\<open>Waiting.thy\<close>: somebody can always go on. \<^verbatim>\<open>Completion.thy\<close>: all sessions end, and a run nobody
    interrupts is an interleaving. \<^verbatim>\<open>Overlap.thy\<close>: the properties of overlapping requests.
  \<^item> \<^verbatim>\<open>Requests.thy\<close>: what a request can do and what is refused. \<^verbatim>\<open>Disclosure.thy\<close>: the envelopes of
    the answers, and what an internal error shows. \<^verbatim>\<open>Service.thy\<close>: the properties of the server. \<^verbatim>\<open>Demo.thy\<close>, \<^verbatim>\<open>HttpDemo.thy\<close>: a
    concrete environment and server on which the theorems are applied.
  \<^item> This theory: the properties of the commands and of the reachable worlds.

  \<^bold>\<open>Parameters and hypotheses.\<close> \<open>env\<close> holds the uuid package, the clock, bcrypt, the HMAC, the
  rendering of JSON, the signing of tokens, the Unicode tables, the receiver of the webhooks and,
  for every statement, whether it fails beyond what the schema says (refused by the server, lost
  before or after its execution). \<open>http_lib\<close> holds the path matching and body parsers of the web
  framework, what its \<open>SendFile\<close> and \<open>promhttp\<close> answer, the text its recovering middleware makes of
  a panic, the checks of the validator and the token parser. \<open>redis\<close> holds the two calls of the Redis
  limiter. What is asked of them is named where it is needed: \<open>no_faults\<close>, \<open>fresh_ids\<close> (identifiers
  do not collide), \<open>deliverable\<close> (the webhook address is not made of blanks), \<open>receiver_up\<close> and
  \<open>receiver_down\<close>, \<open>parses_signed\<close> (a token with the claims this program signs is read back until it
  expires), \<open>counting\<close> (\<open>INCR\<close> counts), \<open>prefix_of_routes\<close> (a path that matches a pattern matches its
  prefixes). The invariants and the all-or-nothing properties need none of them. Nothing is asked
  of the clock: that the reconciliation finds the books healthy needs the entries of each wallet
  to carry \<open>ascending\<close> times, for which a clock that always advances is enough (\<open>clock_ok\<close>,
  \<open>clock_ascending\<close>), but Go's does not promise that.

  \<^bold>\<open>Bounds.\<close> Amounts, balances and offsets are 64-bit words with wrap-around; durations wrap at 64
  bits. There is no fuel: every loop of the code is a recursion over a list, and the worker is the
  sequence of its turns.

  \<^bold>\<open>What modelling showed.\<close> A delivery is given up when its attempts reach the maximum, not when they
  exceed it. A configured webhook address of blanks alone passes the configuration and makes every
  movement of money fail (\<open>blank_url_fails\<close>). The offset of a page wraps around, so that a huge page
  number may show the first page again (\<open>Offset_wraps\<close>). The list of weak secrets is never decisive,
  its words are shorter than the minimum (\<open>isWeakJWTSecret_length\<close>). The answer \<open>still being
  processed\<close> is never given in a reachable world, the records there are all completed. The three
  reads of a reconciliation are not one transaction: a movement that commits between them makes the
  report find fault with books that are in order (\<open>reconciliation_torn\<close>). So does a clock that
  stands still or goes back between two movements of a wallet (\<open>clock_not_ascending\<close>). The seeding keeps the
  configured address of the administrator as it is, a login looks for its normal form: an
  administrator configured with a capital letter cannot log in (\<open>seeded_admin_locked_out\<close>).

  \<^bold>\<open>Concurrency.\<close> The reachable worlds are those of commands that run one after the other. For
  top-ups and transfers, which overwrite balances they have read, \<^verbatim>\<open>Overlap.thy\<close> shows that this
  loses nothing: in a \<open>cluster\<close> any number of sessions run at the same time, at the isolation level
  \<open>READ COMMITTED\<close>, stop at every statement and wait for locks, and may break off at any point; what
  they commit is what the commands would have done in the order of the commits. All other
  requests and the worker run in between; each of them is seen as changes of the audit logs and the
  deliveries, or as the commit of a new user with a wallet (\<open>beside_work\<close>, \<open>beside_command\<close>). The
  generated identifier of a new wallet is assumed not to be named by a statement under way.

  \<^bold>\<open>Not modelled.\<close> Widths of columns and indexes are not modelled; a statement that fails for such a
  reason is a fault of the environment. Stored JSON is kept as it was, PostgreSQL normalises its
  text. Times are numbers of nanoseconds, their RFC 3339 text stays symbolic. The bytes of pages,
  log lines and metrics, the durations measured, the counters of webhook outcomes, connections,
  listening and the shutdown are left out, as are the test doubles under \<^verbatim>\<open>tests\<close>.
\<close>

text \<open>
  C1: In every state the program can reach, whatever requests, worker turns, reads and database
  faults led to it, the schema's constraints hold, every wallet's ledger entries form a chain from
  zero to its balance, every transaction has exactly the entries it should have, and the money in
  all wallets is the money that was topped up.
\<close>

theorem reachable_books:
  assumes "reachable env pg w"
  shows "db_ok (db w) \<and> books_ok (db w) \<and> total_balance (db w) = minted (transactions (db w))"
  using reachable_invariant [OF assms] by (simp add: invariant_def)

lemma reachable_books_witness:
  "total_balance (db demo_funded) = 500 \<and> books_ok (db demo_funded)"
  using reachable_books [OF demo_reachable]
  by (simp add: demo_funded_eq minted_def demo_transaction_def)

text \<open>
  C11: In every reachable state the transactions have pairwise different (idempotency key, user,
  endpoint) and correspond one to one, in order, to the idempotency records: no key ever posts
  twice.
\<close>

theorem posted_once:
  assumes "reachable env pg w"
  shows "distinct (map transaction_key (transactions (db w))) \<and>
    map idempotency_key_of (idempotency_records (db w)) = map transaction_key (transactions (db w))"
proof -
  have "distinct (map idempotency_key_of (idempotency_records (db w)))"
    using reachable_invariant [OF assms] by (simp add: invariant_def db_ok_def idempotency_records_ok_def)
  moreover have "map idempotency_key_of (idempotency_records (db w)) = map transaction_key (transactions (db w))"
    using reachable_invariant [OF assms] by (simp add: invariant_def keys_ok_def)
  ultimately show ?thesis by metis
qed

lemma posted_once_witness: "distinct (map transaction_key (transactions (db demo_funded)))"
  using posted_once [OF demo_reachable] by simp

text \<open>
  C22: Whatever commands follow, the ledger only grows at its end: no entry is changed, removed or
  reordered.
\<close>

theorem history_append_only:
  assumes "reachable env pg w"
  shows "\<exists>es. ledger_entries (db (run_commands env pg cs w)) = ledger_entries (db w) @ es"
  using invariant_run_commands [OF reachable_invariant [OF assms]] by (auto simp: extends_def)

lemma history_append_only_witness:
  "\<exists>es. ledger_entries (db (run_commands demo_env demo_program [DoTransfer demo_transfer] demo_funded)) =
     ledger_entries (db demo_funded) @ es"
  using history_append_only [OF demo_reachable] .

text \<open>
  C20: A reconciliation run in any reachable state reports the books as healthy, provided the
  entries of each wallet carry ascending times in the order in which they were posted, that is,
  the clock neither stood still nor went back between two movements of a wallet.
\<close>

theorem reconciliation_healthy:
  assumes "reachable env pg w"
    and "\<forall>v \<in> set (wallets (db w)). ascending (ledger_entries (db w)) (w_ID v)"
    and "Reconciliation_Run env actor w = (Inr report, w')"
  shows "rr_Healthy report"
  using wp_Inr [OF Reconciliation_Run_report assms(3)] healthy_database [OF reachable_invariant [OF assms(1)] assms(2)]
  by auto

lemma reconciliation_healthy_witness:
  "\<exists>report w'. Reconciliation_Run demo_env ''0'' demo_funded = (Inr report, w') \<and> rr_Healthy report"
  using demo_Reconciliation reconciliation_healthy [OF demo_reachable] clock_ascending [OF demo_clock demo_reachable]
  by blast

text \<open>
  C12: A top-up repeated after success, with any commands in between, changes no table and, unless
  it reports an application error, repeats the first answer's status and body and is marked as a
  replay.
\<close>

theorem TopUp_retry:
  assumes "reachable env pg w"
    and "TopUp env (configured_notifier env (pg_hooks pg)) req w = (Inr res, w1)"
    and "w2 = run_commands env pg cs w1"
    and "TopUp env (configured_notifier env (pg_hooks pg)) req w2 = (r, w3)"
  shows "db w3 = db w2 \<and>
    (case r of
       Inl e \<Rightarrow> is_app_error e
     | Inr res' \<Rightarrow> or_Replay res' \<and> or_StatusCode res' = or_StatusCode res \<and> or_Body res' = or_Body res)"
proof -
  have inv: "invariant env w1"
    using invariant_run [OF reachable_invariant [OF assms(1)], of pg "DoTopUp req"] assms(2) by simp
  have "db_ok (db w)" using reachable_invariant [OF assms(1)] by (simp add: invariant_def)
  from this assms(2) obtain userID stored where s: "uuid_Parse env (tu_UserID req) = Some userID"
    "stored \<in> set (idempotency_records (db w1))"
    "idempotency_key_of stored = (tu_IdempotencyKey req, userID, topUpEndpoint)"
    "ir_StatusCode stored = or_StatusCode res" "ir_ResponseBody stored = or_Body res"
    by (rule TopUp_stored)
  from invariant_run_commands [OF inv, of pg cs] s(2) assms(3)
  have "db_ok (db w2)" "stored \<in> set (idempotency_records (db w2))"
    by (auto simp: invariant_def extends_def)
  from TopUp_key_reuse [OF this s(1,3) assms(4)] s(4,5) show ?thesis
    by (auto split: sum.splits)
qed

lemma TopUp_retry_witness:
  "\<exists>r w3. TopUp demo_env (configured_notifier demo_env (pg_hooks demo_program)) demo_topup
     (run_commands demo_env demo_program [DoTransfer demo_transfer] demo_funded) = (r, w3) \<and>
     db w3 = db (run_commands demo_env demo_program [DoTransfer demo_transfer] demo_funded)"
  using demo_TopUp TopUp_retry [OF demo_world_reachable _ refl]
  by (metis prod.collapse)

text \<open>
  C7: A top-up that is answered freshly adds exactly its amount to the caller's wallet: the
  balances are related by the abstract bank operation deposit, and the total grows by the amount.
\<close>

theorem TopUp_deposits:
  assumes "db_ok (db w)" and "books_ok (db w)"
    and "TopUp env (configured_notifier env hooks) req w = (Inr res, w')" and "\<not> or_Replay res"
  shows "\<exists>userID v. uuid_Parse env (tu_UserID req) = Some userID \<and>
     v \<in> set (wallets (db w)) \<and> w_UserID v = userID \<and>
     deposit (w_ID v) (sint (tu_Amount req)) (balances (db w)) = Some (balances (db w')) \<and>
     total_balance (db w') = total_balance (db w) + sint (tu_Amount req)"
  using configured_notifier_ok assms(1,3)
proof (cases rule: TopUp_cases)
  case (posted userID res')
  from posted(4) assms(1,2) posted(2) show ?thesis
    by (rule topup_done_effect) (use posted(1) in blast)
qed (use assms(4) in \<open>auto simp: replayed_def\<close>)

lemma TopUp_deposits_witness:
  "\<exists>res w'. TopUp demo_env (configured_notifier demo_env (pg_hooks demo_program)) demo_topup demo_world =
     (Inr res, w') \<and> total_balance (db w') = total_balance (db demo_world) + 500"
  using demo_TopUp TopUp_deposits [OF demo_books(1,2)] by (fastforce simp: demo_topup_def)

text \<open>
  C6: A transfer that is answered freshly moves exactly its amount from the caller's wallet to the
  recipient's: the balances before and after are related by the abstract bank operation move,
  which cannot overdraw or overflow, and the total is unchanged.
\<close>

theorem Transfer_moves:
  assumes "db_ok (db w)" and "books_ok (db w)"
    and "Transfer env (configured_notifier env hooks) req w = (Inr res, w')" and "\<not> or_Replay res"
  shows "\<exists>userID v recipientID. uuid_Parse env (tf_UserID req) = Some userID \<and>
     uuid_Parse env (tf_RecipientWalletID req) = Some recipientID \<and>
     v \<in> set (wallets (db w)) \<and> w_UserID v = userID \<and>
     move (w_ID v) recipientID (sint (tf_Amount req)) (balances (db w)) = Some (balances (db w')) \<and>
     total_balance (db w') = total_balance (db w)"
  using configured_notifier_ok assms(1,3)
proof (cases rule: Transfer_cases)
  case (posted userID recipientID res')
  from posted(5) assms(1,2) posted(3) show ?thesis
    by (rule transfer_done_effect) (use posted(1,2) in blast)
qed (use assms(4) in \<open>auto simp: replayed_def\<close>)

lemma Transfer_moves_witness:
  "\<exists>res w'. Transfer demo_env (configured_notifier demo_env (pg_hooks demo_program)) demo_transfer
     demo_funded = (Inr res, w') \<and> total_balance (db w') = total_balance (db demo_funded)"
  using demo_Transfer Transfer_moves [OF demo_books(3,4)] by fastforce

text \<open>
  C40: A top-up that reports an error reports an application error and has changed nothing, except
  when it was carried out completely and only the answer to COMMIT was lost; that case is an
  internal error.
\<close>

theorem TopUp_all_or_nothing:
  assumes "db_ok (db w)" and "TopUp env (configured_notifier env hooks) req w = (Inl e, w')"
  shows "is_app_error e \<and> (db w' = db w \<or>
    (\<exists>m userID res. e = Internal (OtherError m) \<and> topup_done env req userID res w w'))"
  using configured_notifier_ok assms by (cases rule: TopUp_cases) auto

lemma TopUp_all_or_nothing_witness:
  "\<exists>e w'. TopUp demo_env (configured_notifier demo_env (pg_hooks demo_program))
     (demo_topup\<lparr>tu_Amount := 0\<rparr>) demo_world = (Inl e, w') \<and> is_app_error e \<and> db w' = db demo_world"
proof -
  have "TopUp demo_env (configured_notifier demo_env (pg_hooks demo_program)) (demo_topup\<lparr>tu_Amount := 0\<rparr>)
      demo_world = (Inl (Validation [(''amount'', ''must be greater than zero'')]), demo_world)"
    by (simp add: TopUp_def demo_topup_def throw_def)
  with TopUp_all_or_nothing [OF demo_books(1) this] show ?thesis by auto
qed

text \<open>
  C10: A transfer that reports an error reports an application error and has changed nothing,
  except when it was carried out completely and only the answer to COMMIT was lost; that case is
  an internal error.
\<close>

theorem Transfer_all_or_nothing:
  assumes "db_ok (db w)" and "Transfer env (configured_notifier env hooks) req w = (Inl e, w')"
  shows "is_app_error e \<and> (db w' = db w \<or>
    (\<exists>m userID recipientID res. e = Internal (OtherError m) \<and>
       transfer_done env req userID recipientID res w w'))"
  using configured_notifier_ok assms by (cases rule: Transfer_cases) auto

lemma Transfer_all_or_nothing_witness:
  "\<exists>e w'. Transfer demo_env (configured_notifier demo_env (pg_hooks demo_program)) demo_transfer
     demo_world = (Inl e, w') \<and> is_app_error e \<and> db w' = db demo_world"
  using demo_overdraft Transfer_all_or_nothing [OF demo_books(1)]
  by (fastforce simp: app_error_defs)

theorem TopUp_keeps_books: "preserves books (TopUp env (configured_notifier env hooks) req)"
proof (rule preservesI)
  fix w r w' assume w: "books w" and run: "TopUp env (configured_notifier env hooks) req w = (r, w')"
  from w have ok: "db_ok (db w)" "books_ok (db w)" by (simp_all add: books_def)
  from configured_notifier_ok ok(1) run show "books w'"
  proof (cases rule: TopUp_cases)
    case (posted userID res)
    from posted(4) ok posted(2) have "books_ok (db w')" by (rule topup_done_effect)
    with posted(3) show ?thesis by (simp add: books_def)
  qed (use w in \<open>simp_all add: books_def\<close>)
qed

theorem Transfer_keeps_books: "preserves books (Transfer env (configured_notifier env hooks) req)"
proof (rule preservesI)
  fix w r w' assume w: "books w" and run: "Transfer env (configured_notifier env hooks) req w = (r, w')"
  from w have ok: "db_ok (db w)" "books_ok (db w)" by (simp_all add: books_def)
  from configured_notifier_ok ok(1) run show "books w'"
  proof (cases rule: Transfer_cases)
    case (posted userID recipientID res)
    from posted(5) ok posted(3) have "books_ok (db w')" by (rule transfer_done_effect)
    with posted(4) show ?thesis by (simp add: books_def)
  qed (use w in \<open>simp_all add: books_def\<close>)
qed

theorem wallet_mismatches_reported:
  "map wi_WalletID (rr_Wallets (reconcileState env checkedAt ws ts es)) =
   map (\<lambda>w. uuid_String env (w_ID w))
     (filter (\<lambda>w. w_Balance w \<noteq>
        word_of_int (sum_list (map entry_delta (entries_of_wallet es (w_ID w))))) ws)"
proof -
  have "map wi_WalletID (concat (map (\<lambda>w. wallet_issues env w
      (sortLedgerEntries env (ledgersByWallet ws es (w_ID w)))) vs)) =
    map (\<lambda>w. uuid_String env (w_ID w)) (filter (\<lambda>w. w_Balance w \<noteq>
        word_of_int (sum_list (map entry_delta (entries_of_wallet es (w_ID w))))) vs)"
    if "set vs \<subseteq> set ws" for vs
    using that
    by (induction vs)
      (auto simp: wallet_issues_def issue_if_def derivedBalance_sum sum_list_sortLedgerEntries
        ledgersByWallet_row)
  from this [of ws] show ?thesis by (simp add: reconcileState_def Let_def)
qed

text \<open>
  C21: The report of reconcileState is healthy exactly when the rows are consistent: a declarative
  condition on wallets, transactions and entries that does not mention the report, so it neither
  misses a broken row nor invents one.
\<close>

theorem reconcileState_healthy:
  "rr_Healthy (reconcileState env checkedAt ws ts es) \<longleftrightarrow> consistent env ws ts es"
  by (rule report_consistent)

text \<open>
  C13: A transfer repeated after success, with any commands in between, changes no table and,
  unless it reports an application error, repeats the first answer's status and body and is marked
  as a replay.
\<close>

theorem Transfer_retry:
  assumes "reachable env pg w"
    and "Transfer env (configured_notifier env (pg_hooks pg)) req w = (Inr res, w1)"
    and "w2 = run_commands env pg cs w1"
    and "Transfer env (configured_notifier env (pg_hooks pg)) req w2 = (r, w3)"
  shows "db w3 = db w2 \<and>
    (case r of
       Inl e \<Rightarrow> is_app_error e
     | Inr res' \<Rightarrow> or_Replay res' \<and> or_StatusCode res' = or_StatusCode res \<and> or_Body res' = or_Body res)"
proof -
  have inv: "invariant env w1"
    using invariant_run [OF reachable_invariant [OF assms(1)], of pg "DoTransfer req"] assms(2) by simp
  have "db_ok (db w)" using reachable_invariant [OF assms(1)] by (simp add: invariant_def)
  from this assms(2) obtain userID stored where s: "uuid_Parse env (tf_UserID req) = Some userID"
    "stored \<in> set (idempotency_records (db w1))"
    "idempotency_key_of stored = (tf_IdempotencyKey req, userID, transferEndpoint)"
    "ir_StatusCode stored = or_StatusCode res" "ir_ResponseBody stored = or_Body res"
    by (rule Transfer_stored)
  from invariant_run_commands [OF inv, of pg cs] s(2) assms(3)
  have "db_ok (db w2)" "stored \<in> set (idempotency_records (db w2))"
    by (auto simp: invariant_def extends_def)
  from Transfer_key_reuse [OF this s(1,3) assms(4)] s(4,5) show ?thesis
    by (auto split: sum.splits)
qed

lemma Transfer_retry_witness:
  "\<exists>res w1 r w3. Transfer demo_env (configured_notifier demo_env (pg_hooks demo_program)) demo_transfer
     demo_funded = (Inr res, w1) \<and>
   Transfer demo_env (configured_notifier demo_env (pg_hooks demo_program)) demo_transfer
     (run_commands demo_env demo_program [DoTopUp demo_topup] w1) = (r, w3) \<and>
     db w3 = db (run_commands demo_env demo_program [DoTopUp demo_topup] w1)"
proof -
  from demo_Transfer obtain res w1 where t: "Transfer demo_env
    (configured_notifier demo_env (pg_hooks demo_program)) demo_transfer demo_funded = (Inr res, w1)" by blast
  obtain r w3 where "Transfer demo_env (configured_notifier demo_env (pg_hooks demo_program)) demo_transfer
     (run_commands demo_env demo_program [DoTopUp demo_topup] w1) = (r, w3)" by fastforce
  with t Transfer_retry [OF demo_reachable t refl this] show ?thesis by blast
qed

text \<open>
  C18: A transfer of more than the caller's wallet holds changes nothing: it is an error, or the
  replay of an earlier answer.
\<close>

theorem Transfer_insufficient:
  assumes "db_ok (db w)" and "uuid_Parse env (tf_UserID req) = Some userID"
    and "v \<in> set (wallets (db w))" and "w_UserID v = userID" and "w_Balance v <s tf_Amount req"
    and "Transfer env (configured_notifier env hooks) req w = (r, w')"
  shows "db w' = db w \<and> (case r of Inl e \<Rightarrow> is_app_error e | Inr res \<Rightarrow> or_Replay res)"
  using configured_notifier_ok assms(1,6)
proof (cases rule: Transfer_cases)
  case (posted u i res)
  then obtain sender where "sender \<in> set (wallets (db w))" "w_UserID sender = userID"
    "\<not> w_Balance sender <s tf_Amount req"
    using assms(2) unfolding transfer_done_def by auto
  moreover from this assms(1,3,4) have "sender = v"
    by (auto simp: db_ok_defs distinct_map dest: inj_onD)
  ultimately show ?thesis using assms(5) by simp
qed (auto simp: replayed_def)

lemma Transfer_insufficient_witness:
  "\<exists>r w'. Transfer demo_env (configured_notifier demo_env (pg_hooks demo_program)) demo_transfer
     demo_world = (r, w') \<and> db w' = db demo_world"
proof -
  obtain r w' where run: "Transfer demo_env (configured_notifier demo_env (pg_hooks demo_program))
     demo_transfer demo_world = (r, w')" by fastforce
  have "db w' = db demo_world"
    using Transfer_insufficient [OF demo_books(1) _ _ _ _ run, of 0 "wallets (db demo_world) ! 0"]
    by (simp add: demo_transfer_def demo_world_eq word_sless_alt)
  with run show ?thesis by blast
qed

text \<open>
  C19: A top-up that would take the balance past the largest int64 changes nothing, although the
  addition wraps around: the schema's CHECK on the balance stops it.
\<close>

theorem TopUp_overflow:
  assumes "db_ok (db w)" and "books_ok (db w)" and "uuid_Parse env (tu_UserID req) = Some userID"
    and "v \<in> set (wallets (db w))" and "w_UserID v = userID"
    and "2 ^ 63 \<le> sint (w_Balance v) + sint (tu_Amount req)"
    and "TopUp env (configured_notifier env hooks) req w = (r, w')"
  shows "db w' = db w \<and> (case r of Inl e \<Rightarrow> is_app_error e | Inr res \<Rightarrow> or_Replay res)"
  using configured_notifier_ok assms(1,7)
proof (cases rule: TopUp_cases)
  case (posted u res)
  from posted(4) assms(1,2) posted(2) obtain v' where v': "v' \<in> set (wallets (db w))" "w_UserID v' = userID"
    "deposit (w_ID v') (sint (tu_Amount req)) (balances (db w)) = Some (balances (db w'))"
    using assms(3) posted(1) by (auto elim: topup_done_effect)
  moreover from this assms(1,4,5) have "v' = v"
    by (auto simp: db_ok_defs distinct_map dest: inj_onD)
  moreover have "balances (db w) (w_ID v) = Some (sint (w_Balance v))"
    using assms(1,4) by (intro balances_wallet) (simp_all add: db_ok_defs)
  ultimately show ?thesis using assms(6) by (auto simp: deposit_def split: if_splits)
qed (auto simp: replayed_def)

lemma TopUp_overflow_witness:
  "\<exists>r w'. TopUp demo_env (configured_notifier demo_env (pg_hooks demo_program))
     (demo_topup\<lparr>tu_Amount := 2 ^ 63 - 1, tu_IdempotencyKey := ''k9''\<rparr>) demo_funded = (r, w') \<and> db w' = db demo_funded"
proof -
  let ?req = "demo_topup\<lparr>tu_Amount := 2 ^ 63 - 1, tu_IdempotencyKey := ''k9''\<rparr>"
  obtain r w' where run: "TopUp demo_env (configured_notifier demo_env (pg_hooks demo_program))
     ?req demo_funded = (r, w')" by fastforce
  have "db w' = db demo_funded"
    using TopUp_overflow [OF demo_books(3,4) _ _ _ _ run, of 0 demo_wallet]
    by (simp add: demo_topup_def demo_funded_eq demo_wallet_def)
  with run show ?thesis by blast
qed

theorem TopUp_key_conflict:
  assumes "db_ok (db w)" and "stored \<in> set (idempotency_records (db w))"
    and "uuid_Parse env (tu_UserID req) = Some userID"
    and "idempotency_key_of stored = (tu_IdempotencyKey req, userID, topUpEndpoint)"
    and "ir_RequestHash stored \<noteq> tu_RequestHash req"
  shows "\<exists>e w'. TopUp env (configured_notifier env hooks) req w = (Inl e, w') \<and> is_app_error e \<and> db w' = db w"
proof -
  obtain r w' where run: "TopUp env (configured_notifier env hooks) req w = (r, w')" by fastforce
  from TopUp_key_reuse [OF assms(1-4) run] assms(5) run show ?thesis by (cases r) auto
qed

lemma TopUp_key_conflict_witness:
  "\<exists>e w'. TopUp demo_env (configured_notifier demo_env (pg_hooks demo_program))
     (demo_topup\<lparr>tu_RequestHash := ''other''\<rparr>) demo_funded = (Inl e, w') \<and> db w' = db demo_funded"
  using TopUp_key_conflict [OF demo_books(3), of "idempotency_records (db demo_funded) ! 0" demo_env
      "demo_topup\<lparr>tu_RequestHash := ''other''\<rparr>" 0 "pg_hooks demo_program"]
  by (auto simp: demo_funded_eq demo_topup_def idempotency_key_of_def)

text \<open>
  C24: A transfer under a key that was used with another request hash is an application error and
  changes nothing.
\<close>

theorem Transfer_key_conflict:
  assumes "db_ok (db w)" and "stored \<in> set (idempotency_records (db w))"
    and "uuid_Parse env (tf_UserID req) = Some userID"
    and "idempotency_key_of stored = (tf_IdempotencyKey req, userID, transferEndpoint)"
    and "ir_RequestHash stored \<noteq> tf_RequestHash req"
  shows "\<exists>e w'. Transfer env (configured_notifier env hooks) req w = (Inl e, w') \<and> is_app_error e \<and> db w' = db w"
proof -
  obtain r w' where run: "Transfer env (configured_notifier env hooks) req w = (r, w')" by fastforce
  from Transfer_key_reuse [OF assms(1-4) run] assms(5) run show ?thesis by (cases r) auto
qed

lemma Transfer_key_conflict_witness:
  "\<exists>w e w'. Transfer demo_env (configured_notifier demo_env (pg_hooks demo_program))
     (demo_transfer\<lparr>tf_RequestHash := ''other''\<rparr>) w = (Inl e, w') \<and> db w' = db w"
proof -
  from demo_Transfer obtain res w1 where t: "Transfer demo_env
    (configured_notifier demo_env (pg_hooks demo_program)) demo_transfer demo_funded = (Inr res, w1)"
    "\<not> or_Replay res" by blast
  from configured_notifier_ok demo_books(3) t(1) show ?thesis
  proof (cases rule: Transfer_cases)
    case (posted u i res')
    then obtain r where "idempotency_records (db w1) = idempotency_records (db demo_funded) @ [r]"
      "idempotency_key_of r = (tf_IdempotencyKey demo_transfer, u, transferEndpoint)"
      "ir_RequestHash r = tf_RequestHash demo_transfer"
      unfolding transfer_done_def recorded_def by blast
    with posted(1,4) Transfer_key_conflict [of w1 r demo_env "demo_transfer\<lparr>tf_RequestHash := ''other''\<rparr>" u
      "pg_hooks demo_program"]
    show ?thesis by (auto simp: demo_transfer_def)
  qed (use t in \<open>auto simp: replayed_def\<close>)
qed





text \<open>
  C28: A successful registration adds one user with the normalised, so far unused address and the
  role user, and one wallet with balance zero owned by that user; every other balance and the
  total stay as they were and the books stay in order.
\<close>

theorem Register_creates:
  assumes "db_ok (db w)" and "books_ok (db w)" and "Register env req w = (Inr res, w')"
  shows "\<exists>u v. users (db w') = users (db w) @ [u] \<and>
     u_Email u = normal_email env (rg_Email req) \<and> u_Email u \<notin> u_Email ` set (users (db w)) \<and>
     u_Name u = strings_TrimSpace (rg_Name req) \<and> u_Role u = RoleUser \<and>
     v \<in> set (wallets (db w')) \<and> w_UserID v = u_ID u \<and>
     balances (db w') = (balances (db w))(w_ID v \<mapsto> 0) \<and> w_ID v \<notin> dom (balances (db w)) \<and>
     books_ok (db w') \<and> total_balance (db w') = total_balance (db w)"
  using assms(1,3)
proof (cases rule: Register_cases)
  case (created user)
  from created(2) obtain u where u: "users (db w') = users (db w) @ [u]" "u_ID u = u_ID user"
    "u_Email u = u_Email user" "u_Name u = u_Name user" "u_Role u = u_Role user"
    "u_Email user \<notin> u_Email ` set (users (db w))"
    unfolding registered_def by blast
  from registered_effect [OF created(2) assms(1,2)] obtain v where "v \<in> set (wallets (db w'))"
    "w_UserID v = u_ID user" "\<not> has_wallet (db w) (w_ID v)" "books_ok (db w')"
    "total_balance (db w') = total_balance (db w)" "balances (db w') = (balances (db w))(w_ID v \<mapsto> 0)"
    by blast
  moreover from this have "w_ID v \<notin> dom (balances (db w))"
    by (auto simp: balances_def has_wallet_def dest!: map_of_SomeD)
  ultimately show ?thesis using u created(3-5) by (intro exI [of _ u] exI [of _ v]) simp
qed simp

lemma Register_creates_witness:
  "\<exists>res w'. Register demo_env demo_registration initial_world = (Inr res, w') \<and>
     (\<exists>u. users (db w') = [u] \<and> u_Email u = ''ann@x'') \<and> books_ok (db w')"
proof -
  from demo_Register obtain res w' where run: "Register demo_env demo_registration initial_world = (Inr res, w')"
    by blast
  have "db_ok (db initial_world)" "books_ok (db initial_world)" "users (db initial_world) = []"
    by (simp_all add: initial_world_def db_ok_empty books_ok_empty) (simp add: empty_database_def)
  moreover have "normal_email demo_env (rg_Email demo_registration) = ''ann@x''"
    by (simp add: normal_email_def demo_registration_def demo_strings)
  ultimately show ?thesis using Register_creates [OF _ _ run] run by auto
qed

text \<open>
  C29: A registration that reports an error has changed nothing, except when it was carried out
  completely and only the answer to COMMIT was lost.
\<close>

theorem Register_all_or_nothing:
  assumes "db_ok (db w)" and "Register env req w = (Inl e, w')"
  shows "is_app_error e \<and>
    (db w' = db w \<or> (\<exists>m user. e = Internal (OtherError m) \<and> registered user (db w) (db w')))"
  using assms by (cases rule: Register_cases) auto

lemma Register_all_or_nothing_witness:
  "\<exists>e w'. Register demo_env (demo_registration\<lparr>rg_Password := ''short''\<rparr>) initial_world = (Inl e, w') \<and> is_app_error e"
proof -
  have "\<exists>e w'. Register demo_env (demo_registration\<lparr>rg_Password := ''short''\<rparr>) initial_world = (Inl e, w')"
    by (simp add: Register_def throw_def demo_registration_def)
  moreover have "db_ok (db initial_world)" by (simp add: initial_world_def db_ok_empty)
  ultimately show ?thesis using Register_all_or_nothing by blast
qed

text \<open>
  C30: A registration whose address in normal form, trimmed and in lower case, is already stored
  for a user is an application error and changes no table.
\<close>

theorem Register_duplicate:
  assumes "db_ok (db w)" and "normal_email env (rg_Email req) \<in> u_Email ` set (users (db w))"
    and "Register env req w = (r, w')"
  shows "(\<exists>e. r = Inl e \<and> is_app_error e) \<and> db w' = db w"
  using assms(1,3)
proof (cases rule: Register_cases)
  case (created user)
  with assms(2) show ?thesis by (simp add: registered_def)
qed simp

lemma Register_duplicate_witness:
  "\<exists>e w'. Register demo_env demo_registration demo_world = (Inl e, w') \<and> db w' = db demo_world"
proof -
  obtain r w' where run: "Register demo_env demo_registration demo_world = (r, w')" by fastforce
  from Register_duplicate [OF demo_books(1) _ run] run show ?thesis
    by (auto simp: demo_world_eq normal_email_def demo_registration_def demo_strings)
qed

theorem seedAdmin_once:
  assumes "db_ok (db w)" and "sc_AdminEmail cfg \<in> u_Email ` set (users (db w))"
    and "seedAdmin env cfg w = (r, w')"
  shows "db w' = db w"
  using assms(1,3)
proof (cases rule: seedAdmin_cases)
  case (created user)
  with assms(2) show ?thesis by (simp add: registered_def)
qed

lemma seedAdmin_once_witness:
  "db (snd (seedAdmin demo_env \<lparr>sc_IsDevelopment = True, sc_EnableAdminSeed = True, sc_AdminName = ''A'',
     sc_AdminEmail = ''ann@x'', sc_AdminPassword = ''password''\<rparr> demo_world)) = db demo_world"
  by (rule seedAdmin_once [OF demo_books(1) _ surjective_pairing]) (simp add: demo_world_eq)

text \<open>
  C31: A successful login is one of an existing user, found under the normalised address, whose
  stored hash matches the password given.
\<close>

theorem Login_checks_password:
  assumes "Login env m req w = (Inr res, w')"
  shows "\<exists>u \<in> set (users (db w)). u_Email u = normal_email env (lg_Email req) \<and>
     bcrypt_Compare env (u_PasswordHash u) (lg_Password req) = None \<and>
     lgr_User res = toUserResponse env u"
proof -
  let ?email = "normal_email env (lg_Email req)"
  obtain g w1 where get: "Users_GetByEmail env ?email w = (g, w1)"
    by (cases "Users_GetByEmail env ?email w")
  with assms obtain u where g: "g = Inr u"
    by (auto simp: Login_def Let_def throw_def split: if_splits sum.splits)
  with get have u: "u \<in> set (users (db w))" "u_Email u = ?email"
    by (auto simp: Users_GetByEmail_def and_then_def query_def first_or_not_found_def throw_def ok_def
        statement_def Let_def split: prod.splits sum.splits option.splits if_splits fault.splits dest!: sql_first_Some)
  have "bcrypt_Compare env (u_PasswordHash u) (lg_Password req) = None"
    using assms get g
    by (auto simp: Login_def Let_def throw_def hash_Compare_def split: if_splits sum.splits option.splits)
  moreover have "lgr_User res = toUserResponse env u"
    using assms get g
    by (auto simp: Login_def Let_def throw_def hash_Compare_def and_then_def ok_def split: if_splits sum.splits option.splits prod.splits)
  ultimately show ?thesis using u by blast
qed

lemma Login_checks_password_witness:
  "\<exists>res w'. Login demo_env (pg_jwt demo_program) \<lparr>lg_Email = ''ann@x'', lg_Password = ''password''\<rparr> demo_world =
     (Inr res, w') \<and> (\<exists>u. lgr_User res = toUserResponse demo_env u \<and> u_PasswordHash u = ''password'')"
proof -
  have "\<exists>res w'. Login demo_env (pg_jwt demo_program) \<lparr>lg_Email = ''ann@x'', lg_Password = ''password''\<rparr> demo_world =
     (Inr res, w')"
    by (simp add: Login_def normal_email_def demo_strings Users_GetByEmail_def hash_Compare_def
        GenerateToken_def Audits_Create_def insert_audit_log_def demo_defs demo_world_eq)
  then obtain res w' where run: "Login demo_env (pg_jwt demo_program)
     \<lparr>lg_Email = ''ann@x'', lg_Password = ''password''\<rparr> demo_world = (Inr res, w')" by blast
  from Login_checks_password [OF run] run show ?thesis by (auto split: if_splits)
qed

text \<open>
  C33: With a working database, an unknown address and a wrong password get the same answer, and
  no table changes.
\<close>

theorem Login_uniform:
  assumes "no_faults env" and "sql_session w = NoTx" and "db_ok (db w)"
    and "normal_email env (lg_Email req) \<noteq> ''''" and "lg_Password req \<noteq> ''''"
    and "\<forall>u \<in> set (users (db w)). u_Email u = normal_email env (lg_Email req) \<longrightarrow>
       bcrypt_Compare env (u_PasswordHash u) (lg_Password req) \<noteq> None"
  shows "\<exists>w'. Login env m req w = (Inl (Unauthorized ''invalid credentials''), w') \<and> db w' = db w"
proof -
  let ?email = "normal_email env (lg_Email req)"
  let ?u = "sql_first u_ID (\<lambda>u. u_Email u = ?email) (users (db w))"
  have get: "Users_GetByEmail env ?email w =
      ((case ?u of None \<Rightarrow> Inl ErrRecordNotFound | Some u \<Rightarrow> Inr u), w\<lparr>n_sql := Suc (n_sql w)\<rparr>)"
    using assms(1,2)
    by (simp add: Users_GetByEmail_def and_then_def query_def first_or_not_found_def throw_def ok_def
        statement_def no_faults_def Let_def split: option.split)
  show ?thesis
  proof (cases ?u)
    case None
    with get assms(4,5) show ?thesis by (auto simp: Login_def Let_def)
  next
    case (Some u)
    with assms(6) have "bcrypt_Compare env (u_PasswordHash u) (lg_Password req) \<noteq> None"
      by (auto dest!: sql_first_Some)
    with Some get assms(4,5) show ?thesis by (auto simp: Login_def Let_def hash_Compare_def throw_def)
  qed
qed

lemma Login_uniform_witness:
  "\<exists>w'. Login demo_env (pg_jwt demo_program) \<lparr>lg_Email = ''ann@x'', lg_Password = ''wrong''\<rparr> demo_world =
     (Inl (Unauthorized ''invalid credentials''), w')"
  using Login_uniform [OF demo_no_faults, of demo_world "\<lparr>lg_Email = ''ann@x'', lg_Password = ''wrong''\<rparr>"
      "pg_jwt demo_program"] demo_books(1)
  by (auto simp: demo_world_eq normal_email_def demo_strings)

text \<open>
  C37: A user reads a transaction only if they initiated it or own its source or destination
  wallet.
\<close>

theorem GetMyTransaction_isolated:
  assumes "GetMyTransaction env userID transactionID w = (Inr res, w')"
  shows "\<exists>user. uuid_Parse env userID = Some user \<and>
     (\<exists>t \<in> set (transactions (db w)). transaction_visible_to (db w) user t \<and>
        uuid_Parse env transactionID = Some (t_ID t) \<and> res = toTransactionResponse env t)"
  using assms
  by (auto simp: GetMyTransaction_def and_then_def parse_id_def not_found_or_internal_def throw_def ok_def
     Transactions_GetByIDForUser_def query_def statement_def first_or_not_found_def Let_def
     split: prod.splits sum.splits option.splits if_splits fault.splits dest!: sql_first_Some)

lemma GetMyTransaction_isolated_witness:
  "\<exists>res w'. GetMyTransaction demo_env ''0'' ''7'' demo_funded = (Inr res, w') \<and>
     (\<exists>t \<in> set (transactions (db demo_funded)). transaction_visible_to (db demo_funded) 0 t)"
proof -
  have "\<exists>res w'. GetMyTransaction demo_env ''0'' ''7'' demo_funded = (Inr res, w')"
    by (simp add: GetMyTransaction_def parse_id_def demo_parse not_found_or_internal_def
        Transactions_GetByIDForUser_def demo_defs demo_funded_eq demo_world_eq demo_transaction_def
        transaction_visible_to_def)
  then show ?thesis using GetMyTransaction_isolated by fastforce
qed

theorem ListMyLedgers_isolated:
  assumes "ListMyLedgers env userID params w = (Inr (rows, meta), w')"
  shows "\<exists>user es. uuid_Parse env userID = Some user \<and> rows = map (toLedgerResponse env) es \<and>
     (\<forall>e \<in> set es. e \<in> set (ledger_entries (db w)) \<and> wallet_owned_by (db w) user (le_WalletID e))"
  using assms set_page
  apply (auto simp: ListMyLedgers_def and_then_def parse_id_def internal_error_def throw_def ok_def
     Ledgers_ListByUser_def list_page_def query_def statement_def newest_first_def Let_def
     split: prod.splits sum.splits option.splits if_splits fault.splits)
  apply (rule exI, rule conjI, rule refl)
  apply (fastforce dest: subsetD [OF set_page])
  done

lemma ListMyLedgers_isolated_witness:
  "\<exists>rows meta w'. ListMyLedgers demo_env ''0'' (Params_New 1 10) demo_funded = (Inr (rows, meta), w') \<and>
     (\<exists>es. rows = map (toLedgerResponse demo_env) es)"
proof -
  have "\<exists>rows meta w'. ListMyLedgers demo_env ''0'' (Params_New 1 10) demo_funded = (Inr (rows, meta), w')"
    by (simp add: ListMyLedgers_def parse_id_def Ledgers_ListByUser_def list_page_def demo_defs
        demo_funded_eq demo_world_eq)
  then show ?thesis using ListMyLedgers_isolated by blast
qed

text \<open>
  C25: Processing a delivery changes at most the row it was called for, and that by one step of
  the delivery state machine: delivered after a 2xx answer, or one more attempt counted and
  rescheduled, or given up when the attempts reach the maximum; the message itself is never
  changed.
\<close>

theorem ProcessDelivery_refines:
  assumes "ProcessDelivery env cfg i w = (r, w')"
  shows "db w' = db w \<or>
     (\<exists>v v'. v \<in> set (webhook_deliveries (db w)) \<and> wd_ID v = i \<and> delivery_step cfg v v' \<and>
        db w' = (db w)\<lparr>webhook_deliveries := replace_row wd_ID v' (webhook_deliveries (db w))\<rparr>)"
  using ProcessDelivery_row_step [OF assms] unfolding row_step_def .

lemma ProcessDelivery_refines_witness:
  "db (snd (ProcessDelivery demo_env demo_hooks 11 demo_funded)) = db demo_funded \<or>
     (\<exists>v'. delivery_step demo_hooks demo_delivery v')"
  using ProcessDelivery_refines [OF surjective_pairing, of demo_env demo_hooks 11 demo_funded] demo_delivery
  by auto

theorem terminal_not_resent:
  assumes "db_ok (db w)" and "v \<in> set (webhook_deliveries (db w))" and "terminal (wd_Status v)"
    and "ProcessDelivery env cfg (wd_ID v) w = (r, w')"
  shows "db w' = db w \<and> http_sent w' = http_sent w"
proof -
  obtain g w1 where g: "WebhookDeliveries_GetByID env (wd_ID v) w = (g, w1)"
    by (cases "WebhookDeliveries_GetByID env (wd_ID v) w")
  note res = GetByID_result [OF g]
  show ?thesis
  proof (cases g)
    case (Inl e)
    with assms(4) g res show ?thesis by (simp add: ProcessDelivery_def and_then_def)
  next
    case (Inr u)
    with res delivery_unique [OF assms(1,2)] have "g = Inr v" by blast
    with g assms(3) have "ProcessDelivery env cfg (wd_ID v) w = (Inr (), w1)"
      by (auto simp: ProcessDelivery_def and_then_def ok_def terminal_def)
    with assms(4) res show ?thesis by simp
  qed
qed

lemma terminal_not_resent_witness:
  "\<exists>w v. terminal (wd_Status v) \<and> v \<in> set (webhook_deliveries (db w)) \<and>
     http_sent (snd (ProcessDelivery demo_env demo_hooks (wd_ID v) w)) = http_sent w"
proof -
  let ?env = "demo_env\<lparr>http_Do := \<lambda>_ _. Inr 503\<rparr>"
  have "no_faults ?env" "receiver_down ?env" by (simp_all add: no_faults_def receiver_down_def)
  from failing_attempts [OF this demo_idle(1) demo_books(3), of demo_delivery demo_hooks 3]
  obtain v where "db_ok (db (attempts ?env demo_hooks 11 3 demo_funded))"
    "v \<in> set (webhook_deliveries (db (attempts ?env demo_hooks 11 3 demo_funded)))" "terminal (wd_Status v)"
    by (auto simp: demo_delivery terminal_def)
  with terminal_not_resent [OF this surjective_pairing] show ?thesis by blast
qed

text \<open>
  C26: With a working database and against a receiver that never answers with success, n attempts
  on a new delivery send min(n, max_retry) requests and leave it retrying before the maximum and
  failed from the maximum on.
\<close>

theorem deliveries_give_up:
  assumes "no_faults env" and "receiver_down env" and "sql_session w = NoTx" and "db_ok (db w)"
    and "v \<in> set (webhook_deliveries (db w))" and "wd_Status v = WebhookDeliveryStatusPending"
    and "wd_RetryCount v = 0"
  shows "(\<exists>v' \<in> set (webhook_deliveries (db (attempts env cfg (wd_ID v) n w))).
       wd_ID v' = wd_ID v \<and> wd_RetryCount v' = min (int n) (wd_MaxRetry v) \<and>
       wd_Status v' = (if n = 0 then WebhookDeliveryStatusPending
         else if int n < wd_MaxRetry v then WebhookDeliveryStatusRetrying
         else WebhookDeliveryStatusFailed)) \<and>
    length (http_sent (attempts env cfg (wd_ID v) n w)) =
      length (http_sent w) + min n (nat (wd_MaxRetry v))"
  using failing_attempts [OF assms] by blast

lemma deliveries_give_up_witness:
  "length (http_sent (attempts (demo_env\<lparr>http_Do := \<lambda>_ _. Inr 503\<rparr>) demo_hooks 11 7 demo_funded)) = 3"
proof -
  have "no_faults (demo_env\<lparr>http_Do := \<lambda>_ _. Inr 503\<rparr>)" "receiver_down (demo_env\<lparr>http_Do := \<lambda>_ _. Inr 503\<rparr>)"
    by (simp_all add: no_faults_def receiver_down_def)
  from deliveries_give_up [OF this demo_idle(1) demo_books(3), of demo_delivery demo_hooks 7] show ?thesis
    by (simp add: demo_delivery demo_idle)
qed

theorem delivery_signed:
  "map_of (rq_Headers (delivery_request env v)) ''X-Webhook-Delivery-ID'' = Some (uuid_String env (wd_ID v)) \<and>
   map_of (rq_Headers (delivery_request env v)) ''X-Webhook-Signature'' = (case wd_Secret v of
       None \<Rightarrow> None
     | Some secret \<Rightarrow> if secret = '''' then None
         else Some (''sha256='' @ hmac_SHA256_hex env secret
                      (json_Marshal env (rq_Body (delivery_request env v)))))"
  by (simp add: delivery_request_def signPayload_def split: option.split)

text \<open>
  C23: In every reachable state the webhook deliveries correspond one to one, in order, to the
  transactions when webhooks are configured and there are none otherwise, and every delivery is at
  a legal point of its life: attempts, next attempt and status agree.
\<close>

theorem outbox_follows:
  assumes "reachable env pg w"
  shows "list_all lifecycle (webhook_deliveries (db w)) \<and>
    map wd_TransactionID (webhook_deliveries (db w)) =
      (if hooks_on (pg_hooks pg) then map (\<lambda>t. Some (t_ID t)) (transactions (db w)) else [])"
  using reachable_outbox [OF assms] by (simp add: outbox_ok_def)

lemma outbox_follows_witness:
  "lifecycle demo_delivery \<and> map wd_TransactionID (webhook_deliveries (db demo_funded)) = [Some 7]"
  using outbox_follows [OF demo_reachable] by (simp add: demo_delivery)

text \<open>
  C27: With a working database and a receiver that answers with success, one scan of the worker
  delivers every delivery that is due, if they fit into a batch, even those the queue has lost.
\<close>

theorem Tick_delivers:
  assumes "reachable env pg w" and "no_faults env" and "receiver_up env"
    and "v \<in> set (webhook_deliveries (db w))" and "due (time_Now env (n_time w)) v"
    and "int (length (filter (due (time_Now env (n_time w))) (webhook_deliveries (db w)))) \<le> batchSize cfg"
  shows "\<exists>v' \<in> set (webhook_deliveries (db (worker_turn env cfg Tick w))).
     wd_ID v' = wd_ID v \<and> wd_Status v' = WebhookDeliveryStatusSuccess"
proof -
  have "idle w" using reachable_idle [OF assms(1)] by (simp add: idle_def)
  moreover have "db_ok (db w)" using reachable_invariant [OF assms(1)] by (simp add: invariant_def)
  ultimately show ?thesis using assms(2-) by (intro Tick_delivers_due)
qed

lemma Tick_delivers_witness:
  "\<exists>v' \<in> set (webhook_deliveries (db (worker_turn demo_env demo_hooks Tick demo_funded))).
     wd_ID v' = 11 \<and> wd_Status v' = WebhookDeliveryStatusSuccess"
proof -
  have up: "receiver_up demo_env" by (simp add: receiver_up_def)
  have next_retry: "wd_NextRetryAt demo_delivery = None"
    by (simp add: demo_delivery_def demo_funded_eq)
  show ?thesis
    using Tick_delivers [OF demo_reachable demo_no_faults up, of demo_delivery demo_hooks]
    by (simp add: demo_delivery next_retry due_def batchSize_def demo_hooks_def)
qed

end
